(* ===== verification/Prelude.thy ===== *)
theory Prelude
  imports Main "HOL-Library.Char_ord" "HOL-Library.List_Lexorder" "HOL-Library.AList"
    "HOL-Library.Multiset" "HOL-Library.Sublist"
begin

text \<open>
  What every component of the sidecar-agent model shares: the result type of fallible Go
  functions, the sequencing of state-passing operations, permutations chosen by the Go runtime
  (map iteration), sorting by a key and association lists as maps.
  A Go string is a byte sequence; it is modelled by \<open>string\<close>, a list of 8-bit characters,
  and Go's \<open><\<close> on strings is the lexicographic order of \<open>HOL-Library.List_Lexorder\<close>.
\<close>

section \<open>Results of fallible operations\<close>

text \<open>
  A Go function returning \<open>(T, error)\<close> returns \<open>error + T\<close>: \<open>Inl e\<close> is a non-nil
  error, \<open>Inr x\<close> a value. A Go function returning only \<open>error\<close> returns \<open>error option\<close>.
\<close>

fun is_ok :: "'e + 'a \<Rightarrow> bool" where
  "is_ok (Inl e) = False"
| "is_ok (Inr x) = True"

lemma is_ok_iff: "is_ok r \<longleftrightarrow> (\<exists>x. r = Inr x)"
  by (cases r) auto

text \<open>
  \<open>and_then m k\<close> runs \<open>k\<close> on the value and state of \<open>m\<close> and returns early, with the
  state reached so far, when \<open>m\<close> failed: Go's \<open>if err != nil { return ..., err }\<close>.
\<close>

fun and_then :: "('e + 'a) \<times> 's \<Rightarrow> ('a \<Rightarrow> 's \<Rightarrow> ('e + 'b) \<times> 's) \<Rightarrow> ('e + 'b) \<times> 's" where
  "and_then (Inl e, s) k = (Inl e, s)"
| "and_then (Inr x, s) k = k x s"

lemma and_then_Inr:
  "and_then m k = (Inr y, s') \<longleftrightarrow> (\<exists>x s. m = (Inr x, s) \<and> k x s = (Inr y, s'))"
  by (cases "(m, k)" rule: and_then.cases) auto

lemma and_then_Inl:
  "and_then m k = (Inl e, s') \<longleftrightarrow>
     m = (Inl e, s') \<or> (\<exists>x s. m = (Inr x, s) \<and> k x s = (Inl e, s'))"
  by (cases "(m, k)" rule: and_then.cases) auto

lemma and_then_assoc: "and_then (and_then m k) k' = and_then m (\<lambda>x s. and_then (k x s) k')"
  by (cases "(m, k)" rule: and_then.cases) auto

lemma and_then_cong: "m = m' \<Longrightarrow> (\<And>x s. k x s = k' x s) \<Longrightarrow> and_then m k = and_then m' k'"
  by (cases "(m, k)" rule: and_then.cases) auto

lemma and_then_keeps:
  assumes "P (snd m)" and "\<And>x s. m = (Inr x, s) \<Longrightarrow> P s \<Longrightarrow> P (snd (k x s))"
  shows "P (snd (and_then m k))"
  using assms by (cases "(m, k)" rule: and_then.cases) auto

section \<open>Orders the Go runtime chooses\<close>

text \<open>
  The order in which \<open>range\<close> visits a map is chosen by the runtime. A model function that
  ranges over a map takes the choice as an argument \<open>ord\<close>, known only to permute.
\<close>

definition permutes_lists :: "('a list \<Rightarrow> 'a list) \<Rightarrow> bool" where
  "permutes_lists ord \<longleftrightarrow> (\<forall>xs. mset (ord xs) = mset xs)"

lemma permutes_listsD: "permutes_lists ord \<Longrightarrow> mset (ord xs) = mset xs"
  by (simp add: permutes_lists_def)

lemma permutes_set: "permutes_lists ord \<Longrightarrow> set (ord xs) = set xs"
  by (metis permutes_lists_def set_mset_mset)

lemma permutes_length: "permutes_lists ord \<Longrightarrow> length (ord xs) = length xs"
  by (metis permutes_lists_def size_mset)

lemma perm_distinct_map: "mset xs = mset ys \<Longrightarrow> distinct (map f xs) = distinct (map f ys)"
  by (metis mset_map mset_eq_imp_distinct_iff)

lemma permutes_distinct_map:
  "permutes_lists ord \<Longrightarrow> distinct (map f (ord xs)) = distinct (map f xs)"
  by (rule perm_distinct_map) (rule permutes_listsD)

lemma permutes_id: "permutes_lists (\<lambda>xs. xs)"
  by (simp add: permutes_lists_def)

lemma permutes_rev: "permutes_lists rev"
  by (simp add: permutes_lists_def)

section \<open>Sorting by a key\<close>

text \<open>
  \<open>slices.SortFunc\<close> and \<open>sort.Strings\<close> give some sorted permutation of their input. Where the
  keys are pairwise different there is only one, which \<open>sort_key\<close> computes.
\<close>

lemma sorted_key_unique:
  assumes "mset xs = mset ys" "sorted (map key xs)" "sorted (map key ys)" "distinct (map key xs)"
  shows "xs = ys"
proof -
  have "map key xs = map key ys"
    using assms(1-3) by (metis mset_map properties_for_sort)
  moreover have "inj_on key (set xs)" "set xs = set ys"
    using assms(1,4) by (auto simp: distinct_map dest: mset_eq_setD)
  ultimately show ?thesis
    by (metis map_inj_on sup.idem)
qed

lemma sort_key_unique:
  assumes "mset xs = mset ys" "sorted (map key xs)" "distinct (map key ys)"
  shows "xs = sort_key key ys"
proof (rule sorted_key_unique [where key = key])
  show "distinct (map key xs)"
    using assms(1,3) perm_distinct_map by blast
qed (use assms in simp_all)

lemma sort_key_perm_eq:
  assumes "mset xs = mset ys" "distinct (map key xs)"
  shows "sort_key key xs = sort_key key ys"
proof (rule sort_key_unique)
  show "distinct (map key ys)"
    using assms perm_distinct_map by blast
qed (use assms in simp_all)

text \<open>Where keys may repeat, the order of equal elements is the algorithm's choice.\<close>

definition sorts_by :: "('a \<Rightarrow> 'k::linorder) \<Rightarrow> ('a list \<Rightarrow> 'a list) \<Rightarrow> bool" where
  "sorts_by key srt \<longleftrightarrow> (\<forall>xs. mset (srt xs) = mset xs \<and> sorted (map key (srt xs)))"

lemma sorts_by_sort_key: "sorts_by key (sort_key key)"
  by (simp add: sorts_by_def)

lemma sorts_by_set: "sorts_by key srt \<Longrightarrow> set (srt xs) = set xs"
  by (metis sorts_by_def set_mset_mset)

lemma sorts_by_distinct: "sorts_by key srt \<Longrightarrow> distinct (map key xs) \<Longrightarrow> srt xs = sort_key key xs"
  by (intro sort_key_unique) (auto simp: sorts_by_def)

lemma distinct_sorted_less: "distinct xs \<Longrightarrow> sorted xs \<Longrightarrow> sorted_wrt (<) (xs :: 'a::linorder list)"
  by (simp add: strict_sorted_iff)

lemma distinct_map_coarser:
  assumes "distinct (map f xs)" "\<And>x y. x \<in> set xs \<Longrightarrow> y \<in> set xs \<Longrightarrow> g x = g y \<Longrightarrow> f x = f y"
  shows "distinct (map g xs)"
proof -
  have "inj_on f (set xs)" "distinct xs"
    using assms(1) by (simp_all add: distinct_map)
  then have "inj_on g (set xs)"
    using assms(2) unfolding inj_on_def by blast
  with \<open>distinct xs\<close> show ?thesis
    by (simp add: distinct_map)
qed

section \<open>Association lists as Go maps\<close>

text \<open>A Go map with string keys is an association list with different keys.\<close>

lemma map_of_update: "map_of (AList.update k v al) = (map_of al)(k \<mapsto> v)"
  by (simp add: update_conv')

lemma update_keys_set: "fst ` set (AList.update k v al) = insert k (fst ` set al)"
  by (simp only: update_keys flip: set_map) auto

lemma set_update_cases:
  assumes "(k', v') \<in> set (AList.update k v al)" "distinct (map fst al)"
  shows "(k' = k \<and> v' = v) \<or> (k' \<noteq> k \<and> (k', v') \<in> set al)"
proof -
  have "distinct (map fst (AList.update k v al))"
    using assms(2) by (simp add: distinct_update)
  then have "map_of (AList.update k v al) k' = Some v'"
    using assms(1) by simp
  then show ?thesis
    using assms(2) by (auto simp: map_of_update split: if_splits dest: map_of_SomeD)
qed

end
