(* ===== verification/Go_Strings.thy ===== *)
theory Go_Strings
  imports Prelude
begin

text \<open>
  The parts of Go's \<open>strings\<close>, \<open>strconv\<close> and \<open>fmt\<close> packages the agent uses, over byte
  strings: \<open>TrimSpace\<close>, \<open>Trim\<close>, \<open>HasPrefix\<close>, \<open>Index\<close>, \<open>LastIndex\<close>, \<open>Split\<close>, \<open>Join\<close> and the
  decimal form \<open>%d\<close>. The lemmas give the facts the components rely on: trimming is idempotent
  and leaves a string with visible ends alone, joining and splitting are inverse, and the
  decimal form can be read back.
\<close>

section \<open>Trimming white space\<close>

text \<open>The UTF-8 encodings of the code points \<open>unicode.IsSpace\<close> accepts.\<close>

definition space_runes :: "string list" where
  "space_runes =
     [[CHR 0x09], [CHR 0x0A], [CHR 0x0B], [CHR 0x0C], [CHR 0x0D], [CHR 0x20],
      [CHR 0xC2, CHR 0x85], [CHR 0xC2, CHR 0xA0], [CHR 0xE1, CHR 0x9A, CHR 0x80],
      [CHR 0xE2, CHR 0x80, CHR 0x80], [CHR 0xE2, CHR 0x80, CHR 0x81],
      [CHR 0xE2, CHR 0x80, CHR 0x82], [CHR 0xE2, CHR 0x80, CHR 0x83],
      [CHR 0xE2, CHR 0x80, CHR 0x84], [CHR 0xE2, CHR 0x80, CHR 0x85],
      [CHR 0xE2, CHR 0x80, CHR 0x86], [CHR 0xE2, CHR 0x80, CHR 0x87],
      [CHR 0xE2, CHR 0x80, CHR 0x88], [CHR 0xE2, CHR 0x80, CHR 0x89],
      [CHR 0xE2, CHR 0x80, CHR 0x8A], [CHR 0xE2, CHR 0x80, CHR 0xA8],
      [CHR 0xE2, CHR 0x80, CHR 0xA9], [CHR 0xE2, CHR 0x80, CHR 0xAF],
      [CHR 0xE2, CHR 0x81, CHR 0x9F], [CHR 0xE3, CHR 0x80, CHR 0x80]]"

definition leading :: "string list \<Rightarrow> string \<Rightarrow> string option" where
  "leading ws s = find (\<lambda>w. w \<noteq> [] \<and> prefix w s) ws"

lemma leading_Some: "leading ws s = Some w \<Longrightarrow> w \<in> set ws \<and> w \<noteq> [] \<and> prefix w s"
  by (auto simp: leading_def find_Some_iff)

lemma leading_None: "leading ws s = None \<longleftrightarrow> (\<forall>w \<in> set ws. w \<noteq> [] \<longrightarrow> \<not> prefix w s)"
  by (auto simp: leading_def find_None_iff)

lemma leading_None_prefix: "prefix t s \<Longrightarrow> leading ws s = None \<Longrightarrow> leading ws t = None"
  by (auto simp: leading_None dest: prefix_order.trans)

function trim_with :: "string list \<Rightarrow> string \<Rightarrow> string" where
  "trim_with ws s =
     (case leading ws s of None \<Rightarrow> s | Some w \<Rightarrow> trim_with ws (drop (length w) s))"
  by pat_completeness auto
termination
  by (relation "measure (\<lambda>(ws, s). length s)") (auto dest!: leading_Some simp: prefix_def)

declare trim_with.simps [simp del]

lemma trim_with_id: "leading ws s = None \<Longrightarrow> trim_with ws s = s"
  by (simp add: trim_with.simps)

lemma leading_trim_with: "leading ws (trim_with ws s) = None"
  by (induction ws s rule: trim_with.induct) (subst trim_with.simps, simp split: option.splits)

lemma suffix_trim_with: "suffix (trim_with ws s) s"
proof (induction ws s rule: trim_with.induct)
  case (1 ws s)
  then show ?case
    by (subst trim_with.simps) (auto split: option.splits intro: suffix_order.trans suffix_drop)
qed

definition trim_left :: "string \<Rightarrow> string" where
  "trim_left s = trim_with space_runes s"

definition trim_right :: "string \<Rightarrow> string" where
  "trim_right s = rev (trim_with (map rev space_runes) (rev s))"

definition trim_space :: "string \<Rightarrow> string" where
  "trim_space s = trim_right (trim_left s)"

lemma prefix_trim_right: "prefix (trim_right s) s"
  using suffix_trim_with [of "map rev space_runes" "rev s"]
  by (simp add: trim_right_def suffix_to_prefix)

lemma trim_right_idem: "trim_right (trim_right s) = trim_right s"
  by (simp add: trim_right_def trim_with_id leading_trim_with)

lemma trim_space_idem [simp]: "trim_space (trim_space s) = trim_space s"
proof -
  have "leading space_runes (trim_space s) = None"
    using leading_None_prefix [OF prefix_trim_right leading_trim_with]
    by (simp add: trim_space_def trim_left_def)
  then have "trim_left (trim_space s) = trim_space s"
    by (simp add: trim_left_def trim_with_id)
  then show ?thesis
    by (simp add: trim_space_def trim_right_idem)
qed

lemma set_trim_space: "set (trim_space s) \<subseteq> set s"
proof -
  have "set (trim_right t) \<subseteq> set t" for t
    using prefix_trim_right by (rule set_mono_prefix)
  moreover have "set (trim_left s) \<subseteq> set s"
    using suffix_trim_with [of space_runes s] by (simp add: trim_left_def set_mono_suffix)
  ultimately show ?thesis
    by (auto simp: trim_space_def)
qed

text \<open>A string whose first and last bytes are visible ASCII characters is left alone.\<close>

definition graphic :: "char \<Rightarrow> bool" where
  "graphic c \<longleftrightarrow> 33 \<le> (of_char c :: nat) \<and> (of_char c :: nat) \<le> 126"

definition trimmed :: "string \<Rightarrow> bool" where
  "trimmed s \<longleftrightarrow> s \<noteq> [] \<longrightarrow> graphic (hd s) \<and> graphic (last s)"

lemma space_runes_not_graphic:
  "w \<in> set space_runes \<Longrightarrow> w \<noteq> [] \<and> \<not> graphic (hd w) \<and> \<not> graphic (last w)"
  by (auto simp: space_runes_def graphic_def)

lemma leading_graphic: "(s \<noteq> [] \<longrightarrow> graphic (hd s)) \<Longrightarrow> leading space_runes s = None"
  by (auto simp: leading_None prefix_def dest!: space_runes_not_graphic)

lemma leading_graphic_rev:
  "(s \<noteq> [] \<longrightarrow> graphic (last s)) \<Longrightarrow> leading (map rev space_runes) (rev s) = None"
  by (auto simp: leading_None prefix_def rev_swap dest!: space_runes_not_graphic)

lemma trim_space_trimmed: "trimmed s \<Longrightarrow> trim_space s = s"
  by (simp add: trimmed_def trim_space_def trim_left_def trim_right_def trim_with_id
      leading_graphic leading_graphic_rev)

lemma trimmed_all_graphic: "\<forall>c \<in> set s. graphic c \<Longrightarrow> trimmed s"
  by (simp add: trimmed_def)

lemma trim_space_Nil [simp]: "trim_space [] = []"
  by (rule trim_space_trimmed) (simp add: trimmed_def)

text \<open>\<open>strings.Trim(s, cutset)\<close> for a cutset of one ASCII byte.\<close>

definition trim_byte :: "char \<Rightarrow> string \<Rightarrow> string" where
  "trim_byte c s = rev (dropWhile ((=) c) (rev (dropWhile ((=) c) s)))"

section \<open>Searching and splitting\<close>

definition has_prefix :: "string \<Rightarrow> string \<Rightarrow> bool" where
  "has_prefix s p \<longleftrightarrow> prefix p s"

definition trim_prefix :: "string \<Rightarrow> string \<Rightarrow> string" where
  "trim_prefix s p = (if prefix p s then drop (length p) s else s)"

text \<open>\<open>Index\<close> and \<open>LastIndex\<close> of a one-byte separator: -1 when it is absent.\<close>

definition index_byte :: "string \<Rightarrow> char \<Rightarrow> int" where
  "index_byte s c = (if c \<in> set s then int (length (takeWhile (\<lambda>x. x \<noteq> c) s)) else -1)"

definition last_index_byte :: "string \<Rightarrow> char \<Rightarrow> int" where
  "last_index_byte s c =
     (if c \<in> set s then int (length s) - 1 - int (length (takeWhile (\<lambda>x. x \<noteq> c) (rev s))) else -1)"

lemma takeWhile_sep: "c \<notin> set t \<Longrightarrow> takeWhile (\<lambda>x. x \<noteq> c) (t @ c # s) = t"
  by (induction t) auto

lemma last_index_byte_append:
  "c \<notin> set t \<Longrightarrow> last_index_byte (s @ c # t) c = int (length s)"
  by (simp add: last_index_byte_def takeWhile_sep)

lemma index_byte_append: "c \<notin> set s \<Longrightarrow> index_byte (s @ c # t) c = int (length s)"
  by (simp add: index_byte_def takeWhile_sep)

fun split_on :: "char \<Rightarrow> string \<Rightarrow> string list" where
  "split_on c [] = [[]]"
| "split_on c (x # xs) =
     (if x = c then [] # split_on c xs
      else (case split_on c xs of [] \<Rightarrow> [[x]] | y # ys \<Rightarrow> (x # y) # ys))"

fun join :: "string \<Rightarrow> string list \<Rightarrow> string" where
  "join sep [] = []"
| "join sep [x] = x"
| "join sep (x # y # ys) = x @ sep @ join sep (y # ys)"

lemma split_on_absent: "c \<notin> set s \<Longrightarrow> split_on c s = [s]"
  by (induction s) auto

lemma split_on_append: "c \<notin> set s \<Longrightarrow> split_on c (s @ c # t) = s # split_on c t"
  by (induction s) auto

lemma split_on_join:
  "xs \<noteq> [] \<Longrightarrow> \<forall>x \<in> set xs. c \<notin> set x \<Longrightarrow> split_on c (join [c] xs) = xs"
  by (induction "[c]" xs rule: join.induct) (auto simp: split_on_absent split_on_append)

section \<open>Decimal numbers\<close>

definition digit :: "nat \<Rightarrow> char" where
  "digit n = char_of (48 + n)"

definition is_digit :: "char \<Rightarrow> bool" where
  "is_digit c \<longleftrightarrow> 48 \<le> (of_char c :: nat) \<and> (of_char c :: nat) \<le> 57"

definition digit_value :: "char \<Rightarrow> nat" where
  "digit_value c = of_char c - 48"

text \<open>\<open>fmt.Sprintf("%d", n)\<close> for a natural number and for an integer.\<close>

fun dec :: "nat \<Rightarrow> string" where
  "dec n = (if n < 10 then [digit n] else dec (n div 10) @ [digit (n mod 10)])"

declare dec.simps [simp del]

definition fmt_d :: "int \<Rightarrow> string" where
  "fmt_d i = (if i < 0 then CHR ''-'' # dec (nat (- i)) else dec (nat i))"

definition digits_value :: "string \<Rightarrow> nat" where
  "digits_value s = foldl (\<lambda>a c. 10 * a + digit_value c) 0 s"

lemma of_char_digit: "n < 10 \<Longrightarrow> (of_char (digit n) :: nat) = 48 + n"
  by (simp add: digit_def of_char_of)

lemma digit_value_digit: "n < 10 \<Longrightarrow> digit_value (digit n) = n"
  by (simp add: digit_value_def of_char_digit)

lemma is_digit_digit: "n < 10 \<Longrightarrow> is_digit (digit n)"
  by (simp add: is_digit_def of_char_digit)

lemma is_digit_graphic: "is_digit c \<Longrightarrow> graphic c"
  by (simp add: is_digit_def graphic_def)

lemma dec_not_Nil [simp]: "dec n \<noteq> []"
  by (subst dec.simps) simp

lemma dec_digits: "c \<in> set (dec n) \<Longrightarrow> is_digit c"
proof (induction n rule: dec.induct)
  case (1 n)
  then show ?case
    by (subst (asm) (2) dec.simps) (auto simp: is_digit_digit split: if_splits)
qed

lemma digits_value_dec: "digits_value (dec n) = n"
proof (induction n rule: dec.induct)
  case (1 n)
  show ?case
  proof (cases "n < 10")
    case True
    then show ?thesis by (subst dec.simps) (simp add: digits_value_def digit_value_digit)
  next
    case False
    with 1 have "digits_value (dec (n div 10)) = n div 10" by simp
    with False show ?thesis
      by (subst dec.simps) (simp add: digits_value_def digit_value_digit)
  qed
qed

lemma dec_inject [simp]: "dec m = dec n \<longleftrightarrow> m = n"
  by (metis digits_value_dec)

lemma not_is_digit [simp]:
  "\<not> is_digit CHR '':''" "\<not> is_digit CHR ''-''" "\<not> is_digit CHR ''|''" "\<not> is_digit CHR ''.''"
  "\<not> is_digit CHR '' ''" "\<not> is_digit CHR '',''"
  by (simp_all add: is_digit_def)

lemma fmt_d_inject [simp]: "fmt_d i = fmt_d j \<longleftrightarrow> i = j"
proof -
  have "CHR ''-'' # s \<noteq> dec n" for s n
    by (metis dec_digits list.set_intros(1) not_is_digit(2))
  then show ?thesis
    by (auto simp: fmt_d_def) (metis)
qed

lemma fmt_d_chars: "c \<in> set (fmt_d i) \<Longrightarrow> is_digit c \<or> c = CHR ''-''"
  by (auto simp: fmt_d_def split: if_splits dest: dec_digits)

lemma fmt_d_not_Nil [simp]: "fmt_d i \<noteq> []"
  by (simp add: fmt_d_def)

lemma fmt_d_absent [simp]:
  "CHR '':'' \<notin> set (fmt_d i)" "CHR ''|'' \<notin> set (fmt_d i)" "CHR ''.'' \<notin> set (fmt_d i)"
  by (auto dest: fmt_d_chars)

lemma graphic_fmt_d: "c \<in> set (fmt_d i) \<Longrightarrow> graphic c"
  using fmt_d_chars [of c i] is_digit_graphic [of c] by (auto simp: graphic_def)

lemma trim_space_fmt_d [simp]: "trim_space (fmt_d i) = fmt_d i"
  by (intro trim_space_trimmed trimmed_all_graphic ballI graphic_fmt_d)

text \<open>A separator that neither right part contains splits an appended string uniquely.\<close>

lemma append_sep_inject_left:
  assumes "c \<notin> set s" "c \<notin> set s'"
  shows "s @ c # t = s' @ c # t' \<longleftrightarrow> s = s' \<and> t = t'"
proof
  assume eq: "s @ c # t = s' @ c # t'"
  have "s = takeWhile (\<lambda>x. x \<noteq> c) (s' @ c # t')"
    using takeWhile_sep [OF assms(1), of t] by (simp only: eq)
  then have "s = s'"
    by (simp only: takeWhile_sep [OF assms(2)])
  with eq show "s = s' \<and> t = t'" by simp
qed simp

lemma append_sep_inject:
  assumes "c \<notin> set t" "c \<notin> set t'"
  shows "s @ c # t = s' @ c # t' \<longleftrightarrow> s = s' \<and> t = t'"
proof -
  have "s @ c # t = s' @ c # t' \<longleftrightarrow> rev t @ c # rev s = rev t' @ c # rev s'"
    by (metis append.assoc append_Cons append_Nil rev_append rev_rev_ident rev.simps(2))
  then show ?thesis
    using assms by (auto simp: append_sep_inject_left)
qed

end
