(* ===== verification/Instance_Id.thy ===== *)
theory Instance_Id
  imports Go_Strings "HOL-Library.Word"
begin

text \<open>
  \<open>newInstanceID\<close> of \<open>src/registry/consul.go\<close>: a UUID of version 7 from 16 random bytes and the
  current time in milliseconds. The random bytes are a function from index to byte, the time is
  the \<open>uint64\<close> the code shifts. The lemmas show the layout (36 characters, version and variant
  digits), that equal strings mean equal bytes, and that identifiers made at a later millisecond
  sort later.
\<close>

unbundle bit_operations_syntax

type_synonym byte = "8 word"

definition uuid_bytes :: "(nat \<Rightarrow> byte) \<Rightarrow> 64 word \<Rightarrow> byte list" where
  "uuid_bytes buffer millis =
     [ucast (drop_bit 40 millis), ucast (drop_bit 32 millis), ucast (drop_bit 24 millis),
      ucast (drop_bit 16 millis), ucast (drop_bit 8 millis), ucast millis,
      (buffer 6 AND 0x0f) OR 0x70, buffer 7, (buffer 8 AND 0x3f) OR 0x80,
      buffer 9, buffer 10, buffer 11, buffer 12, buffer 13, buffer 14, buffer 15]"

text \<open>\<open>hex.EncodeToString\<close>: two lower-case digits for each byte.\<close>

definition hex_char :: "nat \<Rightarrow> char" where
  "hex_char n = (if n < 10 then char_of (48 + n) else char_of (87 + n))"

definition hex_byte :: "byte \<Rightarrow> string" where
  "hex_byte b = [hex_char (unat b div 16), hex_char (unat b mod 16)]"

definition encode_hex :: "byte list \<Rightarrow> string" where
  "encode_hex bs = concat (map hex_byte bs)"

definition uuid_string :: "byte list \<Rightarrow> string" where
  "uuid_string bs =
     (let encoded = encode_hex bs; part = (\<lambda>i j. take (j - i) (drop i encoded))
      in part 0 8 @ ''-'' @ part 8 12 @ ''-'' @ part 12 16 @ ''-'' @ part 16 20 @ ''-'' @ part 20 32)"

definition instance_id :: "(nat \<Rightarrow> byte) \<Rightarrow> 64 word \<Rightarrow> string" where
  "instance_id buffer millis = uuid_string (uuid_bytes buffer millis)"

section \<open>Hexadecimal digits keep the order of bytes\<close>

lemma of_char_hex: "n < 16 \<Longrightarrow> (of_char (hex_char n) :: nat) = (if n < 10 then 48 + n else 87 + n)"
  by (simp add: hex_char_def of_char_of)

lemma hex_char_less: "m < 16 \<Longrightarrow> n < 16 \<Longrightarrow> hex_char m < hex_char n \<longleftrightarrow> m < n"
  by (auto simp: less_char_def of_char_hex)

lemma hex_char_inject: "m < 16 \<Longrightarrow> n < 16 \<Longrightarrow> hex_char m = hex_char n \<longleftrightarrow> m = n"
  by (metis hex_char_less less_irrefl linorder_neqE_nat)

lemma byte_nibbles: "unat (b :: byte) div 16 < 16" "unat b mod 16 < 16"
  using unsigned_less [of b, where ?'a = nat] by (simp_all add: less_mult_imp_div_less)

lemma unat_byte_eq: "unat (b :: byte) = 16 * (unat b div 16) + unat b mod 16"
  by simp

lemma hex_byte_inject: "hex_byte a = hex_byte b \<longleftrightarrow> a = b"
proof
  assume "hex_byte a = hex_byte b"
  then have "unat a div 16 = unat b div 16" "unat a mod 16 = unat b mod 16"
    by (simp_all add: hex_byte_def hex_char_inject byte_nibbles)
  then have "unat a = unat b"
    by (metis unat_byte_eq)
  then show "a = b" by (rule unsigned_word_eqI)
qed simp

lemma hex_byte_less:
  assumes "a < b"
  shows "hex_byte a @ s < hex_byte b @ t"
proof -
  have "unat a < unat b"
    using assms by (simp add: word_less_nat_alt)
  then have "unat a div 16 < unat b div 16 \<or>
      unat a div 16 = unat b div 16 \<and> unat a mod 16 < unat b mod 16"
    using unat_byte_eq [of a] unat_byte_eq [of b] div_le_mono [of "unat a" "unat b" 16]
    by linarith
  then show ?thesis
    by (auto simp: hex_byte_def hex_char_less hex_char_inject byte_nibbles)
qed

section \<open>Layout\<close>

lemma take_encode_hex: "take (2 * n) (encode_hex bs) = encode_hex (take n bs)"
  by (induction bs arbitrary: n) (auto simp: encode_hex_def hex_byte_def take_Cons' mult_2 split: nat_diff_split)

lemma drop_encode_hex: "drop (2 * n) (encode_hex bs) = encode_hex (drop n bs)"
  by (induction bs arbitrary: n) (auto simp: encode_hex_def hex_byte_def drop_Cons' mult_2 split: nat_diff_split)

lemma uuid_string_parts:
  "uuid_string bs =
     encode_hex (take 4 bs) @ ''-'' @ encode_hex (take 2 (drop 4 bs)) @ ''-'' @
     encode_hex (take 2 (drop 6 bs)) @ ''-'' @ encode_hex (take 2 (drop 8 bs)) @ ''-'' @
     encode_hex (take 6 (drop 10 bs))"
  using take_encode_hex [of 4 bs] take_encode_hex [of 2 "drop 4 bs"] take_encode_hex [of 2 "drop 6 bs"]
    take_encode_hex [of 2 "drop 8 bs"] take_encode_hex [of 6 "drop 10 bs"]
    drop_encode_hex [of 4 bs] drop_encode_hex [of 6 bs] drop_encode_hex [of 8 bs] drop_encode_hex [of 10 bs]
  by (simp add: uuid_string_def Let_def)

lemmas instance_id_parts = uuid_string_parts [of "uuid_bytes buffer millis" for buffer millis,
  folded instance_id_def]

lemma instance_id_length: "length (instance_id buffer millis) = 36"
  by (simp add: instance_id_parts uuid_bytes_def encode_hex_def hex_byte_def)

lemma instance_id_graphic: "c \<in> set (instance_id buffer millis) \<Longrightarrow> graphic c"
proof -
  have hex: "graphic (hex_char n)" if "n < 16" for n
    using that by (simp add: graphic_def of_char_hex)
  have "\<forall>c \<in> set (encode_hex bs). graphic c" for bs
    by (induction bs) (auto simp: encode_hex_def hex_byte_def hex byte_nibbles)
  then show "c \<in> set (instance_id buffer millis) \<Longrightarrow> graphic c"
    by (auto simp: instance_id_parts graphic_def)
qed

lemma trim_space_instance_id [simp]: "trim_space (instance_id buffer millis) = instance_id buffer millis"
  by (intro trim_space_trimmed trimmed_all_graphic ballI instance_id_graphic)

text \<open>The four version bits are 0111, the two variant bits are 10.\<close>

lemma version_nibble: "unat (((x :: byte) AND 0x0f) OR 0x70) div 16 = 7"
proof -
  have "unat ((x AND 0x0f) OR 0x70) div 16 = unat (drop_bit 4 ((x AND 0x0f) OR 0x70))"
    by (simp add: drop_bit_eq_div unat_div)
  also have "drop_bit 4 ((x AND 0x0f) OR 0x70) = (7 :: byte)"
    by (simp add: drop_bit_or drop_bit_and)
  finally show ?thesis by simp
qed

lemma variant_nibble: "unat (((x :: byte) AND 0x3f) OR 0x80) div 64 = 2"
proof -
  have "unat ((x AND 0x3f) OR 0x80) div 64 = unat (drop_bit 6 ((x AND 0x3f) OR 0x80))"
    by (simp add: drop_bit_eq_div unat_div)
  also have "drop_bit 6 ((x AND 0x3f) OR 0x80) = (2 :: byte)"
    by (simp add: drop_bit_or drop_bit_and)
  finally show ?thesis by simp
qed

section \<open>Later identifiers sort later\<close>

text \<open>The \<open>n\<close> low bytes of a number, most significant first, are ordered as the number is.\<close>

fun big_endian :: "nat \<Rightarrow> nat \<Rightarrow> nat list" where
  "big_endian 0 m = []"
| "big_endian (Suc n) m = big_endian n (m div 256) @ [m mod 256]"

lemma length_big_endian [simp]: "length (big_endian n m) = n"
  by (induction n arbitrary: m) auto

lemma append_less_left: "xs < ys \<Longrightarrow> length xs = length ys \<Longrightarrow> xs @ s < ys @ (t :: 'a::linorder list)"
  by (induction xs ys rule: list_induct2') auto

lemma append_less_same: "xs @ s < xs @ t \<longleftrightarrow> s < (t :: 'a::linorder list)"
  by (induction xs) auto

lemma big_endian_less: "k < m \<Longrightarrow> m < 256 ^ n \<Longrightarrow> big_endian n k < big_endian n m"
proof (induction n arbitrary: k m)
  case (Suc n)
  show ?case
  proof (cases "k div 256 < m div 256")
    case True
    moreover have "m div 256 < 256 ^ n"
      using Suc.prems(2) by (simp add: less_mult_imp_div_less)
    ultimately show ?thesis
      by (simp add: Suc.IH append_less_left)
  next
    case False
    then have "k div 256 = m div 256" "k mod 256 < m mod 256"
      using Suc.prems(1) div_le_mono [of k m 256] div_mult_mod_eq [of k 256] div_mult_mod_eq [of m 256]
      by linarith+
    then show ?thesis
      by (simp add: append_less_same)
  qed
qed simp

lemma unat_shifted_byte: "unat (ucast (drop_bit k (m :: 64 word)) :: byte) = unat m div 2 ^ k mod 256"
proof -
  have "unat (ucast (drop_bit k m) :: byte) = unat (drop_bit k m) mod 256"
    by (simp add: unsigned_ucast_eq take_bit_eq_mod)
  also have "unat (drop_bit k m) = unat m div 2 ^ k"
    by (simp add: unat_drop_bit_eq drop_bit_eq_div [where 'a = nat] del: drop_bit_eq_div)
  finally show ?thesis .
qed

lemma time_bytes: "map unat (take 6 (uuid_bytes buffer millis)) = big_endian 6 (unat millis)"
proof -
  have "(6 :: nat) = Suc (Suc (Suc (Suc (Suc (Suc 0)))))"
    by simp
  then have six: "big_endian 6 n = [n div 2 ^ 40 mod 256, n div 2 ^ 32 mod 256, n div 2 ^ 24 mod 256,
      n div 2 ^ 16 mod 256, n div 2 ^ 8 mod 256, n mod 256]" for n
    by (simp only: big_endian.simps) (simp add: div_mult2_eq [symmetric])
  show ?thesis
    using unat_shifted_byte [of 0 millis]
    by (simp only: six) (simp add: uuid_bytes_def unat_shifted_byte)
qed

lemma encode_hex_append: "encode_hex (xs @ ys) = encode_hex xs @ encode_hex ys"
  by (simp add: encode_hex_def)

lemma encode_hex_less:
  "map unat xs < map unat ys \<Longrightarrow> length xs = length ys \<Longrightarrow> encode_hex xs @ s < encode_hex ys @ t"
proof (induction xs ys rule: list_induct2')
  case (4 x xs y ys)
  show ?case
  proof (cases "x = y")
    case True
    with 4 show ?thesis by (simp add: encode_hex_def append_less_same)
  next
    case False
    with 4 have "x < y"
      by (auto simp: word_less_nat_alt dest: unsigned_word_eqI)
    then show ?thesis by (simp add: encode_hex_def hex_byte_less)
  qed
qed simp_all

lemma instance_id_time_order:
  assumes "m < m'" "m' < 2 ^ 48"
  shows "instance_id buffer m < instance_id buffer' m'"
proof -
  let ?b = "uuid_bytes buffer m" and ?b' = "uuid_bytes buffer' m'"
  have "unat m < unat m'" "unat m' < 256 ^ 6"
    using assms by (simp_all add: word_less_nat_alt)
  then have less: "map unat (take 6 ?b) < map unat (take 6 ?b')"
    by (simp only: time_bytes big_endian_less)
  have len: "length (take 4 ?b) = length (take 4 ?b')" "length (take 2 (drop 4 ?b)) = length (take 2 (drop 4 ?b'))"
    by (simp_all add: uuid_bytes_def)
  consider "map unat (take 4 ?b) < map unat (take 4 ?b')"
    | "take 4 ?b = take 4 ?b'" "map unat (take 2 (drop 4 ?b)) < map unat (take 2 (drop 4 ?b'))"
    using less by (auto simp: uuid_bytes_def word_unat_eq_iff)
  then show ?thesis
  proof cases
    case 1
    with len(1) show ?thesis
      unfolding instance_id_parts by (intro encode_hex_less)
  next
    case 2
    with len(2) show ?thesis
      unfolding instance_id_parts 2(1) append_less_same by (simp add: encode_hex_less del: take_drop)
  qed
qed

end
