(* ===== verification/Go_Errors.thy ===== *)
theory Go_Errors
  imports Prelude
begin

text \<open>
  The errors the agent returns, one constructor per place of the source that makes one, with the
  values its message prints. An error that comes from outside (Consul, the operating system, the
  xDS cache) is \<open>External\<close> with the text the outside gave.
\<close>

datatype go_error =
    InvalidDuration string             \<comment> \<open>\<open>time.ParseDuration\<close>: malformed or out of range\<close>
  | MissingUnit string                 \<comment> \<open>\<open>time.ParseDuration\<close>: a number with no unit\<close>
  | UnknownUnit string string          \<comment> \<open>\<open>time.ParseDuration\<close>: the unit and the whole input\<close>
  | AddressError string string         \<comment> \<open>\<open>net.AddrError\<close>: why, and the address\<close>
  | FieldRequired string               \<comment> \<open>\<open>"%s is required"\<close>\<close>
  | FieldInvalid string go_error       \<comment> \<open>\<open>"%s is invalid: %w"\<close>\<close>
  | ValueInvalid string string         \<comment> \<open>\<open>"%s is invalid: %s"\<close>: the field and its value\<close>
  | PortInvalid int                    \<comment> \<open>\<open>"port is invalid: %d"\<close>\<close>
  | WeightNotPositive                  \<comment> \<open>\<open>"weight must be greater than zero"\<close>\<close>
  | MethodsEmpty                       \<comment> \<open>\<open>"methods must not be empty"\<close>\<close>
  | MethodInvalid string               \<comment> \<open>\<open>"method is invalid: %s"\<close>\<close>
  | GraceNotPositive                   \<comment> \<open>\<open>"grace_period must be greater than zero"\<close>\<close>
  | LeaseNotSmaller                    \<comment> \<open>the refresh interval is not below the TTL\<close>
  | RequiredWhen string                \<comment> \<open>a field another setting makes mandatory: the message\<close>
  | ServiceNotFound string int         \<comment> \<open>\<open>"local service not found: %s:%d"\<close>\<close>
  | Unsupported string                 \<comment> \<open>the message of \<open>unsupported telemetry ... exporter\<close>\<close>
  | RouteConflict string               \<comment> \<open>\<open>"route document conflict on %s"\<close>\<close>
  | ApiMissing string                  \<comment> \<open>\<open>"consul ... api is required"\<close>\<close>
  | DecodeError string                 \<comment> \<open>a document or request body that does not decode\<close>
  | ContextDone                        \<comment> \<open>\<open>ctx.Err()\<close> after a deadline or a cancellation\<close>
  | External string

end
