(* ===== verification/Go_Time.thy ===== *)
theory Go_Time
  imports Go_Strings Go_Errors
begin

text \<open>
  Go's \<open>time\<close> package as the agent uses it. A \<open>time.Duration\<close> is an \<open>int\<close> of nanoseconds and
  \<open>time.ParseDuration\<close> rejects what does not fit 64 bits, so no arithmetic here wraps; an instant
  is the \<open>int\<close> of nanoseconds since the Unix epoch (UTC). \<open>parse_duration\<close> follows the standard
  library's scanner, with the fraction computed in binary64 as the library does.
\<close>

type_synonym duration = int
type_synonym instant = int

definition second :: duration where
  "second = 1000000000"

section \<open>The fraction of a duration, in binary64\<close>

text \<open>
  A non-negative binary64 number is kept as a fraction of two naturals. \<open>to_double\<close> rounds a
  fraction to 53 significant bits, half to even; exponents never leave the normal range here.
\<close>

definition round_div :: "nat \<Rightarrow> nat \<Rightarrow> nat" where
  "round_div p q =
     (let d = p div q; r = p mod q
      in if 2 * r < q \<or> (2 * r = q \<and> even d) then d else d + 1)"

function double_up :: "nat \<Rightarrow> nat \<Rightarrow> nat \<Rightarrow> nat \<times> nat" where
  "double_up p b k = (if p = 0 \<or> b \<le> p then (p, k) else double_up (2 * p) b (k + 1))"
  by pat_completeness auto
termination
  by (relation "measure (\<lambda>(p, b, k). b - p)") auto

function double_down :: "nat \<Rightarrow> nat \<Rightarrow> nat \<Rightarrow> nat \<times> nat" where
  "double_down p q k = (if q = 0 \<or> p < q * 2 ^ 53 then (q, k) else double_down p (2 * q) (k + 1))"
  by pat_completeness auto
termination
  by (relation "measure (\<lambda>(p, q, k). p - q)") auto

declare double_up.simps [simp del] double_down.simps [simp del]

definition to_double :: "nat \<times> nat \<Rightarrow> nat \<times> nat" where
  "to_double r =
     (let (p, q) = r
      in if p = 0 then (0, 1)
         else if p < q * 2 ^ 52
         then let (p', k) = double_up p (q * 2 ^ 52) 0 in (round_div p' q, 2 ^ k)
         else let (q', k) = double_down p q 0 in (round_div p q' * 2 ^ k, 1))"

text \<open>\<open>uint64(float64(f) * (float64(unit) / scale))\<close> with \<open>scale = 10^k\<close>.\<close>

definition frac_ns :: "nat \<Rightarrow> nat \<Rightarrow> nat \<Rightarrow> nat" where
  "frac_ns f unit k =
     (let (fp, fq) = to_double (f, 1);
          (up, uq) = to_double (unit, 10 ^ k);
          (p, q) = to_double (fp * up, fq * uq)
      in p div q)"

section \<open>ParseDuration\<close>

definition unit_map :: "(string \<times> nat) list" where
  "unit_map =
     [(''ns'', 1), (''us'', 1000), ([CHR 0xC2, CHR 0xB5, CHR ''s''], 1000),
      ([CHR 0xCE, CHR 0xBC, CHR ''s''], 1000), (''ms'', 1000000), (''s'', 1000000000),
      (''m'', 60000000000), (''h'', 3600000000000)]"

text \<open>\<open>leadingInt\<close>: the value read grows with every digit, so it overflowed iff the final one did.\<close>

definition leading_int :: "string \<Rightarrow> (nat \<times> string) option" where
  "leading_int s =
     (let n = digits_value (takeWhile is_digit s)
      in if n > 2 ^ 63 then None else Some (n, dropWhile is_digit s))"

fun leading_fraction :: "string \<Rightarrow> nat \<Rightarrow> nat \<Rightarrow> bool \<Rightarrow> nat \<times> nat \<times> string" where
  "leading_fraction [] x k overflow = (x, k, [])"
| "leading_fraction (c # s) x k overflow =
     (if \<not> is_digit c then (x, k, c # s)
      else if overflow \<or> x > (2 ^ 63 - 1) div 10 then leading_fraction s x k True
      else let y = 10 * x + digit_value c
           in if y > 2 ^ 63 then leading_fraction s x k True
              else leading_fraction s y (k + 1) False)"

lemma leading_fraction_length:
  "leading_fraction s x k ov = (f, n, t) \<Longrightarrow> length t \<le> length s"
  by (induction s x k ov rule: leading_fraction.induct)
    (force simp: Let_def split: if_splits)+

text \<open>What follows the integer part: the fraction (value and digits), whether it had digits, the rest.\<close>

definition fraction_part :: "string \<Rightarrow> nat \<times> nat \<times> bool \<times> string" where
  "fraction_part s =
     (case s of
        [] \<Rightarrow> (0, 0, False, [])
      | c # r \<Rightarrow>
          if c = CHR ''.''
          then (case leading_fraction r 0 0 False of
                  (f, k, t) \<Rightarrow> (f, k, length t \<noteq> length r, t))
          else (0, 0, False, s))"

definition unit_char :: "char \<Rightarrow> bool" where
  "unit_char c \<longleftrightarrow> c \<noteq> CHR ''.'' \<and> \<not> is_digit c"

lemma fraction_part_length: "fraction_part s = (f, k, p, t) \<Longrightarrow> length t \<le> length s"
  by (cases s) (auto simp: fraction_part_def split: if_splits prod.splits dest: leading_fraction_length)

lemma dropWhile_shorter: "takeWhile p s \<noteq> [] \<Longrightarrow> length (dropWhile p s) < length s"
  by (cases s) (auto split: if_splits simp: less_Suc_eq_le length_dropWhile_le)

text \<open>One round of the library's loop: a number with its unit, added to the sum so far.\<close>

definition duration_item :: "string \<Rightarrow> string \<Rightarrow> nat \<Rightarrow> go_error + (nat \<times> string)" where
  "duration_item orig s d =
     (if s = [] \<or> unit_char (hd s) then Inl (InvalidDuration orig)
      else case leading_int s of
        None \<Rightarrow> Inl (InvalidDuration orig)
      | Some (v, s1) \<Rightarrow>
        (case fraction_part s1 of (f, k, post, s2) \<Rightarrow>
          if length s1 = length s \<and> \<not> post then Inl (InvalidDuration orig)
          else let u = takeWhile unit_char s2; s3 = dropWhile unit_char s2
          in if u = [] then Inl (MissingUnit orig)
          else case map_of unit_map u of
            None \<Rightarrow> Inl (UnknownUnit u orig)
          | Some unit \<Rightarrow>
              if v > 2 ^ 63 div unit then Inl (InvalidDuration orig)
              else let v1 = v * unit + (if f > 0 then frac_ns f unit k else 0)
              in if v1 > 2 ^ 63 \<or> d + v1 > 2 ^ 63 then Inl (InvalidDuration orig)
              else Inr (d + v1, s3)))"

lemma duration_item_length:
  assumes "duration_item orig s d = Inr (d', t)"
  shows "length t < length s"
proof -
  obtain v s1 f k p s2 where "leading_int s = Some (v, s1)" "fraction_part s1 = (f, k, p, s2)"
    and t: "t = dropWhile unit_char s2" "takeWhile unit_char s2 \<noteq> []"
    using assms by (auto simp: duration_item_def Let_def split: if_splits option.splits prod.splits)
  then have "length s2 \<le> length s"
    by (auto simp: leading_int_def Let_def split: if_splits
        intro: order_trans [OF fraction_part_length length_dropWhile_le])
  with t show ?thesis
    using dropWhile_shorter [of unit_char s2] by simp
qed

lemma duration_item_bound: "duration_item orig s d = Inr (d', t) \<Longrightarrow> d \<le> d' \<and> d' \<le> 2 ^ 63"
  by (auto simp: duration_item_def Let_def split: if_splits option.splits prod.splits)

function duration_loop :: "string \<Rightarrow> string \<Rightarrow> nat \<Rightarrow> go_error + nat" where
  "duration_loop orig s d =
     (if s = [] then Inr d
      else case duration_item orig s d of
        Inl e \<Rightarrow> Inl e
      | Inr (d', t) \<Rightarrow> duration_loop orig t d')"
  by pat_completeness auto
termination
  by (relation "measure (\<lambda>(orig, s, d). length s)") (auto dest: duration_item_length)

declare duration_loop.simps [simp del]

lemma duration_loop_bound: "duration_loop orig s d = Inr r \<Longrightarrow> d \<le> 2 ^ 63 \<Longrightarrow> r \<le> 2 ^ 63"
proof (induction orig s d rule: duration_loop.induct)
  case (1 orig s d)
  show ?case
  proof (cases "s = []")
    case True
    with "1.prems" show ?thesis by (simp add: duration_loop.simps)
  next
    case False
    with "1.prems"(1) obtain d' t where item: "duration_item orig s d = Inr (d', t)"
      and "duration_loop orig t d' = Inr r"
      by (auto simp: duration_loop.simps [of orig s d] split: sum.splits)
    with False duration_item_bound [OF item] show ?thesis
      using "1.IH" by blast
  qed
qed

definition parse_duration :: "string \<Rightarrow> go_error + duration" where
  "parse_duration s =
     (let neg = (s \<noteq> [] \<and> hd s = CHR ''-'');
          t = (if s \<noteq> [] \<and> (hd s = CHR ''-'' \<or> hd s = CHR ''+'') then tl s else s)
      in if t = ''0'' then Inr 0
         else if t = [] then Inl (InvalidDuration s)
         else case duration_loop s t 0 of
           Inl e \<Rightarrow> Inl e
         | Inr d \<Rightarrow>
             if neg then Inr (- int d)
             else if d > 2 ^ 63 - 1 then Inl (InvalidDuration s)
             else Inr (int d))"

text \<open>What parses fits the 64 bits of a \<open>time.Duration\<close>.\<close>

lemma parse_duration_bounds:
  assumes "parse_duration s = Inr d"
  shows "- (2 ^ 63) \<le> d \<and> d < 2 ^ 63"
proof (cases "d = 0")
  case False
  with assms obtain t n where loop: "duration_loop s t 0 = Inr n"
    and d: "d = - int n \<or> (n \<le> 2 ^ 63 - 1 \<and> d = int n)"
    by (auto simp: parse_duration_def Let_def split: if_splits sum.splits)
  from loop have "n \<le> 2 ^ 63"
    by (rule duration_loop_bound) simp
  then have "int n \<le> 2 ^ 63"
    by simp
  moreover have "n \<le> 2 ^ 63 - 1 \<Longrightarrow> int n \<le> 2 ^ 63 - 1"
    by simp
  ultimately show ?thesis
    using d by auto
qed simp

lemma parse_duration_Nil: "parse_duration [] = Inl (InvalidDuration [])"
  by (simp add: parse_duration_def)

section \<open>Duration.String and RFC 3339 instants\<close>

text \<open>\<open>fmtFrac\<close>: the last \<open>prec\<close> decimals of \<open>v\<close> without trailing zeros, and what is left of \<open>v\<close>.\<close>

definition pad_left :: "nat \<Rightarrow> string \<Rightarrow> string" where
  "pad_left n s = replicate (n - length s) CHR ''0'' @ s"

definition fmt_frac :: "nat \<Rightarrow> nat \<Rightarrow> string \<times> nat" where
  "fmt_frac v prec =
     (let f = rev (dropWhile ((=) CHR ''0'') (rev (pad_left prec (dec (v mod 10 ^ prec)))))
      in (if v mod 10 ^ prec = 0 then [] else CHR ''.'' # f, v div 10 ^ prec))"

definition duration_string :: "duration \<Rightarrow> string" where
  "duration_string d =
     (let u = nat \<bar>d\<bar>;
          small = (\<lambda>prec unit. case fmt_frac u prec of (f, w) \<Rightarrow> dec w @ f @ unit);
          body =
            (if u = 0 then ''0s''
             else if u < 1000 then small 0 ''ns''
             else if u < 1000000 then small 3 [CHR 0xC2, CHR 0xB5, CHR ''s'']
             else if u < 1000000000 then small 6 ''ms''
             else case fmt_frac u 9 of (f, secs) \<Rightarrow>
               let tail = dec (secs mod 60) @ f @ ''s''; mins = secs div 60; hours = mins div 60
               in if mins = 0 then tail
                  else if hours = 0 then dec (mins mod 60) @ ''m'' @ tail
                  else dec hours @ ''h'' @ dec (mins mod 60) @ ''m'' @ tail)
      in if d < 0 then CHR ''-'' # body else body)"

text \<open>The civil date of a day number since 1970-01-01 (proleptic Gregorian calendar).\<close>

definition civil_from_days :: "int \<Rightarrow> int \<times> int \<times> int" where
  "civil_from_days days =
     (let z = days + 719468;
          era = z div 146097;
          doe = z mod 146097;
          yoe = (doe - doe div 1460 + doe div 36524 - doe div 146096) div 365;
          doy = doe - (365 * yoe + yoe div 4 - yoe div 100);
          mp = (5 * doy + 2) div 153;
          day = doy - (153 * mp + 2) div 5 + 1;
          month = (if mp < 10 then mp + 3 else mp - 9)
      in (yoe + era * 400 + (if month \<le> 2 then 1 else 0), month, day))"

definition two_digits :: "int \<Rightarrow> string" where
  "two_digits n = pad_left 2 (fmt_d n)"

text \<open>\<open>t.Format(time.RFC3339)\<close> of a UTC instant: the layout ends in the zone letter \<open>Z\<close>.\<close>

definition format_rfc3339 :: "instant \<Rightarrow> string" where
  "format_rfc3339 t =
     (let secs = t div second; days = secs div 86400; sod = secs mod 86400
      in case civil_from_days days of (y, m, d) \<Rightarrow>
        pad_left 4 (fmt_d y) @ ''-'' @ two_digits m @ ''-'' @ two_digits d @ ''T'' @
        two_digits (sod div 3600) @ '':'' @ two_digits (sod div 60 mod 60) @ '':'' @
        two_digits (sod mod 60) @ ''Z'')"

end
