(* ===== verification/Go_Net.thy ===== *)
theory Go_Net
  imports Go_Strings Go_Errors "HOL-Library.Word"
begin

text \<open>
  The functions of Go's \<open>net\<close> and \<open>fmt\<close> packages the agent uses on addresses:
  \<open>net.SplitHostPort\<close>, \<open>net.ParseIP\<close> (whether it accepts) and \<open>fmt.Sscanf\<close> with \<open>%d\<close>. A Go
  \<open>int\<close> has 64 bits; where the source converts to \<open>uint32\<close> the model uses \<open>32 word\<close>, and
  \<open>uint32_of\<close> wraps as the conversion does.
\<close>

type_synonym uint32 = "32 word"

definition uint32_of :: "int \<Rightarrow> uint32" where
  "uint32_of i = word_of_int i"

lemma uint_uint32_of: "uint (uint32_of i) = i mod 2 ^ 32"
  by (simp add: uint32_of_def uint_word_of_int)

section \<open>SplitHostPort\<close>

definition missing_port :: string where "missing_port = ''missing port in address''"
definition too_many_colons :: string where "too_many_colons = ''too many colons in address''"

definition split_host_port :: "string \<Rightarrow> go_error + (string \<times> string)" where
  "split_host_port hp =
     (let i = last_index_byte hp CHR '':'';
          fail = (\<lambda>why. Inl (AddressError why hp));
          finish = (\<lambda>host j k.
            if CHR ''['' \<in> set (drop j hp) then fail ''unexpected '[' in address''
            else if CHR '']'' \<in> set (drop k hp) then fail ''unexpected ']' in address''
            else Inr (host, drop (nat i + 1) hp))
      in if i < 0 then fail missing_port
         else if hd hp = CHR ''[''
         then let e = index_byte hp CHR '']''
              in if e < 0 then fail ''missing ']' in address''
                 else if e + 1 = int (length hp) then fail missing_port
                 else if e + 1 = i then finish (take (nat e - 1) (tl hp)) 1 (nat e + 1)
                 else if hp ! (nat e + 1) = CHR '':'' then fail too_many_colons
                 else fail missing_port
         else if CHR '':'' \<in> set (take (nat i) hp) then fail too_many_colons
         else finish (take (nat i) hp) 0 0)"

text \<open>A host with no colon or bracket, a colon and a port with none: the shape of every IPv4 address.\<close>

definition plain_host :: "string \<Rightarrow> bool" where
  "plain_host h \<longleftrightarrow> CHR '':'' \<notin> set h \<and> CHR ''['' \<notin> set h \<and> CHR '']'' \<notin> set h"

lemma split_host_port_plain:
  assumes "plain_host h" "plain_host p"
  shows "split_host_port (h @ CHR '':'' # p) = Inr (h, p)"
proof -
  let ?hp = "h @ CHR '':'' # p"
  have i: "last_index_byte ?hp CHR '':'' = int (length h)"
    using assms by (simp add: last_index_byte_append plain_host_def)
  have "hd ?hp \<noteq> CHR ''[''"
    using assms(1) by (cases h) (auto simp: plain_host_def)
  with assms show ?thesis
    by (simp add: split_host_port_def i plain_host_def Let_def)
qed

lemma split_host_port_no_colon:
  "CHR '':'' \<notin> set hp \<Longrightarrow> split_host_port hp = Inl (AddressError missing_port hp)"
  by (simp add: split_host_port_def last_index_byte_def)

section \<open>ParseIP\<close>

text \<open>
  \<open>parseIPv4Fields\<close>: the state of the loop is the previous byte, the number of completed
  octets, the value and the digits of the current one; the result is whether it accepts.
\<close>

fun ipv4_fields :: "char option \<Rightarrow> nat \<Rightarrow> nat \<Rightarrow> nat \<Rightarrow> string \<Rightarrow> bool" where
  "ipv4_fields prev pos val len [] = (pos = 3)"
| "ipv4_fields prev pos val len (c # s) =
     (if is_digit c
      then \<not> (len = 1 \<and> val = 0) \<and> 10 * val + digit_value c \<le> 255 \<and>
           ipv4_fields (Some c) pos (10 * val + digit_value c) (len + 1) s
      else c = CHR ''.'' \<and> prev \<noteq> None \<and> s \<noteq> [] \<and> prev \<noteq> Some CHR ''.'' \<and> pos \<noteq> 3 \<and>
           ipv4_fields (Some c) (pos + 1) 0 0 s)"

definition hex_digit :: "char \<Rightarrow> bool" where
  "hex_digit c \<longleftrightarrow> is_digit c \<or> c \<in> set ''abcdefABCDEF''"

text \<open>
  The loop of \<open>parseIPv6\<close>: \<open>i\<close> bytes of the address are filled, \<open>ell\<close> says whether an ellipsis
  was seen. A group has at most four hexadecimal digits, so it never exceeds 16 bits. The
  result is the number of bytes filled, the ellipsis and the rest, or \<open>None\<close> for an error.
\<close>

function ipv6_groups :: "nat \<Rightarrow> bool \<Rightarrow> string \<Rightarrow> (nat \<times> bool \<times> string) option" where
  "ipv6_groups i ell s =
     (if 16 \<le> i then Some (i, ell, s)
      else let h = takeWhile hex_digit s; r = dropWhile hex_digit s
      in if h = [] \<or> 4 < length h then None
         else if r \<noteq> [] \<and> hd r = CHR ''.''
         then (if \<not> ell \<and> i \<noteq> 12 \<or> 16 < i + 4 \<or> \<not> ipv4_fields None 0 0 0 s then None
               else Some (i + 4, ell, []))
         else if r = [] then Some (i + 2, ell, [])
         else if hd r \<noteq> CHR '':'' \<or> tl r = [] then None
         else if hd (tl r) = CHR '':''
         then (if ell then None
               else if tl (tl r) = [] then Some (i + 2, True, [])
               else ipv6_groups (i + 2) True (tl (tl r)))
         else ipv6_groups (i + 2) ell (tl r))"
  by pat_completeness auto
termination
  by (relation "measure (\<lambda>(i, ell, s). 16 - i)") auto

declare ipv6_groups.simps [simp del]

text \<open>\<open>parseIPv6\<close> of a string with no zone: a zone makes \<open>ParseIP\<close> reject in any case.\<close>

definition ipv6_valid :: "string \<Rightarrow> bool" where
  "ipv6_valid s =
     (CHR ''%'' \<notin> set s \<and>
      (if prefix ''::'' s \<and> drop 2 s = [] then True
       else case ipv6_groups 0 (prefix ''::'' s) (if prefix ''::'' s then drop 2 s else s) of
         None \<Rightarrow> False
       | Some (i, ell, r) \<Rightarrow> r = [] \<and> (if i < 16 then ell else \<not> ell)))"

text \<open>\<open>net.ParseIP(s) != nil\<close>: the first of the bytes \<open>.\<close>, \<open>:\<close> and \<open>%\<close> decides the family.\<close>

definition parse_ip :: "string \<Rightarrow> bool" where
  "parse_ip s =
     (case find (\<lambda>c. c \<in> set ''.:%'') s of
        None \<Rightarrow> False
      | Some c \<Rightarrow> if c = CHR ''.'' then ipv4_fields None 0 0 0 s
                  else if c = CHR '':'' then ipv6_valid s else False)"

section \<open>Sscanf with the verb d\<close>

text \<open>
  Leading space is skipped (a newline is an error), then an optional sign and at least one digit
  are read; text after the digits is ignored. A value outside 64 bits is an error. \<open>None\<close> is
  an error, and the variable passed to \<open>Sscanf\<close> then keeps its value.
\<close>

function skip_space :: "string \<Rightarrow> string option" where
  "skip_space s =
     (case leading space_runes s of
        None \<Rightarrow> Some s
      | Some w \<Rightarrow> if w = [CHR 0x0A] then None else skip_space (drop (length w) s))"
  by pat_completeness auto
termination
  by (relation "measure length") (auto dest!: leading_Some simp: prefix_def)

declare skip_space.simps [simp del]

definition scan_d :: "string \<Rightarrow> int option" where
  "scan_d raw =
     (case skip_space raw of
        None \<Rightarrow> None
      | Some s \<Rightarrow>
          let signed = (s \<noteq> [] \<and> (hd s = CHR ''-'' \<or> hd s = CHR ''+''));
              ds = takeWhile is_digit (if signed then tl s else s);
              n = int (digits_value ds);
              v = (if signed \<and> hd s = CHR ''-'' then - n else n)
          in if ds = [] \<or> v < - (2 ^ 63) \<or> 2 ^ 63 \<le> v then None else Some v)"

lemma scan_d_bounds: "scan_d s = Some v \<Longrightarrow> - (2 ^ 63) \<le> v \<and> v < 2 ^ 63"
  by (auto simp: scan_d_def Let_def split: option.splits if_splits)

lemma skip_space_graphic: "(s \<noteq> [] \<longrightarrow> graphic (hd s)) \<Longrightarrow> skip_space s = Some s"
  by (simp add: skip_space.simps leading_graphic)

text \<open>What \<open>%d\<close> printed, \<open>%d\<close> reads back.\<close>

lemma scan_d_fmt_d:
  assumes "0 \<le> i" "i < 2 ^ 63"
  shows "scan_d (fmt_d i) = Some i"
proof -
  have hd: "is_digit (hd (dec (nat i)))"
    using dec_digits [of "hd (dec (nat i))" "nat i"] by simp
  then have "skip_space (dec (nat i)) = Some (dec (nat i))"
    by (intro skip_space_graphic) (simp add: is_digit_graphic)
  moreover have tw: "takeWhile is_digit (dec (nat i)) = dec (nat i)"
    by (simp add: takeWhile_eq_all_conv dec_digits)
  moreover have "hd (dec (nat i)) \<noteq> CHR ''-'' \<and> hd (dec (nat i)) \<noteq> CHR ''+''"
    using hd by (auto simp: is_digit_def)
  ultimately show ?thesis
    using assms by (simp add: scan_d_def fmt_d_def digits_value_dec tw Let_def
        del: takeWhile_eq_all_conv)
qed

end
