(* ===== verification/Service_Model.thy ===== *)
theory Service_Model
  imports Go_Time Go_Net
begin

text \<open>
  The package \<open>model\<close> (\<open>src/model/types.go\<close>): the request, route document and instance types,
  their validation, and the two string functions \<open>UniqueSortedStrings\<close> and
  \<open>ExtractRoutePrefixes\<close> that make route documents canonical. Record fields carry a prefix for
  their struct (\<open>rr_\<close> for \<open>RegisterRequest\<close> and so on). A Go \<open>int\<close> is an \<open>int\<close>: the package only
  compares and prints them.
\<close>

section \<open>Data\<close>

datatype service_state = StateInit | StateRegistered | StateServing | StateDraining | StateDeregistered

record kernel_info =
  k_language :: string
  k_version :: string

record register_request =
  rr_app_id :: string
  rr_app_name :: string
  rr_name :: string
  rr_namespace :: string
  rr_port :: int
  rr_dns :: string
  rr_env :: string
  rr_weight :: int
  rr_protocol :: string
  rr_kernel :: kernel_info
  rr_methods :: "string list"
  rr_version :: string

record drain_request =
  dr_name :: string
  dr_port :: int
  dr_grace_period_raw :: string

record deregister_request =
  de_name :: string
  de_port :: int

record route_document =
  rd_service :: string
  rd_version :: string
  rd_updated_at :: instant
  rd_namespace :: string
  rd_port :: int
  rd_protocol :: string
  rd_prefixes :: "string list"
  rd_exact_paths :: "string list"

record local_service =
  ls_request :: register_request
  ls_instance_id :: string
  ls_agent_id :: string
  ls_agent_run_id :: string
  ls_address :: string
  ls_zone :: string
  ls_route_prefixes :: "string list"
  ls_route_config_ref :: string
  ls_lease_check_id :: string
  ls_state :: service_state
  ls_registered_at :: instant
  ls_updated_at :: instant
  ls_drain_deadline :: "instant option"

record service_instance =
  si_instance_id :: string
  si_name :: string
  si_namespace :: string
  si_dns :: string
  si_env :: string
  si_zone :: string
  si_version :: string
  si_protocol :: string
  si_address :: string
  si_port :: int
  si_weight :: int
  si_cluster :: string
  si_route_config_ref :: string
  si_route_prefixes :: "string list"

text \<open>The life of an instance, in the order the constants are declared in.\<close>

instantiation service_state :: linorder
begin

fun rank_service_state :: "service_state \<Rightarrow> nat" where
  "rank_service_state StateInit = 0"
| "rank_service_state StateRegistered = 1"
| "rank_service_state StateServing = 2"
| "rank_service_state StateDraining = 3"
| "rank_service_state StateDeregistered = 4"

definition less_eq_service_state :: "service_state \<Rightarrow> service_state \<Rightarrow> bool" where
  "less_eq_service_state s t \<longleftrightarrow> rank_service_state s \<le> rank_service_state t"

definition less_service_state :: "service_state \<Rightarrow> service_state \<Rightarrow> bool" where
  "less_service_state s t \<longleftrightarrow> rank_service_state s < rank_service_state t"

instance
proof
  fix s t :: service_state
  show "s \<le> t \<Longrightarrow> t \<le> s \<Longrightarrow> s = t"
    by (cases s; cases t) (simp_all add: less_eq_service_state_def)
qed (auto simp: less_eq_service_state_def less_service_state_def)

end

section \<open>Route prefixes\<close>

text \<open>
  \<open>UniqueSortedStrings\<close>: trim, drop the empty ones, deduplicate through a map, sort. The map's
  order does not matter, since the values of a map are different and their sorted form is unique.
\<close>

definition trimmed_values :: "string list \<Rightarrow> string list" where
  "trimmed_values values = filter (\<lambda>v. v \<noteq> []) (map trim_space values)"

definition unique_sorted_strings :: "string list \<Rightarrow> string list" where
  "unique_sorted_strings values = sort (remdups (trimmed_values values))"

text \<open>\<open>ExtractRoutePrefixes\<close>: of each path \<open>/a.b.Service/Method\<close> the part up to the last slash.\<close>

definition route_prefix :: "string \<Rightarrow> string option" where
  "route_prefix m =
     (let trimmed = trim_space m; index = last_index_byte trimmed CHR ''/''
      in if \<not> has_prefix trimmed ''/'' then None
         else if index \<le> 0 then None
         else Some (take (nat index + 1) trimmed))"

definition extract_route_prefixes :: "string list \<Rightarrow> string list" where
  "extract_route_prefixes methods = unique_sorted_strings (List.map_filter route_prefix methods)"

lemma unique_sorted_any_order:
  assumes "distinct ys" "set ys = set (trimmed_values values)"
  shows "sort ys = unique_sorted_strings values"
proof -
  have "mset ys = mset (remdups (trimmed_values values))"
    using assms by (simp add: set_eq_iff_mset_eq_distinct [symmetric])
  then show ?thesis
    unfolding unique_sorted_strings_def using assms(1) by (intro sort_key_perm_eq) simp_all
qed

lemma set_unique_sorted [simp]:
  "set (unique_sorted_strings values) = {t. t \<noteq> [] \<and> (\<exists>v \<in> set values. t = trim_space v)}"
  by (auto simp: unique_sorted_strings_def trimmed_values_def)

lemma distinct_unique_sorted [simp]: "distinct (unique_sorted_strings values)"
  by (simp add: unique_sorted_strings_def)

lemma sorted_unique_sorted [simp]: "sorted (unique_sorted_strings values)"
  by (simp add: unique_sorted_strings_def)

lemma unique_sorted_eq_iff:
  "unique_sorted_strings xs = unique_sorted_strings ys \<longleftrightarrow>
     set (unique_sorted_strings xs) = set (unique_sorted_strings ys)"
  by (metis sorted_distinct_set_unique distinct_unique_sorted sorted_unique_sorted)

lemma unique_sorted_fixed:
  assumes "sorted xs" "distinct xs" "\<forall>x \<in> set xs. x \<noteq> [] \<and> trim_space x = x"
  shows "unique_sorted_strings xs = xs"
proof -
  have "set (unique_sorted_strings xs) = set xs"
    using assms(3) by auto
  then show ?thesis
    using assms(1,2) by (metis sorted_distinct_set_unique distinct_unique_sorted sorted_unique_sorted)
qed

lemma unique_sorted_idem [simp]:
  "unique_sorted_strings (unique_sorted_strings xs) = unique_sorted_strings xs"
  by (rule unique_sorted_fixed) auto

lemma route_prefix_Some:
  assumes "route_prefix m = Some p"
  shows "\<exists>rest. trim_space m = p @ rest \<and> CHR ''/'' \<notin> set rest \<and>
    hd p = CHR ''/'' \<and> last p = CHR ''/'' \<and> 2 \<le> length p"
proof -
  let ?t = "trim_space m"
  have pre: "prefix ''/'' ?t" and idx: "last_index_byte ?t CHR ''/'' > 0"
    and p: "p = take (nat (last_index_byte ?t CHR ''/'') + 1) ?t"
    using assms by (auto simp: route_prefix_def has_prefix_def Let_def split: if_splits)
  from idx have "CHR ''/'' \<in> set ?t"
    by (auto simp: last_index_byte_def split: if_splits)
  then obtain a b where t: "?t = a @ CHR ''/'' # b" and b: "CHR ''/'' \<notin> set b"
    by (blast dest: split_list_last)
  have "last_index_byte ?t CHR ''/'' = int (length a)"
    by (simp add: t b last_index_byte_append)
  with idx p have "p = a @ ''/''" "a \<noteq> []"
    by (auto simp: t)
  with pre t b show ?thesis
    by (cases a) auto
qed

section \<open>Validation\<close>

text \<open>
  The required fields sit in a Go map, so which missing field an error names depends on the
  iteration order \<open>ord\<close>; whether there is an error does not.
\<close>

fun first_blank :: "(string \<times> string) list \<Rightarrow> go_error option" where
  "first_blank [] = None"
| "first_blank ((field, value) # rest) =
     (if trim_space value = [] then Some (FieldRequired field) else first_blank rest)"

lemma first_blank_None: "first_blank fs = None \<longleftrightarrow> (\<forall>(f, v) \<in> set fs. trim_space v \<noteq> [])"
  by (induction fs rule: first_blank.induct) auto

lemma first_blank_Some:
  "first_blank fs = Some e \<Longrightarrow> \<exists>f v. (f, v) \<in> set fs \<and> trim_space v = [] \<and> e = FieldRequired f"
  by (induction fs rule: first_blank.induct) (auto split: if_splits)

definition register_required :: "register_request \<Rightarrow> (string \<times> string) list" where
  "register_required r =
     [(''app_id'', rr_app_id r), (''app_name'', rr_app_name r), (''name'', rr_name r),
      (''namespace'', rr_namespace r), (''dns'', rr_dns r), (''env'', rr_env r),
      (''protocol'', rr_protocol r), (''version'', rr_version r),
      (''kernel.language'', k_language (rr_kernel r)), (''kernel.version'', k_version (rr_kernel r))]"

fun first_bad_method :: "string list \<Rightarrow> go_error option" where
  "first_bad_method [] = None"
| "first_bad_method (m # ms) =
     (if \<not> has_prefix (trim_space m) ''/'' then Some (MethodInvalid m) else first_bad_method ms)"

lemma first_bad_method_None:
  "first_bad_method ms = None \<longleftrightarrow> (\<forall>m \<in> set ms. has_prefix (trim_space m) ''/'')"
  by (induction ms rule: first_bad_method.induct) auto

definition port_invalid :: "int \<Rightarrow> bool" where
  "port_invalid p \<longleftrightarrow> p \<le> 0 \<or> p > 65535"

definition validate_register ::
    "((string \<times> string) list \<Rightarrow> (string \<times> string) list) \<Rightarrow> register_request \<Rightarrow> go_error option" where
  "validate_register ord r =
     (case first_blank (ord (register_required r)) of
        Some e \<Rightarrow> Some e
      | None \<Rightarrow>
          if port_invalid (rr_port r) then Some (PortInvalid (rr_port r))
          else if rr_weight r \<le> 0 then Some WeightNotPositive
          else if rr_methods r = [] then Some MethodsEmpty
          else first_bad_method (rr_methods r))"

text \<open>What a valid registration is, without the order in which the code looks.\<close>

definition valid_register :: "register_request \<Rightarrow> bool" where
  "valid_register r \<longleftrightarrow>
     (\<forall>(f, v) \<in> set (register_required r). trim_space v \<noteq> []) \<and>
     0 < rr_port r \<and> rr_port r \<le> 65535 \<and> 0 < rr_weight r \<and>
     rr_methods r \<noteq> [] \<and> (\<forall>m \<in> set (rr_methods r). has_prefix (trim_space m) ''/'')"

lemma validate_register_iff:
  "permutes_lists ord \<Longrightarrow> validate_register ord r = None \<longleftrightarrow> valid_register r"
  by (auto simp: validate_register_def valid_register_def port_invalid_def first_blank_None
      first_bad_method_None permutes_set split: option.splits dest!: first_blank_Some)

definition grace_period :: "drain_request \<Rightarrow> go_error + duration" where
  "grace_period r =
     (if trim_space (dr_grace_period_raw r) = [] then Inr (20 * second)
      else case parse_duration (trim_space (dr_grace_period_raw r)) of
        Inl e \<Rightarrow> Inl e
      | Inr v \<Rightarrow> if v \<le> 0 then Inl GraceNotPositive else Inr v)"

lemma grace_period_positive: "grace_period r = Inr d \<Longrightarrow> 0 < d \<and> d < 2 ^ 63"
  using parse_duration_bounds
  by (auto simp: grace_period_def second_def split: if_splits sum.splits)

definition validate_drain :: "drain_request \<Rightarrow> go_error option" where
  "validate_drain r =
     (if trim_space (dr_name r) = [] then Some (FieldRequired ''name'')
      else if port_invalid (dr_port r) then Some (PortInvalid (dr_port r))
      else case grace_period r of Inl e \<Rightarrow> Some e | Inr _ \<Rightarrow> None)"

definition validate_deregister :: "deregister_request \<Rightarrow> go_error option" where
  "validate_deregister r =
     (if trim_space (de_name r) = [] then Some (FieldRequired ''name'')
      else if port_invalid (de_port r) then Some (PortInvalid (de_port r))
      else None)"

section \<open>Route documents\<close>

definition canonicalize :: "route_document \<Rightarrow> route_document" where
  "canonicalize d =
     d\<lparr>rd_prefixes := unique_sorted_strings (rd_prefixes d),
       rd_exact_paths := unique_sorted_strings (rd_exact_paths d)\<rparr>"

definition route_equal :: "route_document \<Rightarrow> route_document \<Rightarrow> bool" where
  "route_equal d other =
     (let left = canonicalize d; right = canonicalize other
      in rd_service left = rd_service right \<and> rd_version left = rd_version right \<and>
         rd_namespace left = rd_namespace right \<and> rd_port left = rd_port right \<and>
         rd_protocol left = rd_protocol right \<and> rd_prefixes left = rd_prefixes right \<and>
         rd_exact_paths left = rd_exact_paths right)"

lemma canonicalize_idem [simp]: "canonicalize (canonicalize d) = canonicalize d"
  by (simp add: canonicalize_def)

lemma route_equal_canonical:
  "route_equal d e \<longleftrightarrow> (canonicalize d)\<lparr>rd_updated_at := t\<rparr> = (canonicalize e)\<lparr>rd_updated_at := t\<rparr>"
  by (cases d; cases e) (auto simp: route_equal_def canonicalize_def Let_def)

lemma route_equal_refl [simp]: "route_equal d d"
  and route_equal_sym: "route_equal d e \<Longrightarrow> route_equal e d"
  and route_equal_trans: "route_equal d e \<Longrightarrow> route_equal e f \<Longrightarrow> route_equal d f"
  by (auto simp: route_equal_def Let_def)

lemma route_equal_canonicalize [simp]: "route_equal (canonicalize d) e = route_equal d e"
  by (simp add: route_equal_def)

end
