(* ===== verification/Model_Properties.thy ===== *)
theory Model_Properties
  imports Instance_Id Service_Model
begin

text \<open>
  The properties of the package \<open>model\<close> and of the instance ids: what the canonical string lists
  contain, when requests are valid, that route documents compare by meaning, and how an id is laid
  out and ordered.
\<close>

section \<open>Canonical string lists\<close>

text \<open>
  \<open>UniqueSortedStrings\<close> returns the one sorted list without repetitions that holds exactly the
  non-empty trimmed input strings, whatever order the runtime ranges over its map in.
\<close>

theorem unique_sorted_strings_characterized:
  "unique_sorted_strings values = out \<longleftrightarrow>
     sorted out \<and> distinct out \<and> set out = {t. t \<noteq> [] \<and> (\<exists>v \<in> set values. t = trim_space v)}"
proof
  assume "sorted out \<and> distinct out \<and> set out = {t. t \<noteq> [] \<and> (\<exists>v \<in> set values. t = trim_space v)}"
  then have "set out = set (unique_sorted_strings values)" "sorted out" "distinct out"
    by simp_all
  then show "unique_sorted_strings values = out"
    by (metis sorted_distinct_set_unique distinct_unique_sorted sorted_unique_sorted)
qed auto

lemma slash_graphic: "graphic CHR ''/''"
  by (simp add: graphic_def)

lemma route_prefix_fixed: "route_prefix m = Some p \<Longrightarrow> trim_space p = p"
  using route_prefix_Some [of m p] slash_graphic by (auto intro: trim_space_trimmed simp: trimmed_def)

lemma route_prefix_complete:
  assumes "trim_space m = p @ rest" "CHR ''/'' \<notin> set rest" "hd p = CHR ''/''" "last p = CHR ''/''" "2 \<le> length p"
  shows "route_prefix m = Some p"
proof -
  obtain a where p: "p = a @ [CHR ''/'']"
    using assms(4,5) by (metis append_butlast_last_id list.size(3) not_numeral_le_zero)
  with assms(5) have a: "a \<noteq> []" by auto
  have "last_index_byte (trim_space m) CHR ''/'' = int (length a)"
    using assms(2) by (simp add: assms(1) p last_index_byte_append)
  moreover have "has_prefix (trim_space m) ''/''"
    using a assms(3) by (cases a) (auto simp: has_prefix_def assms(1) p)
  ultimately show ?thesis
    using a by (simp add: route_prefix_def Let_def assms(1) p)
qed

lemma route_prefix_iff:
  "route_prefix m = Some p \<longleftrightarrow> (\<exists>rest. trim_space m = p @ rest \<and> CHR ''/'' \<notin> set rest \<and>
     hd p = CHR ''/'' \<and> last p = CHR ''/'' \<and> 2 \<le> length p)"
  using route_prefix_Some route_prefix_complete by blast

text \<open>
  The route prefixes of a method list are, sorted and without repetitions, exactly the strings
  \<open>p\<close> that start and end with a slash (two different ones) such that some method, trimmed, is
  \<open>p\<close> followed by a part with no slash.
\<close>

theorem extract_route_prefixes_characterized:
  "sorted (extract_route_prefixes methods) \<and> distinct (extract_route_prefixes methods) \<and>
   set (extract_route_prefixes methods) =
     {p. \<exists>m \<in> set methods. \<exists>rest. trim_space m = p @ rest \<and> CHR ''/'' \<notin> set rest \<and>
        hd p = CHR ''/'' \<and> last p = CHR ''/'' \<and> 2 \<le> length p}"
proof -
  have "set (extract_route_prefixes methods) = {p. \<exists>m \<in> set methods. route_prefix m = Some p}"
  proof (intro set_eqI iffI)
    fix p assume "p \<in> set (extract_route_prefixes methods)"
    then show "p \<in> {p. \<exists>m \<in> set methods. route_prefix m = Some p}"
      using route_prefix_fixed by (auto simp: extract_route_prefixes_def map_filter_def)
  next
    fix p assume "p \<in> {p. \<exists>m \<in> set methods. route_prefix m = Some p}"
    then obtain m where m: "m \<in> set methods" "route_prefix m = Some p" by blast
    then have "p \<noteq> [] \<and> trim_space p = p"
      using route_prefix_fixed [OF m(2)] route_prefix_Some [OF m(2)] by auto
    moreover have "p \<in> set (List.map_filter route_prefix methods)"
      using m by (force simp: map_filter_def)
    ultimately show "p \<in> set (extract_route_prefixes methods)"
      unfolding extract_route_prefixes_def by force
  qed
  then show ?thesis
    by (simp add: extract_route_prefixes_def route_prefix_iff)
qed

section \<open>Requests\<close>

text \<open>
  \<open>RegisterRequest.Validate\<close> accepts exactly the requests with no blank required field, a port
  of 1 to 65535, a positive weight and at least one method, all methods starting with a slash,
  although it ranges over a map whose order the runtime chooses; and an error about a missing
  field names one that is really blank.
\<close>

theorem validate_register_decides:
  assumes "permutes_lists ord"
  shows "(validate_register ord r = None \<longleftrightarrow>
      (\<forall>(f, v) \<in> set (register_required r). trim_space v \<noteq> []) \<and>
      0 < rr_port r \<and> rr_port r \<le> 65535 \<and> 0 < rr_weight r \<and>
      rr_methods r \<noteq> [] \<and> (\<forall>m \<in> set (rr_methods r). has_prefix (trim_space m) ''/'')) \<and>
    (\<forall>f. validate_register ord r = Some (FieldRequired f) \<longrightarrow>
      (\<exists>v. (f, v) \<in> set (register_required r) \<and> trim_space v = []))"
proof -
  have "first_bad_method ms \<noteq> Some (FieldRequired f)" for ms f
    by (induction ms) auto
  then have "\<exists>v. (f, v) \<in> set (register_required r) \<and> trim_space v = []"
    if "validate_register ord r = Some (FieldRequired f)" for f
    using that permutes_set [OF assms]
    by (auto simp: validate_register_def split: option.splits if_splits dest!: first_blank_Some)
  then show ?thesis
    using validate_register_iff [OF assms, of r] by (simp add: valid_register_def)
qed

definition blank_request :: register_request where
  "blank_request =
     \<lparr>rr_app_id = '' '', rr_app_name = ''a'', rr_name = ''auth'', rr_namespace = ''default'',
      rr_port = 9090, rr_dns = ''d'', rr_env = ''prod'', rr_weight = 100, rr_protocol = ''grpc'',
      rr_kernel = \<lparr>k_language = ''go'', k_version = ''v1''\<rparr>, rr_methods = [''/a.B/C''], rr_version = ''v1''\<rparr>"

theorem validate_register_decides_witness: "validate_register rev blank_request \<noteq> None"
proof -
  have "trim_space '' '' = []"
    by (simp add: trim_space_def trim_left_def trim_right_def trim_with.simps leading_def space_runes_def)
  then have "\<not> (\<forall>(f, v) \<in> set (register_required blank_request). trim_space v \<noteq> [])"
    by (simp add: register_required_def blank_request_def)
  then show ?thesis
    using validate_register_decides [OF permutes_rev, of blank_request] by blast
qed

text \<open>
  A drain request that validates has a positive grace period below 2^63 ns; and a grace period
  is refused exactly when it is given and does not parse to a positive duration.
\<close>

theorem drain_grace_bounds:
  "(validate_drain r = None \<longrightarrow> (\<exists>d. grace_period r = Inr d \<and> 0 < d \<and> d < 2 ^ 63)) \<and>
   (is_ok (grace_period r) \<longleftrightarrow> trim_space (dr_grace_period_raw r) = [] \<or>
      (\<exists>d > 0. parse_duration (trim_space (dr_grace_period_raw r)) = Inr d))"
proof
  show "validate_drain r = None \<longrightarrow> (\<exists>d. grace_period r = Inr d \<and> 0 < d \<and> d < 2 ^ 63)"
    using grace_period_positive by (auto simp: validate_drain_def split: if_splits sum.splits)
  show "is_ok (grace_period r) \<longleftrightarrow> trim_space (dr_grace_period_raw r) = [] \<or>
      (\<exists>d > 0. parse_duration (trim_space (dr_grace_period_raw r)) = Inr d)"
    by (auto simp: grace_period_def split: sum.split)
qed

definition demo_drain :: drain_request where
  "demo_drain = \<lparr>dr_name = ''auth'', dr_port = 9090, dr_grace_period_raw = []\<rparr>"

theorem drain_grace_bounds_witness: "\<exists>d. grace_period demo_drain = Inr d \<and> 0 < d \<and> d < 2 ^ 63"
proof -
  have "trim_space ''auth'' = ''auth''"
    by (rule trim_space_trimmed) (simp add: trimmed_def graphic_def)
  then have "validate_drain demo_drain = None"
    by (simp add: validate_drain_def demo_drain_def port_invalid_def grace_period_def)
  then show ?thesis
    using drain_grace_bounds [of demo_drain] by blast
qed

section \<open>Route documents\<close>

text \<open>
  Two route documents are equal exactly when service, version, namespace, port and protocol
  agree and both path lists hold the same non-empty trimmed strings: order, repetitions, white
  space around a path and the time of the update do not matter.
\<close>

theorem route_equal_means:
  "route_equal d e \<longleftrightarrow>
     rd_service d = rd_service e \<and> rd_version d = rd_version e \<and> rd_namespace d = rd_namespace e \<and>
     rd_port d = rd_port e \<and> rd_protocol d = rd_protocol e \<and>
     trim_space ` set (rd_prefixes d) - {[]} = trim_space ` set (rd_prefixes e) - {[]} \<and>
     trim_space ` set (rd_exact_paths d) - {[]} = trim_space ` set (rd_exact_paths e) - {[]}"
proof -
  have "unique_sorted_strings xs = unique_sorted_strings ys \<longleftrightarrow>
      trim_space ` set xs - {[]} = trim_space ` set ys - {[]}" for xs ys
  proof -
    have "set (unique_sorted_strings zs) = trim_space ` set zs - {[]}" for zs
      by (auto simp: image_iff)
    then show ?thesis
      by (simp only: unique_sorted_eq_iff)
  qed
  then show ?thesis
    by (simp add: route_equal_def canonicalize_def Let_def)
qed

section \<open>Instance ids\<close>

lemma hex_digits:
  "hex_char 7 = CHR ''7''" "hex_char 8 = CHR ''8''" "hex_char 9 = CHR ''9''" "hex_char 10 = CHR ''a''"
  "hex_char 11 = CHR ''b''"
  by code_simp+

definition lower_hex :: "char \<Rightarrow> bool" where
  "lower_hex c \<longleftrightarrow> c \<in> set ''0123456789abcdef''"

lemma hex_char_lower: "n < 16 \<Longrightarrow> lower_hex (hex_char n)"
proof -
  assume "n < 16"
  then have "n \<in> set [0..<16]" by simp
  moreover have "list_all (\<lambda>n. lower_hex (hex_char n)) [0..<16]"
    by code_simp
  ultimately show ?thesis
    unfolding list_all_iff by blast
qed

lemma hex_byte_lower: "list_all lower_hex (hex_byte b)"
  by (simp add: hex_byte_def hex_char_lower byte_nibbles)

lemma encode_hex_lower: "list_all lower_hex (encode_hex bs)"
  by (induction bs) (simp_all add: encode_hex_def hex_byte_lower)

lemma length_encode_hex: "length (encode_hex bs) = 2 * length bs"
  by (induction bs) (simp_all add: encode_hex_def hex_byte_def)

lemma variant_digit: "n div 4 = 2 \<Longrightarrow> hex_char n \<in> {CHR ''8'', CHR ''9'', CHR ''a'', CHR ''b''}"
proof -
  assume "n div 4 = 2"
  then have "n \<in> {8, 9, 10, 11}" by auto
  then show ?thesis by (auto simp: hex_digits)
qed

text \<open>
  An instance id has the layout of a version 7 UUID: five groups of 8, 4, 4, 4 and 12 lower-case
  hexadecimal digits with dashes between, the third group beginning with the version digit 7 and
  the fourth with one of 8, 9, a, b.
\<close>

theorem instance_id_layout:
  "\<exists>a b c d e. instance_id buffer millis = a @ ''-'' @ b @ ''-7'' @ c @ ''-'' @ d @ ''-'' @ e \<and>
     map length [a, b, c, d, e] = [8, 4, 3, 4, 12] \<and>
     list_all lower_hex (a @ b @ c @ d @ e) \<and> hd d \<in> set ''89ab''"
proof -
  let ?bs = "uuid_bytes buffer millis"
  let ?b6 = "(buffer 6 AND 0x0f) OR 0x70" and ?b8 = "(buffer 8 AND 0x3f) OR 0x80"
  have "unat ?b8 div 16 div 4 = 2"
    using variant_nibble [of "buffer 8"] by (simp add: div_mult2_eq [symmetric])
  then have v: "hex_char (unat ?b8 div 16) \<in> set ''89ab''"
    using variant_digit by simp
  have seven: "encode_hex (take 2 (drop 6 ?bs)) = CHR ''7'' # hex_char (unat ?b6 mod 16) # hex_byte (buffer 7)"
    by (simp add: uuid_bytes_def encode_hex_def hex_byte_def version_nibble hex_digits)
  have eight: "encode_hex (take 2 (drop 8 ?bs)) =
      hex_char (unat ?b8 div 16) # hex_char (unat ?b8 mod 16) # hex_byte (buffer 9)"
    by (simp add: uuid_bytes_def encode_hex_def hex_byte_def)
  have len: "length (take 4 ?bs) = 4" "length (take 2 (drop 4 ?bs)) = 2" "length (take 6 (drop 10 ?bs)) = 6"
    by (simp_all add: uuid_bytes_def)
  show ?thesis
  proof (intro exI conjI)
    show "instance_id buffer millis = encode_hex (take 4 ?bs) @ ''-'' @ encode_hex (take 2 (drop 4 ?bs)) @
        ''-7'' @ (hex_char (unat ?b6 mod 16) # hex_byte (buffer 7)) @ ''-'' @
        (hex_char (unat ?b8 div 16) # hex_char (unat ?b8 mod 16) # hex_byte (buffer 9)) @ ''-'' @
        encode_hex (take 6 (drop 10 ?bs))"
      unfolding instance_id_parts seven eight by simp
    show "map length [encode_hex (take 4 ?bs), encode_hex (take 2 (drop 4 ?bs)),
        hex_char (unat ?b6 mod 16) # hex_byte (buffer 7),
        hex_char (unat ?b8 div 16) # hex_char (unat ?b8 mod 16) # hex_byte (buffer 9),
        encode_hex (take 6 (drop 10 ?bs))] = [8, 4, 3, 4, 12]"
      by (simp add: length_encode_hex len del: take_drop length_take length_drop) (simp add: hex_byte_def)
  qed (use v in \<open>simp_all add: hex_char_lower encode_hex_lower hex_byte_lower byte_nibbles\<close>)
qed

text \<open>
  Ids made at different milliseconds (before the year 10889) are different and sort in the order
  they were made, whatever the random bytes were.
\<close>

theorem instance_ids_ordered_by_time:
  assumes "sorted_wrt (<) (map snd makings)" "\<forall>(buffer, millis) \<in> set makings. millis < 2 ^ 48"
  shows "sorted_wrt (<) (map (\<lambda>(buffer, millis). instance_id buffer millis) makings)"
  using assms
proof (induction makings)
  case (Cons m ms)
  have "instance_id (fst m) (snd m) < instance_id (fst n) (snd n)" if "n \<in> set ms" for n
    using that Cons.prems by (intro instance_id_time_order) auto
  with Cons show ?case
    by (auto simp: case_prod_beta)
qed simp

theorem instance_ids_ordered_by_time_witness:
  "instance_id (\<lambda>i. 255) 1700000000000 < instance_id (\<lambda>i. 0) 1700000000001"
  using instance_ids_ordered_by_time [of "[(\<lambda>i. 255, 1700000000000), (\<lambda>i. 0, 1700000000001)]"]
  by (simp add: word_less_nat_alt)

end
