(* ===== verification/Go_Path.thy ===== *)
theory Go_Path
  imports Go_Strings
begin

text \<open>
  The functions of Go's \<open>path/filepath\<close> package that \<open>config.Load\<close> uses, on a Unix system:
  \<open>IsAbs\<close>, \<open>Clean\<close>, \<open>Dir\<close> and \<open>Join\<close>. \<open>Clean\<close> is computed on the list of path elements; the
  library's in-place buffer is not modelled. The lemmas show that absolute paths stay absolute.
\<close>

definition is_abs :: "string \<Rightarrow> bool" where
  "is_abs p \<longleftrightarrow> has_prefix p ''/''"

text \<open>
  The elements kept so far, innermost first: a \<open>..\<close> removes the last one, is dropped at the root,
  and is kept at the start of a relative path.
\<close>

fun clean_step :: "bool \<Rightarrow> string list \<Rightarrow> string \<Rightarrow> string list" where
  "clean_step rooted kept e =
     (if e = [] \<or> e = ''.'' then kept
      else if e \<noteq> ''..'' then e # kept
      else case kept of
        [] \<Rightarrow> if rooted then [] else [''..'']
      | k # ks \<Rightarrow> if k = ''..'' then ''..'' # kept else ks)"

definition path_clean :: "string \<Rightarrow> string" where
  "path_clean p =
     (let rooted = is_abs p;
          body = join ''/'' (rev (foldl (clean_step rooted) [] (split_on CHR ''/'' p)))
      in if rooted then CHR ''/'' # body else if body = [] then ''.'' else body)"

definition path_dir :: "string \<Rightarrow> string" where
  "path_dir p = path_clean (take (nat (last_index_byte p CHR ''/'' + 1)) p)"

definition path_join :: "string \<Rightarrow> string \<Rightarrow> string" where
  "path_join a b =
     (if a = [] then (if b = [] then [] else path_clean b) else path_clean (a @ ''/'' @ b))"

lemma is_abs_Cons [simp]: "is_abs (CHR ''/'' # p)"
  by (simp add: is_abs_def has_prefix_def)

lemma is_abs_append: "is_abs p \<Longrightarrow> is_abs (p @ q)"
  by (auto simp: is_abs_def has_prefix_def)

lemma path_clean_abs: "is_abs (path_clean p)" if "is_abs p"
  using that by (simp add: path_clean_def Let_def)

lemma path_dir_abs: "is_abs p \<Longrightarrow> is_abs (path_dir p)"
proof -
  assume "is_abs p"
  then obtain q where p: "p = CHR ''/'' # q"
    by (auto simp: is_abs_def has_prefix_def prefix_def)
  have "length (takeWhile (\<lambda>x. x \<noteq> c) (xs @ [c])) \<le> length xs" for c :: char and xs
    by (induction xs) auto
  from this [of "CHR ''/''" "rev q"] have "0 \<le> last_index_byte p CHR ''/''"
    by (simp add: last_index_byte_def p)
  then have "is_abs (take (nat (last_index_byte p CHR ''/'' + 1)) p)"
    by (cases "nat (last_index_byte p CHR ''/'' + 1)") (simp_all add: p)
  then show "is_abs (path_dir p)"
    unfolding path_dir_def by (rule path_clean_abs)
qed

lemma path_join_abs: "is_abs a \<Longrightarrow> is_abs (path_join a b)"
  by (cases a) (auto simp: path_join_def is_abs_def has_prefix_def intro: path_clean_abs [unfolded is_abs_def has_prefix_def])

end
