(* ===== verification/Config.thy ===== *)
theory Config
  imports Go_Time Go_Net Go_Path
begin

text \<open>
  The package \<open>config\<close> (\<open>src/config/config.go\<close>): the configuration record, its defaults, \<open>Load\<close>,
  \<open>Validate\<close> and \<open>MustDuration\<close>. Reading the file and decoding YAML are parameters of \<open>load\<close>.
  \<open>Validate\<close> ranges over three maps; the orders the runtime chooses are its arguments.
\<close>

section \<open>Data\<close>

record dns_config =
  dnc_listen_address :: string
  dnc_upstream_dns :: string

record admin_config =
  adc_listen_address :: string

record discovery_config =
  dcc_refresh_interval :: string
  dcc_debounce_interval :: string

record consul_config =
  ccc_address :: string
  ccc_scheme :: string
  ccc_datacenter :: string
  ccc_route_kv_prefix :: string
  ccc_request_timeout :: string
  ccc_agent_lease_ttl :: string
  ccc_agent_lease_refresh_interval :: string
  ccc_deregister_critical_after :: string

record xds_config =
  xc_listen_address :: string
  xc_node_id :: string
  xc_listener_address :: string
  xc_route_name :: string
  xc_default_timeout :: string
  xc_retry_attempts :: uint32
  xc_per_try_timeout :: string
  xc_max_connections :: uint32
  xc_max_pending_requests :: uint32
  xc_max_requests :: uint32
  xc_consecutive_5xx :: uint32
  xc_base_ejection_time :: string
  xc_max_ejection_percent :: uint32

record envoy_config =
  ec_enabled :: bool
  ec_binary_path :: string
  ec_bootstrap_path :: string
  ec_admin_address :: string
  ec_drain_timeout :: string
  ec_restart_backoff :: string
  ec_log_level :: string

record telemetry_config =
  tc_otlp_endpoint :: string
  tc_trace_enabled :: bool
  tc_trace_exporter :: string
  tc_metric_enabled :: bool
  tc_metric_exporter :: string
  tc_log_enabled :: bool
  tc_log_exporter :: string

record config =
  cf_env :: string
  cf_cluster_name :: string
  cf_zone :: string
  cf_host_ip :: string
  cf_dns :: dns_config
  cf_admin :: admin_config
  cf_discovery :: discovery_config
  cf_consul :: consul_config
  cf_xds :: xds_config
  cf_envoy :: envoy_config
  cf_telemetry :: telemetry_config

definition default_config :: config where
  "default_config =
     \<lparr>cf_env = ''dev'', cf_cluster_name = ''cluster-a'', cf_zone = ''idc-a-1'', cf_host_ip = ''127.0.0.1'',
      cf_dns = \<lparr>dnc_listen_address = ''127.0.0.1:15353'', dnc_upstream_dns = ''8.8.8.8:53''\<rparr>,
      cf_admin = \<lparr>adc_listen_address = ''127.0.0.1:15010''\<rparr>,
      cf_discovery = \<lparr>dcc_refresh_interval = ''5s'', dcc_debounce_interval = ''1s''\<rparr>,
      cf_consul =
        \<lparr>ccc_address = ''127.0.0.1:8500'', ccc_scheme = ''http'', ccc_datacenter = ''dc1'',
         ccc_route_kv_prefix = ''routes'', ccc_request_timeout = ''3s'', ccc_agent_lease_ttl = ''10s'',
         ccc_agent_lease_refresh_interval = ''3s'', ccc_deregister_critical_after = ''30s''\<rparr>,
      cf_xds =
        \<lparr>xc_listen_address = ''127.0.0.1:15011'', xc_node_id = ''sidecar-agent-dev-node'',
         xc_listener_address = ''127.0.0.1:15001'', xc_route_name = ''local-route'',
         xc_default_timeout = ''3s'', xc_retry_attempts = 2, xc_per_try_timeout = ''1s'',
         xc_max_connections = 1024, xc_max_pending_requests = 2048, xc_max_requests = 4096,
         xc_consecutive_5xx = 5, xc_base_ejection_time = ''30s'', xc_max_ejection_percent = 50\<rparr>,
      cf_envoy =
        \<lparr>ec_enabled = False, ec_binary_path = ''envoy'', ec_bootstrap_path = ''./.tmp/envoy-bootstrap.yaml'',
         ec_admin_address = ''127.0.0.1:19000'', ec_drain_timeout = ''20s'', ec_restart_backoff = ''3s'',
         ec_log_level = ''info''\<rparr>,
      cf_telemetry =
        \<lparr>tc_otlp_endpoint = ''http://127.0.0.1:4318'', tc_trace_enabled = False, tc_trace_exporter = ''stdout'',
         tc_metric_enabled = True, tc_metric_exporter = ''prometheus'', tc_log_enabled = True,
         tc_log_exporter = ''stdout''\<rparr>\<rparr>"

section \<open>Validation\<close>

text \<open>\<open>MustDuration\<close> panics on what does not parse: \<open>None\<close>.\<close>

definition must_duration :: "string \<Rightarrow> duration option" where
  "must_duration raw = (case parse_duration (trim_space raw) of Inl _ \<Rightarrow> None | Inr d \<Rightarrow> Some d)"

definition validate_address :: "string \<Rightarrow> string \<Rightarrow> go_error option" where
  "validate_address field value =
     (if trim_space value = [] then Some (FieldRequired field)
      else case split_host_port (trim_space value) of
        Inl e \<Rightarrow> Some (FieldInvalid field e)
      | Inr _ \<Rightarrow> None)"

definition validate_present :: "string \<Rightarrow> string \<Rightarrow> go_error option" where
  "validate_present field value = (if trim_space value = [] then Some (FieldRequired field) else None)"

definition validate_duration :: "string \<Rightarrow> string \<Rightarrow> go_error option" where
  "validate_duration field value =
     (case parse_duration (trim_space value) of Inl e \<Rightarrow> Some (FieldInvalid field e) | Inr _ \<Rightarrow> None)"

definition address_fields :: "config \<Rightarrow> (string \<times> string) list" where
  "address_fields c =
     [(''dns.listen_address'', dnc_listen_address (cf_dns c)),
      (''admin.listen_address'', adc_listen_address (cf_admin c)),
      (''xds.listen_address'', xc_listen_address (cf_xds c)),
      (''xds.listener_address'', xc_listener_address (cf_xds c)),
      (''envoy.admin_address'', ec_admin_address (cf_envoy c)),
      (''dns.upstream_dns'', dnc_upstream_dns (cf_dns c))]"

definition required_fields :: "config \<Rightarrow> (string \<times> string) list" where
  "required_fields c =
     [(''consul.scheme'', ccc_scheme (cf_consul c)),
      (''consul.datacenter'', ccc_datacenter (cf_consul c)),
      (''consul.request_timeout'', ccc_request_timeout (cf_consul c)),
      (''consul.agent_lease_ttl'', ccc_agent_lease_ttl (cf_consul c)),
      (''consul.agent_lease_refresh_interval'', ccc_agent_lease_refresh_interval (cf_consul c)),
      (''consul.deregister_critical_service_after'', ccc_deregister_critical_after (cf_consul c)),
      (''xds.node_id'', xc_node_id (cf_xds c)),
      (''xds.route_name'', xc_route_name (cf_xds c)),
      (''xds.default_timeout'', xc_default_timeout (cf_xds c)),
      (''xds.per_try_timeout'', xc_per_try_timeout (cf_xds c)),
      (''envoy.drain_timeout'', ec_drain_timeout (cf_envoy c)),
      (''envoy.restart_backoff'', ec_restart_backoff (cf_envoy c)),
      (''envoy.log_level'', ec_log_level (cf_envoy c))]"

definition duration_fields :: "config \<Rightarrow> (string \<times> string) list" where
  "duration_fields c =
     [(''discovery.refresh_interval'', dcc_refresh_interval (cf_discovery c)),
      (''discovery.debounce_interval'', dcc_debounce_interval (cf_discovery c)),
      (''consul.request_timeout'', ccc_request_timeout (cf_consul c)),
      (''consul.agent_lease_ttl'', ccc_agent_lease_ttl (cf_consul c)),
      (''consul.agent_lease_refresh_interval'', ccc_agent_lease_refresh_interval (cf_consul c)),
      (''consul.deregister_critical_service_after'', ccc_deregister_critical_after (cf_consul c)),
      (''xds.default_timeout'', xc_default_timeout (cf_xds c)),
      (''xds.per_try_timeout'', xc_per_try_timeout (cf_xds c)),
      (''xds.base_ejection_time'', xc_base_ejection_time (cf_xds c)),
      (''envoy.drain_timeout'', ec_drain_timeout (cf_envoy c)),
      (''envoy.restart_backoff'', ec_restart_backoff (cf_envoy c))]"

text \<open>A loop over the fields that returns at the first error, and a sequence of checks that does.\<close>

fun first_error :: "(string \<Rightarrow> string \<Rightarrow> go_error option) \<Rightarrow> (string \<times> string) list \<Rightarrow> go_error option" where
  "first_error check [] = None"
| "first_error check ((field, value) # rest) =
     (case check field value of Some e \<Rightarrow> Some e | None \<Rightarrow> first_error check rest)"

fun first_some :: "'a option list \<Rightarrow> 'a option" where
  "first_some [] = None"
| "first_some (None # rest) = first_some rest"
| "first_some (Some e # rest) = Some e"

definition validate_identity :: "config \<Rightarrow> go_error option" where
  "validate_identity c =
     (if trim_space (cf_env c) = [] then Some (FieldRequired ''env'')
      else if trim_space (cf_cluster_name c) = [] then Some (FieldRequired ''cluster_name'')
      else if trim_space (cf_zone c) = [] then Some (FieldRequired ''zone'')
      else if \<not> parse_ip (trim_space (cf_host_ip c)) then Some (ValueInvalid ''host_ip'' (cf_host_ip c))
      else None)"

definition validate_envoy :: "config \<Rightarrow> go_error option" where
  "validate_envoy c =
     (if ec_enabled (cf_envoy c)
      then if trim_space (ec_binary_path (cf_envoy c)) = []
           then Some (RequiredWhen ''envoy.binary_path is required when envoy.enabled is true'')
           else if trim_space (ec_bootstrap_path (cf_envoy c)) = []
           then Some (RequiredWhen ''envoy.bootstrap_path is required when envoy.enabled is true'')
           else None
      else None)"

text \<open>One \<open>switch\<close> on an exporter: the signal is off, or its exporter is one of the allowed ones.\<close>

definition validate_exporter :: "bool \<Rightarrow> string list \<Rightarrow> string \<Rightarrow> string \<Rightarrow> go_error option" where
  "validate_exporter enabled allowed field value =
     (if enabled \<and> trim_space value \<notin> set allowed then Some (ValueInvalid field value) else None)"

definition validate_telemetry :: "telemetry_config \<Rightarrow> go_error option" where
  "validate_telemetry t =
     first_some
      [validate_exporter (tc_trace_enabled t) [''stdout'', ''otlp''] ''telemetry.trace_exporter''
         (tc_trace_exporter t),
       validate_exporter (tc_metric_enabled t) [''prometheus'', ''otlp''] ''telemetry.metric_exporter''
         (tc_metric_exporter t),
       validate_exporter (tc_log_enabled t) [''stdout'', ''otlp''] ''telemetry.log_exporter''
         (tc_log_exporter t),
       (if tc_trace_enabled t \<and> trim_space (tc_trace_exporter t) = ''otlp'' \<and>
           trim_space (tc_otlp_endpoint t) = []
        then Some (RequiredWhen ''telemetry.otlp_endpoint is required when using otlp trace exporter'')
        else None),
       (if (tc_metric_enabled t \<and> trim_space (tc_metric_exporter t) = ''otlp'' \<or>
            tc_log_enabled t \<and> trim_space (tc_log_exporter t) = ''otlp'') \<and>
           trim_space (tc_otlp_endpoint t) = []
        then Some (RequiredWhen ''telemetry.otlp_endpoint is required when using otlp exporter'')
        else None)]"

text \<open>\<open>Validate\<close> calls \<open>MustDuration\<close>, so that it could panic; the checks before it exclude that.\<close>

datatype checked = Panics | Returns "go_error option"

type_synonym field_order = "(string \<times> string) list \<Rightarrow> (string \<times> string) list"

definition validate :: "field_order \<Rightarrow> field_order \<Rightarrow> field_order \<Rightarrow> config \<Rightarrow> checked" where
  "validate ord1 ord2 ord3 c =
     (case first_some
        [validate_identity c,
         first_error validate_address (ord1 (address_fields c)),
         validate_address ''consul.address'' (ccc_address (cf_consul c)),
         validate_present ''consul.route_kv_prefix'' (ccc_route_kv_prefix (cf_consul c)),
         first_error validate_present (ord2 (required_fields c)),
         first_error validate_duration (ord3 (duration_fields c))] of
        Some e \<Rightarrow> Returns (Some e)
      | None \<Rightarrow>
          (case (must_duration (ccc_agent_lease_refresh_interval (cf_consul c)),
                 must_duration (ccc_agent_lease_ttl (cf_consul c))) of
             (Some refresh, Some ttl) \<Rightarrow>
               Returns (if refresh \<ge> ttl then Some LeaseNotSmaller
                        else first_some [validate_envoy c, validate_telemetry (cf_telemetry c)])
           | _ \<Rightarrow> Panics))"

section \<open>Load\<close>

text \<open>
  \<open>read_file\<close> is \<open>os.ReadFile\<close>, \<open>decode\<close> is \<open>yaml.Unmarshal\<close> on top of the given configuration.
  The configuration returned beside an error is not used by any caller and left out.
\<close>

definition rebase_bootstrap :: "string \<Rightarrow> config \<Rightarrow> config" where
  "rebase_bootstrap path c =
     (if trim_space (ec_bootstrap_path (cf_envoy c)) \<noteq> [] \<and> \<not> is_abs (ec_bootstrap_path (cf_envoy c))
      then c\<lparr>cf_envoy := (cf_envoy c)\<lparr>ec_bootstrap_path :=
             path_join (path_dir path) (ec_bootstrap_path (cf_envoy c))\<rparr>\<rparr>
      else c)"

definition load ::
    "(config \<Rightarrow> checked) \<Rightarrow> (string \<Rightarrow> go_error + string) \<Rightarrow> (string \<Rightarrow> config \<Rightarrow> go_error + config) \<Rightarrow>
     string \<Rightarrow> (go_error + config) option" where
  "load check read_file decode path =
     (let finish = (\<lambda>c. case check c of Panics \<Rightarrow> None | Returns None \<Rightarrow> Some (Inr c)
                        | Returns (Some e) \<Rightarrow> Some (Inl e))
      in if trim_space path = [] then finish default_config
         else case read_file path of
           Inl e \<Rightarrow> Some (Inl e)
         | Inr data \<Rightarrow>
             (case decode data default_config of
                Inl e \<Rightarrow> Some (Inl e)
              | Inr c \<Rightarrow> finish (rebase_bootstrap path c)))"

section \<open>What validation accepts\<close>

definition duration_ok :: "string \<Rightarrow> bool" where
  "duration_ok raw \<longleftrightarrow> must_duration raw \<noteq> None"

definition address_ok :: "string \<Rightarrow> bool" where
  "address_ok value \<longleftrightarrow> trim_space value \<noteq> [] \<and> is_ok (split_host_port (trim_space value))"

definition exporter_ok :: "bool \<Rightarrow> string list \<Rightarrow> string \<Rightarrow> string \<Rightarrow> bool" where
  "exporter_ok enabled allowed exporter endpoint \<longleftrightarrow>
     (enabled \<longrightarrow> trim_space exporter \<in> set allowed \<and>
        (trim_space exporter = ''otlp'' \<longrightarrow> trim_space endpoint \<noteq> []))"

text \<open>The valid configurations, field by field, with no order of checks.\<close>

definition valid_config :: "config \<Rightarrow> bool" where
  "valid_config c \<longleftrightarrow>
     trim_space (cf_env c) \<noteq> [] \<and> trim_space (cf_cluster_name c) \<noteq> [] \<and> trim_space (cf_zone c) \<noteq> [] \<and>
     parse_ip (trim_space (cf_host_ip c)) \<and>
     (\<forall>(f, v) \<in> set (address_fields c). address_ok v) \<and> address_ok (ccc_address (cf_consul c)) \<and>
     trim_space (ccc_route_kv_prefix (cf_consul c)) \<noteq> [] \<and>
     (\<forall>(f, v) \<in> set (required_fields c). trim_space v \<noteq> []) \<and>
     (\<forall>(f, v) \<in> set (duration_fields c). duration_ok v) \<and>
     the (must_duration (ccc_agent_lease_refresh_interval (cf_consul c))) <
       the (must_duration (ccc_agent_lease_ttl (cf_consul c))) \<and>
     (ec_enabled (cf_envoy c) \<longrightarrow>
        trim_space (ec_binary_path (cf_envoy c)) \<noteq> [] \<and> trim_space (ec_bootstrap_path (cf_envoy c)) \<noteq> []) \<and>
     (let t = cf_telemetry c in
        exporter_ok (tc_trace_enabled t) [''stdout'', ''otlp''] (tc_trace_exporter t) (tc_otlp_endpoint t) \<and>
        exporter_ok (tc_metric_enabled t) [''prometheus'', ''otlp''] (tc_metric_exporter t) (tc_otlp_endpoint t) \<and>
        exporter_ok (tc_log_enabled t) [''stdout'', ''otlp''] (tc_log_exporter t) (tc_otlp_endpoint t))"

lemma first_error_None:
  "first_error check fs = None \<longleftrightarrow> (\<forall>(f, v) \<in> set fs. check f v = None)"
  by (induction check fs rule: first_error.induct) (auto split: option.split)

lemma first_some_None: "first_some xs = None \<longleftrightarrow> set xs \<subseteq> {None}"
  by (induction xs rule: first_some.induct) auto

lemma check_None:
  "validate_address f v = None \<longleftrightarrow> address_ok v"
  "validate_present f v = None \<longleftrightarrow> trim_space v \<noteq> []"
  "validate_duration f v = None \<longleftrightarrow> duration_ok v"
  by (auto simp: validate_address_def address_ok_def is_ok_iff validate_present_def validate_duration_def
      duration_ok_def must_duration_def split: sum.split)

lemma validate_identity_None:
  "validate_identity c = None \<longleftrightarrow>
     trim_space (cf_env c) \<noteq> [] \<and> trim_space (cf_cluster_name c) \<noteq> [] \<and> trim_space (cf_zone c) \<noteq> [] \<and>
     parse_ip (trim_space (cf_host_ip c))"
  by (simp add: validate_identity_def)

lemma validate_envoy_None:
  "validate_envoy c = None \<longleftrightarrow>
     (ec_enabled (cf_envoy c) \<longrightarrow>
        trim_space (ec_binary_path (cf_envoy c)) \<noteq> [] \<and> trim_space (ec_bootstrap_path (cf_envoy c)) \<noteq> [])"
  by (simp add: validate_envoy_def)

lemma validate_telemetry_None:
  "validate_telemetry t = None \<longleftrightarrow>
     exporter_ok (tc_trace_enabled t) [''stdout'', ''otlp''] (tc_trace_exporter t) (tc_otlp_endpoint t) \<and>
     exporter_ok (tc_metric_enabled t) [''prometheus'', ''otlp''] (tc_metric_exporter t) (tc_otlp_endpoint t) \<and>
     exporter_ok (tc_log_enabled t) [''stdout'', ''otlp''] (tc_log_exporter t) (tc_otlp_endpoint t)"
  by (auto simp: validate_telemetry_def first_some_None validate_exporter_def exporter_ok_def)

lemma validate_decides:
  assumes "permutes_lists ord1" "permutes_lists ord2" "permutes_lists ord3"
  shows "validate ord1 ord2 ord3 c \<noteq> Panics \<and> (validate ord1 ord2 ord3 c = Returns None \<longleftrightarrow> valid_config c)"
proof -
  let ?checks = "[validate_identity c,
     first_error validate_address (ord1 (address_fields c)),
     validate_address ''consul.address'' (ccc_address (cf_consul c)),
     validate_present ''consul.route_kv_prefix'' (ccc_route_kv_prefix (cf_consul c)),
     first_error validate_present (ord2 (required_fields c)),
     first_error validate_duration (ord3 (duration_fields c))]"
  have checks: "first_some ?checks = None \<longleftrightarrow>
     validate_identity c = None \<and> (\<forall>(f, v) \<in> set (address_fields c). address_ok v) \<and>
     address_ok (ccc_address (cf_consul c)) \<and> trim_space (ccc_route_kv_prefix (cf_consul c)) \<noteq> [] \<and>
     (\<forall>(f, v) \<in> set (required_fields c). trim_space v \<noteq> []) \<and>
     (\<forall>(f, v) \<in> set (duration_fields c). duration_ok v)"
    unfolding first_some_None
    by (simp add: first_error_None check_None permutes_set assms)
  show ?thesis
  proof (cases "first_some ?checks")
    case (Some e)
    then have "\<not> valid_config c"
      using checks unfolding valid_config_def validate_identity_None by auto
    with Some show ?thesis
      unfolding validate_def by simp
  next
    case None
    then have all: "\<forall>(f, v) \<in> set (duration_fields c). duration_ok v"
      using checks by blast
    then obtain refresh ttl where
      "must_duration (ccc_agent_lease_refresh_interval (cf_consul c)) = Some refresh"
      "must_duration (ccc_agent_lease_ttl (cf_consul c)) = Some ttl"
      by (auto simp: duration_fields_def duration_ok_def)
    with None checks show ?thesis
      unfolding validate_def valid_config_def validate_identity_None
      by (auto simp: first_some_None validate_envoy_None validate_telemetry_None Let_def)
  qed
qed

end
