(* ===== verification/Discovery.thy ===== *)
theory Discovery
  imports Service_Model Instance_Id
begin

text \<open>
  The discovery watcher of \<open>src/discovery/watcher.go\<close>: \<open>refresh_once\<close> reads the source, compares the
  fingerprint with the published one, and publishes unless the last publication is too recent;
  \<open>run\<close> does so at the start and at every tick. The world \<open>'s\<close> is what the source and the callback
  act on; the interfaces \<open>Source\<close> and \<open>onUpdate\<close> are the locales \<open>instance_source\<close> and
  \<open>instance_sink\<close>.
\<close>

section \<open>State and environment\<close>

text \<open>\<open>wt_last_publish_at\<close> is \<open>None\<close> while the Go field is the zero time.\<close>

record watcher =
  wt_refresh_interval :: duration
  wt_debounce_interval :: duration
  wt_last_fingerprint :: string
  wt_last_publish_at :: "instant option"

definition new_watcher :: "duration \<Rightarrow> duration \<Rightarrow> watcher" where
  "new_watcher refresh debounce =
     \<lparr>wt_refresh_interval = refresh, wt_debounce_interval = debounce, wt_last_fingerprint = [],
      wt_last_publish_at = None\<rparr>"

text \<open>
  What the watcher calls: the source, the callback, the metric, the clock; \<open>we_wait\<close> is the time
  that passes until the next tick; \<open>we_encode\<close> is \<open>json.Marshal\<close> of the instances and \<open>we_digest\<close>
  is SHA-256.
\<close>

record 's watch_env =
  we_discover :: "'s \<Rightarrow> (go_error + service_instance list) \<times> 's"
  we_on_update :: "service_instance list \<Rightarrow> 's \<Rightarrow> go_error option \<times> 's"
  we_count :: "'s \<Rightarrow> 's"
  we_now :: "'s \<Rightarrow> instant \<times> 's"
  we_wait :: "'s \<Rightarrow> 's"
  we_encode :: "service_instance list \<Rightarrow> go_error + string"
  we_digest :: "string \<Rightarrow> byte list"

definition hash_instances :: "'s watch_env \<Rightarrow> service_instance list \<Rightarrow> go_error + string" where
  "hash_instances e instances =
     (case we_encode e instances of
        Inl err \<Rightarrow> Inl err
      | Inr payload \<Rightarrow> Inr (encode_hex (we_digest e payload)))"

section \<open>One refresh\<close>

text \<open>\<open>time.Since\<close> the last publication, if there was one, against the debounce interval.\<close>

definition too_early :: "'s watch_env \<Rightarrow> watcher \<Rightarrow> 's \<Rightarrow> bool \<times> 's" where
  "too_early e w s =
     (case wt_last_publish_at w of
        None \<Rightarrow> (False, s)
      | Some prev \<Rightarrow> (case we_now e s of (t, s') \<Rightarrow> (t - prev < wt_debounce_interval w, s')))"

text \<open>The part under the mutex: unchanged, too early, or published.\<close>

definition publish_changed ::
    "'s watch_env \<Rightarrow> watcher \<Rightarrow> service_instance list \<Rightarrow> string \<Rightarrow> 's \<Rightarrow> go_error option \<times> watcher \<times> 's" where
  "publish_changed e w instances fingerprint s =
     (if fingerprint = wt_last_fingerprint w then (None, w, s)
      else case too_early e w s of
        (True, s1) \<Rightarrow> (None, w, s1)
      | (False, s1) \<Rightarrow>
          (case we_on_update e instances s1 of
             (Some err, s2) \<Rightarrow> (Some err, w, s2)
           | (None, s2) \<Rightarrow>
               (case we_now e s2 of (t, s3) \<Rightarrow>
                  (None, w\<lparr>wt_last_fingerprint := fingerprint, wt_last_publish_at := Some t\<rparr>, s3))))"

definition refresh_once :: "'s watch_env \<Rightarrow> watcher \<Rightarrow> 's \<Rightarrow> go_error option \<times> watcher \<times> 's" where
  "refresh_once e w s =
     (case we_discover e s of
        (Inl err, s1) \<Rightarrow> (Some err, w, s1)
      | (Inr instances, s1) \<Rightarrow>
          let s2 = we_count e s1
          in (case hash_instances e instances of
                Inl err \<Rightarrow> (Some err, w, s2)
              | Inr fingerprint \<Rightarrow> publish_changed e w instances fingerprint s2))"

definition refresh_now :: "'s watch_env \<Rightarrow> watcher \<Rightarrow> 's \<Rightarrow> go_error option \<times> watcher \<times> 's" where
  "refresh_now = refresh_once"

section \<open>The loop\<close>

text \<open>
  The loop is driven by what the \<open>select\<close> receives. \<open>Exited\<close> carries the value \<open>Run\<close> returns;
  \<open>Waiting\<close> is blocked in the \<open>select\<close>; \<open>time.NewTicker\<close> panics on an interval that is not
  positive.
\<close>

datatype signal = Tick | Cancelled

datatype run_state = Exited "go_error option" | Waiting | TickerPanic

fun run_loop ::
    "'s watch_env \<Rightarrow> signal list \<Rightarrow> watcher \<Rightarrow> 's \<Rightarrow> run_state \<times> watcher \<times> 's" where
  "run_loop e [] w s = (Waiting, w, s)"
| "run_loop e (Cancelled # signals) w s = (Exited None, w, s)"
| "run_loop e (Tick # signals) w s =
     (case refresh_once e w (we_wait e s) of
        (Some err, w', s') \<Rightarrow> (Exited (Some err), w', s')
      | (None, w', s') \<Rightarrow> run_loop e signals w' s')"

definition run :: "'s watch_env \<Rightarrow> signal list \<Rightarrow> watcher \<Rightarrow> 's \<Rightarrow> run_state \<times> watcher \<times> 's" where
  "run e signals w s =
     (case refresh_once e w s of
        (Some err, w', s') \<Rightarrow> (Exited (Some err), w', s')
      | (None, w', s') \<Rightarrow>
          if wt_refresh_interval w' \<le> 0 then (TickerPanic, w', s') else run_loop e signals w' s')"

section \<open>Lemmas\<close>

lemma publish_changed_settings:
  "publish_changed e w xs fp s = (r, w', s') \<Longrightarrow>
     wt_refresh_interval w' = wt_refresh_interval w \<and> wt_debounce_interval w' = wt_debounce_interval w"
  by (auto simp: publish_changed_def split: if_splits bool.splits option.splits prod.splits)

lemma refresh_once_settings:
  "refresh_once e w s = (r, w', s') \<Longrightarrow>
     wt_refresh_interval w' = wt_refresh_interval w \<and> wt_debounce_interval w' = wt_debounce_interval w"
  by (auto simp: refresh_once_def Let_def split: prod.splits sum.splits dest!: publish_changed_settings)

lemma refresh_once_unchanged_or_error:
  assumes "refresh_once e w s = (r, w', s')" "w' \<noteq> w"
  shows "r = None"
  using assms
  by (auto simp: refresh_once_def publish_changed_def Let_def split: if_splits bool.splits option.splits prod.splits sum.splits)

text \<open>A first exit ends the loop: what the select would receive later does not matter.\<close>

lemma run_loop_append:
  "run_loop e (xs @ ys) w s =
     (case run_loop e xs w s of (Waiting, w', s') \<Rightarrow> run_loop e ys w' s' | done \<Rightarrow> done)"
  by (induction e xs w s rule: run_loop.induct) (auto split: prod.splits option.splits)

section \<open>The interfaces\<close>

text \<open>
  \<open>Source\<close>: discovering may fail and may have effects on the source, but keeps its invariant and
  what an observer sees of it. \<open>onUpdate\<close>: publishing keeps the invariant and that view as well.
\<close>

locale instance_source =
  fixes discover :: "'s \<Rightarrow> (go_error + service_instance list) \<times> 's"
    and inv :: "'s \<Rightarrow> bool"
    and observe :: "'s \<Rightarrow> 'o"
  assumes discover_inv: "inv s \<Longrightarrow> discover s = (r, s') \<Longrightarrow> inv s'"
    and discover_observe: "inv s \<Longrightarrow> discover s = (r, s') \<Longrightarrow> observe s' = observe s"

locale instance_sink =
  fixes on_update :: "service_instance list \<Rightarrow> 's \<Rightarrow> go_error option \<times> 's"
    and inv :: "'s \<Rightarrow> bool"
    and observe :: "'s \<Rightarrow> 'o"
  assumes update_inv: "inv s \<Longrightarrow> on_update xs s = (r, s') \<Longrightarrow> inv s'"
    and update_observe: "inv s \<Longrightarrow> on_update xs s = (r, s') \<Longrightarrow> observe s' = observe s"

text \<open>A watcher between a source and a sink, with a metric and a clock that do not disturb them.\<close>

locale watched = instance_source "we_discover e" inv observe + instance_sink "we_on_update e" inv observe
  for e :: "'s watch_env" and inv :: "'s \<Rightarrow> bool" and observe :: "'s \<Rightarrow> 'o" +
  assumes count_inv: "inv s \<Longrightarrow> inv (we_count e s) \<and> observe (we_count e s) = observe s"
    and now_inv: "inv s \<Longrightarrow> we_now e s = (t, s') \<Longrightarrow> inv s' \<and> observe s' = observe s"
    and wait_inv: "inv s \<Longrightarrow> inv (we_wait e s) \<and> observe (we_wait e s) = observe s"
begin

lemma too_early_keeps:
  assumes "inv s" "too_early e w s = (b, s')"
  shows "inv s' \<and> observe s' = observe s"
proof (cases "wt_last_publish_at w")
  case (Some prev)
  obtain t s1 where now: "we_now e s = (t, s1)"
    by fastforce
  with Some assms(2) have "s' = s1"
    by (simp add: too_early_def)
  with now_inv [OF assms(1) now] show ?thesis by simp
qed (use assms in \<open>simp add: too_early_def\<close>)

lemma publish_keeps:
  assumes "inv s" "publish_changed e w xs fp s = (r, w', s')"
  shows "inv s' \<and> observe s' = observe s"
proof -
  obtain b s1 where early: "too_early e w s = (b, s1)"
    by fastforce
  have s1: "inv s1 \<and> observe s1 = observe s"
    using too_early_keeps [OF assms(1) early] .
  obtain u s2 where update: "we_on_update e xs s1 = (u, s2)"
    by fastforce
  have s2: "inv s2 \<and> observe s2 = observe s"
    using s1 update_inv [OF _ update] update_observe [OF _ update] by simp
  obtain t s3 where now: "we_now e s2 = (t, s3)"
    by fastforce
  have s3: "inv s3 \<and> observe s3 = observe s"
    using s2 now_inv [OF _ now] by simp
  have "s' \<in> {s, s1, s2, s3}"
    using assms(2) early update now by (auto simp: publish_changed_def split: if_splits bool.splits option.splits)
  with assms(1) s1 s2 s3 show ?thesis by auto
qed

lemma refresh_keeps:
  assumes "inv s" "refresh_once e w s = (r, w', s')"
  shows "inv s' \<and> observe s' = observe s"
proof -
  obtain d s1 where d: "we_discover e s = (d, s1)"
    by fastforce
  have s1: "inv s1 \<and> observe s1 = observe s"
    using discover_inv [OF assms(1) d] discover_observe [OF assms(1) d] by simp
  then have s2: "inv (we_count e s1) \<and> observe (we_count e s1) = observe s"
    using count_inv [of s1] by simp
  show ?thesis
    using assms(2) d s1 s2 publish_keeps [of "we_count e s1" w]
    by (auto simp: refresh_once_def Let_def split: sum.splits)
qed

lemma run_loop_keeps:
  "inv s \<Longrightarrow> run_loop e signals w s = (r, w', s') \<Longrightarrow> inv s' \<and> observe s' = observe s"
proof (induction signals arbitrary: w s)
  case (Cons signal signals)
  show ?case
  proof (cases signal)
    case Tick
    have wait: "inv (we_wait e s) \<and> observe (we_wait e s) = observe s"
      using Cons.prems(1) by (rule wait_inv)
    obtain r1 w1 s1 where once: "refresh_once e w (we_wait e s) = (r1, w1, s1)"
      using prod_cases3 by blast
    have s1: "inv s1 \<and> observe s1 = observe s"
      using refresh_keeps [OF _ once] wait by simp
    show ?thesis
      using Cons.IH [of s1 w1] Cons.prems(2) s1 Tick once by (cases r1) auto
  qed (use Cons.prems in simp)
qed simp

lemma run_keeps:
  assumes "inv s" "run e signals w s = (r, w', s')"
  shows "inv s' \<and> observe s' = observe s"
proof -
  obtain r1 w1 s1 where once: "refresh_once e w s = (r1, w1, s1)"
    using prod_cases3 by blast
  have s1: "inv s1 \<and> observe s1 = observe s"
    using refresh_keeps [OF assms(1) once] .
  show ?thesis
    using assms(2) once s1 run_loop_keeps [of s1 signals w1]
    by (cases r1) (auto simp: run_def split: if_splits)
qed

end

end
