(* ===== verification/Consul_Api.thy ===== *)
theory Consul_Api
  imports Service_Model Instance_Id
begin

text \<open>
  What the registry uses of the outside: the Consul client interfaces of
  \<open>src/registry/consul.go\<close> (\<open>agentAPI\<close>, \<open>healthAPI\<close>, \<open>catalogAPI\<close>, \<open>kvAPI\<close>), the clock, the
  random source, the JSON codec of route documents and the orders the Go runtime chooses. Consul
  is not part of the repository, so all of it is a parameter, the record \<open>env\<close>. A client keeps the
  \<^emph>\<open>history\<close> of its effects; the answer of the outside to an effect is any function of the history
  so far, so that it may depend on everything that happened before.
\<close>

section \<open>The Consul types the code fills in and reads\<close>

record agent_service_check =
  ck_check_id :: string
  ck_tcp :: string
  ck_interval :: string
  ck_ttl :: string
  ck_deregister_after :: string

record registration =
  rg_id :: string
  rg_name :: string
  rg_address :: string
  rg_port :: int
  rg_tags :: "string list"
  rg_meta :: "(string \<times> string) list"
  rg_checks :: "agent_service_check list"

record agent_service =
  as_id :: string
  as_service :: string
  as_address :: string
  as_port :: int
  as_tags :: "string list"
  as_meta :: "(string \<times> string) list"

text \<open>\<open>entry.Service\<close> and \<open>entry.Node\<close> are pointers that may be nil.\<close>

record service_entry =
  se_service :: "agent_service option"
  se_node_address :: "string option"

text \<open>Reading a missing key of a Go map gives the zero value, the empty string.\<close>

definition meta_get :: "(string \<times> string) list \<Rightarrow> string \<Rightarrow> string" where
  "meta_get m k = (case map_of m k of None \<Rightarrow> [] | Some v \<Rightarrow> v)"

section \<open>Effects and their history\<close>

datatype consul_call =
    ServiceRegister registration
  | ServiceDeregister string
  | EnableServiceMaintenance string string
  | UpdateTTL string string string
  | CatalogServices
  | HealthService string bool
  | KVGet string
  | KVPut string string

datatype counter = RegisterTotal | DrainTotal | DeregisterTotal | DiscoveryRefreshTotal
  | XdsPublishTotal | EnvoyRestartTotal

text \<open>A call is recorded with its outcome: \<open>None\<close> for success, or the text of the error.\<close>

datatype event =
    Called consul_call "string option"
  | ClockRead
  | RandomRead
  | Counted counter

record env =
  call_error :: "event list \<Rightarrow> consul_call \<Rightarrow> string option"
  kv_value :: "event list \<Rightarrow> string \<Rightarrow> string option"
  catalog_names :: "event list \<Rightarrow> string list"
  health_entries :: "event list \<Rightarrow> string \<Rightarrow> bool \<Rightarrow> service_entry option list"
  clock :: "event list \<Rightarrow> instant"
  random_bytes :: "event list \<Rightarrow> (nat \<Rightarrow> byte) option"
  marshal_doc :: "route_document \<Rightarrow> go_error + string"
  unmarshal_doc :: "string \<Rightarrow> go_error + route_document"
  range_fields :: "event list \<Rightarrow> (string \<times> string) list \<Rightarrow> (string \<times> string) list"
  range_services :: "event list \<Rightarrow> (string \<times> local_service) list \<Rightarrow> (string \<times> local_service) list"
  sort_instances :: "service_instance list \<Rightarrow> service_instance list"

text \<open>
  What the Go runtime and library promise: \<open>range\<close> visits every entry once, and
  \<open>slices.SortFunc\<close> returns a permutation sorted by the comparison of the keys.
\<close>

definition discover_key :: "service_instance \<Rightarrow> string" where
  "discover_key i =
     si_name i @ ''|'' @ si_namespace i @ ''|'' @ si_address i @ ''|'' @ fmt_d (si_port i)"

definition go_runtime :: "env \<Rightarrow> bool" where
  "go_runtime w \<longleftrightarrow>
     (\<forall>h. permutes_lists (range_fields w h)) \<and> (\<forall>h. permutes_lists (range_services w h)) \<and>
     sorts_by discover_key (sort_instances w)"

text \<open>The value last put under a key, for an outside where nobody else writes the key.\<close>

fun last_put :: "event list \<Rightarrow> string \<Rightarrow> string option" where
  "last_put [] k = None"
| "last_put (e # h) k =
     (case last_put h k of
        Some v \<Rightarrow> Some v
      | None \<Rightarrow> (case e of Called (KVPut k' v) None \<Rightarrow> if k' = k then Some v else None | _ \<Rightarrow> None))"

lemma last_put_append:
  "last_put (h @ g) k = (case last_put g k of Some v \<Rightarrow> Some v | None \<Rightarrow> last_put h k)"
  by (induction h) (auto split: option.splits event.splits consul_call.splits)

text \<open>The Consul calls of a history with their outcomes, oldest first.\<close>

fun calls_of :: "event list \<Rightarrow> (consul_call \<times> string option) list" where
  "calls_of [] = []"
| "calls_of (Called a err # h) = (a, err) # calls_of h"
| "calls_of (e # h) = calls_of h"

lemma calls_of_append [simp]: "calls_of (h @ g) = calls_of h @ calls_of g"
  by (induction h rule: calls_of.induct) auto

text \<open>
  Two hypotheses on the outside that theorems name where they need them: nobody else writes the
  key-value store, and a route document that was encoded decodes to one of the same meaning.
\<close>

definition kv_faithful :: "env \<Rightarrow> bool" where
  "kv_faithful w \<longleftrightarrow> (\<forall>h k. kv_value w h k = last_put h k)"

definition codec_keeps :: "env \<Rightarrow> route_document \<Rightarrow> bool" where
  "codec_keeps w d \<longleftrightarrow>
     (\<forall>p. marshal_doc w (canonicalize d) = Inr p \<longrightarrow>
        p \<noteq> [] \<and> (\<exists>d'. unmarshal_doc w p = Inr d' \<and> route_equal d' d))"

text \<open>\<open>RouteDocument.Marshal\<close>: the document is canonical before it is encoded.\<close>

definition marshal_document :: "env \<Rightarrow> route_document \<Rightarrow> go_error + string" where
  "marshal_document w doc = marshal_doc w (canonicalize doc)"

lemma marshal_document_doc [simp]: "marshal_document w doc = marshal_doc w (canonicalize doc)"
  by (simp add: marshal_document_def)

end
