(* ===== verification/Registry.thy ===== *)
theory Registry
  imports Consul_Api "HOL-Library.Product_Lexorder"
begin

text \<open>
  The registry client of \<open>src/registry/consul.go\<close>: its state, and every operation that changes
  it, by explicit state passing. Each method is one step here; \<open>Drain\<close> and \<open>Deregister\<close> hold the mutex
  throughout, and theory \<open>Registry_Threads\<close> has the methods as goroutines, with the interleavings that
  the finer locking of \<open>Register\<close> allows. Log output and trace spans are left out; counters are events of the history.
\<close>

section \<open>State\<close>

record settings =
  st_address :: string
  st_scheme :: string
  st_datacenter :: string
  st_route_kv_prefix :: string
  st_request_timeout :: duration
  st_cluster_name :: string
  st_zone :: string
  st_host_ip :: string
  st_env :: string
  st_agent_lease_ttl :: duration
  st_agent_lease_refresh_interval :: duration
  st_deregister_critical_after :: duration

text \<open>
  \<open>cl_lease_running\<close> is \<open>lifecycleCancel != nil\<close>; the four \<open>has_\<close> fields say which of the API
  interfaces are non-nil, \<open>cl_has_metrics\<close> whether there is a metrics recorder.
\<close>

record client =
  cl_settings :: settings
  cl_has_agent :: bool
  cl_has_health :: bool
  cl_has_catalog :: bool
  cl_has_kv :: bool
  cl_has_metrics :: bool
  cl_agent_id :: string
  cl_agent_run_id :: string
  cl_started_at :: instant
  cl_lease_running :: bool
  cl_local_services :: "(string \<times> local_service) list"
  history :: "event list"

section \<open>Effects\<close>

definition call :: "env \<Rightarrow> client \<Rightarrow> consul_call \<Rightarrow> (go_error + unit) \<times> client" where
  "call w c a =
     (let err = call_error w (history c) a; c' = c\<lparr>history := history c @ [Called a err]\<rparr>
      in case err of None \<Rightarrow> (Inr (), c') | Some e \<Rightarrow> (Inl (External e), c'))"

definition now :: "env \<Rightarrow> client \<Rightarrow> instant \<times> client" where
  "now w c = (clock w (history c), c\<lparr>history := history c @ [ClockRead]\<rparr>)"

definition count :: "counter \<Rightarrow> client \<Rightarrow> client" where
  "count k c = (if cl_has_metrics c then c\<lparr>history := history c @ [Counted k]\<rparr> else c)"

section \<open>Names and conversions\<close>

definition build_agent_id :: "settings \<Rightarrow> string" where
  "build_agent_id s =
     trim_space (st_cluster_name s) @ '':'' @ trim_space (st_zone s) @ '':'' @ trim_space (st_host_ip s)"

definition lease_check_id_for :: "string \<Rightarrow> string" where
  "lease_check_id_for iid = ''service:'' @ trim_space iid @ '':agent-lease''"

definition local_key :: "string \<Rightarrow> int \<Rightarrow> string" where
  "local_key name port = trim_space name @ '':'' @ fmt_d port"

definition route_config_ref :: "settings \<Rightarrow> string \<Rightarrow> string \<Rightarrow> string \<Rightarrow> string" where
  "route_config_ref s env namespace service =
     trim_byte CHR ''/'' (trim_space (st_route_kv_prefix s)) @ ''/'' @ trim_space env @ ''/'' @
     trim_space namespace @ ''/'' @ trim_space service @ ''/current''"

definition cluster_from_tags :: "string list \<Rightarrow> string" where
  "cluster_from_tags tags =
     (case find (\<lambda>tag. has_prefix (trim_space tag) ''cluster='') tags of
        None \<Rightarrow> []
      | Some tag \<Rightarrow> trim_prefix (trim_space tag) ''cluster='')"

definition parse_positive_int :: "string \<Rightarrow> int \<Rightarrow> int" where
  "parse_positive_int raw fallback =
     (case scan_d (trim_space raw) of None \<Rightarrow> fallback | Some v \<Rightarrow> if v \<le> 0 then fallback else v)"

definition same_register_request :: "register_request \<Rightarrow> register_request \<Rightarrow> bool" where
  "same_register_request left right \<longleftrightarrow>
     rr_app_id left = rr_app_id right \<and> rr_app_name left = rr_app_name right \<and>
     rr_name left = rr_name right \<and> rr_namespace left = rr_namespace right \<and>
     rr_port left = rr_port right \<and> rr_dns left = rr_dns right \<and> rr_env left = rr_env right \<and>
     rr_weight left = rr_weight right \<and> rr_protocol left = rr_protocol right \<and>
     k_language (rr_kernel left) = k_language (rr_kernel right) \<and>
     k_version (rr_kernel left) = k_version (rr_kernel right) \<and>
     rr_version left = rr_version right \<and>
     unique_sorted_strings (rr_methods left) = unique_sorted_strings (rr_methods right)"

definition registration_for :: "client \<Rightarrow> local_service \<Rightarrow> registration" where
  "registration_for c s =
     (let r = ls_request s; st = cl_settings c;
          after = duration_string (st_deregister_critical_after st)
      in \<lparr>rg_id = ls_instance_id s,
          rg_name = rr_name r,
          rg_address = ls_address s,
          rg_port = rr_port r,
          rg_tags = [''cluster='' @ trim_space (st_cluster_name st)],
          rg_meta =
            [(''app_id'', rr_app_id r), (''app_name'', rr_app_name r),
             (''agent_id'', ls_agent_id s), (''agent_run_id'', ls_agent_run_id s),
             (''agent_host_ip'', ls_address s),
             (''agent_started_at'', format_rfc3339 (cl_started_at c)),
             (''namespace'', rr_namespace r), (''dns'', rr_dns r), (''env'', rr_env r),
             (''zone'', ls_zone s), (''weight'', fmt_d (rr_weight r)),
             (''route_prefixes'', join '','' (ls_route_prefixes s)),
             (''version'', rr_version r), (''protocol'', rr_protocol r),
             (''kernel_language'', k_language (rr_kernel r)),
             (''kernel_version'', k_version (rr_kernel r)),
             (''route_config_ref'', ls_route_config_ref s),
             (''instance_id'', ls_instance_id s),
             (''run_date'', format_rfc3339 (ls_registered_at s))],
          rg_checks =
            [\<lparr>ck_check_id = ''service:'' @ ls_instance_id s @ '':tcp'',
              ck_tcp = ls_address s @ '':'' @ fmt_d (rr_port r),
              ck_interval = ''10s'', ck_ttl = [], ck_deregister_after = after\<rparr>,
             \<lparr>ck_check_id = ls_lease_check_id s, ck_tcp = [], ck_interval = [],
              ck_ttl = duration_string (st_agent_lease_ttl st), ck_deregister_after = after\<rparr>]\<rparr>)"

definition service_instance_from_entry :: "service_entry option \<Rightarrow> service_instance option" where
  "service_instance_from_entry entry =
     (case entry of None \<Rightarrow> None | Some e \<Rightarrow>
      case se_service e of None \<Rightarrow> None | Some s \<Rightarrow>
        let own = trim_space (as_address s);
            address = (if own = [] then (case se_node_address e of None \<Rightarrow> [] | Some a \<Rightarrow> trim_space a)
                       else own);
            meta = meta_get (as_meta s)
        in if address = [] \<or> as_port s \<le> 0 then None
           else Some \<lparr>si_instance_id = meta ''instance_id'', si_name = as_service s,
             si_namespace = meta ''namespace'', si_dns = meta ''dns'', si_env = meta ''env'',
             si_zone = meta ''zone'', si_version = meta ''version'', si_protocol = meta ''protocol'',
             si_address = address, si_port = as_port s,
             si_weight = parse_positive_int (meta ''weight'') 100,
             si_cluster = cluster_from_tags (as_tags s),
             si_route_config_ref = meta ''route_config_ref'',
             si_route_prefixes = unique_sorted_strings (split_on CHR '','' (meta ''route_prefixes''))\<rparr>)"

section \<open>Construction and local state\<close>

text \<open>\<open>uint64(time.Now().UTC().UnixMilli())\<close>.\<close>

definition unix_milli :: "instant \<Rightarrow> 64 word" where
  "unix_milli t = word_of_int (t div 1000000)"

definition new_instance_id :: "env \<Rightarrow> client \<Rightarrow> (go_error + string) \<times> client" where
  "new_instance_id w c =
     (let c1 = c\<lparr>history := history c @ [RandomRead]\<rparr>
      in case random_bytes w (history c) of
        None \<Rightarrow> (Inl (External ''rand''), c1)
      | Some buffer \<Rightarrow> (case now w c1 of (t, c2) \<Rightarrow> (Inr (instance_id buffer (unix_milli t)), c2)))"

definition new_with_client :: "env \<Rightarrow> settings \<Rightarrow> bool \<Rightarrow> client" where
  "new_with_client w s has_metrics =
     (let c0 = \<lparr>cl_settings = s, cl_has_agent = True, cl_has_health = True, cl_has_catalog = True,
                cl_has_kv = True, cl_has_metrics = has_metrics, cl_agent_id = build_agent_id s,
                cl_agent_run_id = [], cl_started_at = 0, cl_lease_running = False,
                cl_local_services = [], history = []\<rparr>;
          (run_id, c1) =
            (case new_instance_id w c0 of
               (Inr i, c) \<Rightarrow> (i, c)
             | (Inl _, c) \<Rightarrow> (case now w c of (t, c') \<Rightarrow> (''fallback-'' @ fmt_d t, c')));
          (t, c2) = now w c1
      in c2\<lparr>cl_agent_run_id := run_id, cl_started_at := t\<rparr>)"

text \<open>
  \<open>New\<close>: the fields it sets in the configuration of the Consul library (\<open>cc_timeout\<close> is the timeout of
  its HTTP client, if any), and the library's \<open>NewClient\<close>, which may refuse it, as a parameter.
\<close>

record consul_client_config =
  cc_address :: string
  cc_scheme :: string
  cc_datacenter :: string
  cc_timeout :: "duration option"

definition client_config :: "settings \<Rightarrow> consul_client_config" where
  "client_config s =
     \<lparr>cc_address = trim_space (st_address s), cc_scheme = trim_space (st_scheme s),
      cc_datacenter = trim_space (st_datacenter s),
      cc_timeout = (if 0 < st_request_timeout s then Some (st_request_timeout s) else None)\<rparr>"

definition new_registry ::
    "(consul_client_config \<Rightarrow> go_error option) \<Rightarrow> env \<Rightarrow> settings \<Rightarrow> bool \<Rightarrow> go_error + client" where
  "new_registry new_client w s has_metrics =
     (case new_client (client_config s) of
        Some err \<Rightarrow> Inl err
      | None \<Rightarrow> Inr (new_with_client w s has_metrics))"

definition ensure_usable :: "client \<Rightarrow> go_error option" where
  "ensure_usable c =
     (if \<not> cl_has_agent c then Some (ApiMissing ''agent'')
      else if \<not> cl_has_health c then Some (ApiMissing ''health'')
      else if \<not> cl_has_catalog c then Some (ApiMissing ''catalog'')
      else if \<not> cl_has_kv c then Some (ApiMissing ''kv'')
      else None)"

definition find_local_service :: "client \<Rightarrow> string \<Rightarrow> int \<Rightarrow> local_service option" where
  "find_local_service c name port = map_of (cl_local_services c) (local_key name port)"

definition store_local_service :: "local_service \<Rightarrow> client \<Rightarrow> client" where
  "store_local_service s c =
     c\<lparr>cl_local_services :=
        AList.update (local_key (rr_name (ls_request s)) (rr_port (ls_request s))) s
          (cl_local_services c)\<rparr>"

definition active_local_services :: "env \<Rightarrow> client \<Rightarrow> local_service list" where
  "active_local_services w c =
     filter (\<lambda>s. ls_state s \<noteq> StateDeregistered)
       (map snd (range_services w (history c) (cl_local_services c)))"

section \<open>Leases\<close>

definition pass_lease :: "env \<Rightarrow> client \<Rightarrow> local_service \<Rightarrow> (go_error + unit) \<times> client" where
  "pass_lease w c s = call w c (UpdateTTL (ls_lease_check_id s) ''agent ownership is healthy'' ''passing'')"

text \<open>One tick of \<open>leaseLoop\<close>: a failed refresh is logged and the others still happen.\<close>

fun renew_leases :: "env \<Rightarrow> client \<Rightarrow> local_service list \<Rightarrow> client" where
  "renew_leases w c [] = c"
| "renew_leases w c (s # ss) = renew_leases w (snd (pass_lease w c s)) ss"

definition lease_tick :: "env \<Rightarrow> client \<Rightarrow> client" where
  "lease_tick w c = renew_leases w c (active_local_services w c)"

section \<open>Start and Shutdown\<close>

definition stale_entry :: "client \<Rightarrow> service_entry option \<Rightarrow> string option" where
  "stale_entry c entry =
     (case entry of None \<Rightarrow> None | Some e \<Rightarrow>
      case se_service e of None \<Rightarrow> None | Some s \<Rightarrow>
        if trim_space (meta_get (as_meta s) ''agent_id'') \<noteq> cl_agent_id c then None
        else if trim_space (meta_get (as_meta s) ''agent_run_id'') = cl_agent_run_id c then None
        else Some (as_id s))"

fun cleanup_entries :: "env \<Rightarrow> client \<Rightarrow> service_entry option list \<Rightarrow> (go_error + unit) \<times> client" where
  "cleanup_entries w c [] = (Inr (), c)"
| "cleanup_entries w c (entry # entries) =
     (case stale_entry c entry of
        None \<Rightarrow> cleanup_entries w c entries
      | Some iid \<Rightarrow> and_then (call w c (ServiceDeregister iid)) (\<lambda>_ c'. cleanup_entries w c' entries))"

fun cleanup_names :: "env \<Rightarrow> client \<Rightarrow> string list \<Rightarrow> (go_error + unit) \<times> client" where
  "cleanup_names w c [] = (Inr (), c)"
| "cleanup_names w c (name # names) =
     (let entries = health_entries w (history c) name False
      in and_then (call w c (HealthService name False))
           (\<lambda>_ c1. and_then (cleanup_entries w c1 entries) (\<lambda>_ c2. cleanup_names w c2 names)))"

definition cleanup_previous_runs :: "env \<Rightarrow> client \<Rightarrow> (go_error + unit) \<times> client" where
  "cleanup_previous_runs w c =
     (let names = catalog_names w (history c)
      in and_then (call w c CatalogServices) (\<lambda>_ c1. cleanup_names w c1 names))"

definition start :: "env \<Rightarrow> client \<Rightarrow> (go_error + unit) \<times> client" where
  "start w c =
     (case ensure_usable c of
        Some e \<Rightarrow> (Inl e, c)
      | None \<Rightarrow> and_then (cleanup_previous_runs w c) (\<lambda>_ c1. (Inr (), c1\<lparr>cl_lease_running := True\<rparr>)))"

fun deregister_all :: "env \<Rightarrow> client \<Rightarrow> local_service list \<Rightarrow> (go_error + unit) \<times> client" where
  "deregister_all w c [] = (Inr (), c)"
| "deregister_all w c (s # ss) =
     and_then (call w c (ServiceDeregister (ls_instance_id s)))
       (\<lambda>_ c1. case now w c1 of (t, c2) \<Rightarrow>
          deregister_all w
            (store_local_service (s\<lparr>ls_state := StateDeregistered, ls_updated_at := t\<rparr>) c2) ss)"

definition shutdown :: "env \<Rightarrow> client \<Rightarrow> (go_error + unit) \<times> client" where
  "shutdown w c =
     (let c1 = c\<lparr>cl_lease_running := False\<rparr> in deregister_all w c1 (active_local_services w c1))"

section \<open>Register\<close>

definition ensure_route_document ::
    "env \<Rightarrow> client \<Rightarrow> string \<Rightarrow> route_document \<Rightarrow> (go_error + unit) \<times> client" where
  "ensure_route_document w c key doc =
     (let existing = kv_value w (history c) key
      in and_then (call w c (KVGet key)) (\<lambda>_ c1.
           let check =
             (case existing of
                None \<Rightarrow> None
              | Some value \<Rightarrow>
                  if value = [] then None
                  else (case unmarshal_doc w value of
                          Inl e \<Rightarrow> Some e
                        | Inr old \<Rightarrow> if \<not> route_equal old doc then Some (RouteConflict key) else None))
           in case check of
             Some e \<Rightarrow> (Inl e, c1)
           | None \<Rightarrow> (case marshal_document w doc of
                        Inl e \<Rightarrow> (Inl e, c1)
                      | Inr payload \<Rightarrow> call w c1 (KVPut key payload))))"

text \<open>The same request again: the lease is refreshed and the stored instance returned.\<close>

definition register_replay :: "env \<Rightarrow> client \<Rightarrow> local_service \<Rightarrow> (go_error + local_service) \<times> client" where
  "register_replay w c existing =
     and_then (pass_lease w c existing) (\<lambda>_ c1.
       case now w c1 of (t, c2) \<Rightarrow>
         let s = existing\<lparr>ls_updated_at := t\<rparr> in (Inr s, store_local_service s c2))"

text \<open>A changed request: the old instance is removed first.\<close>

definition register_retire :: "env \<Rightarrow> client \<Rightarrow> local_service \<Rightarrow> (go_error + unit) \<times> client" where
  "register_retire w c existing =
     and_then (call w c (ServiceDeregister (ls_instance_id existing))) (\<lambda>_ c1.
       case now w c1 of (t, c2) \<Rightarrow>
         (Inr (), store_local_service (existing\<lparr>ls_state := StateDeregistered, ls_updated_at := t\<rparr>) c2))"

definition route_document_for :: "register_request \<Rightarrow> instant \<Rightarrow> route_document" where
  "route_document_for r t =
     \<lparr>rd_service = rr_name r, rd_version = rr_version r, rd_updated_at = t,
      rd_namespace = rr_namespace r, rd_port = rr_port r, rd_protocol = rr_protocol r,
      rd_prefixes = extract_route_prefixes (rr_methods r),
      rd_exact_paths = unique_sorted_strings (rr_methods r)\<rparr>"

definition new_local_service :: "client \<Rightarrow> register_request \<Rightarrow> string \<Rightarrow> instant \<Rightarrow> local_service" where
  "new_local_service c r iid t =
     \<lparr>ls_request = r, ls_instance_id = iid, ls_agent_id = cl_agent_id c,
      ls_agent_run_id = cl_agent_run_id c, ls_address = trim_space (st_host_ip (cl_settings c)),
      ls_zone = trim_space (st_zone (cl_settings c)),
      ls_route_prefixes = extract_route_prefixes (rr_methods r),
      ls_route_config_ref = route_config_ref (cl_settings c) (rr_env r) (rr_namespace r) (rr_name r),
      ls_lease_check_id = lease_check_id_for iid, ls_state = StateRegistered,
      ls_registered_at = t, ls_updated_at = t, ls_drain_deadline = None\<rparr>"

text \<open>
  The rest of \<open>Register\<close> in two steps: the route document and the instance id, then the instance
  itself, registered, its lease refreshed, and stored as serving.
\<close>

definition register_instance ::
    "env \<Rightarrow> client \<Rightarrow> register_request \<Rightarrow> string \<Rightarrow> (go_error + local_service) \<times> client" where
  "register_instance w c r iid =
     (case now w c of (t, c1) \<Rightarrow>
        let s = new_local_service c1 r iid t
        in and_then (call w c1 (ServiceRegister (registration_for c1 s))) (\<lambda>_ c2.
           and_then (pass_lease w c2 s) (\<lambda>_ c3.
           case now w c3 of (t', c4) \<Rightarrow>
             let s' = s\<lparr>ls_state := StateServing, ls_updated_at := t'\<rparr>
             in (Inr s', count RegisterTotal (store_local_service s' c4)))))"

definition register_fresh :: "env \<Rightarrow> client \<Rightarrow> register_request \<Rightarrow> (go_error + local_service) \<times> client" where
  "register_fresh w c r =
     (case now w c of (t, c1) \<Rightarrow>
      and_then
        (ensure_route_document w c1
           (route_config_ref (cl_settings c) (rr_env r) (rr_namespace r) (rr_name r))
           (route_document_for r t)) (\<lambda>_ c2.
      and_then (new_instance_id w c2) (\<lambda>iid c3. register_instance w c3 r iid)))"

definition register :: "env \<Rightarrow> client \<Rightarrow> register_request \<Rightarrow> (go_error + local_service) \<times> client" where
  "register w c r =
     (case validate_register (range_fields w (history c)) r of
        Some e \<Rightarrow> (Inl e, c)
      | None \<Rightarrow>
          (case find_local_service c (rr_name r) (rr_port r) of
             None \<Rightarrow> register_fresh w c r
           | Some existing \<Rightarrow>
               if ls_state existing = StateDeregistered then register_fresh w c r
               else if same_register_request (ls_request existing) r then register_replay w c existing
               else and_then (register_retire w c existing) (\<lambda>_ c1. register_fresh w c1 r)))"

section \<open>Drain and Deregister\<close>

definition drain :: "env \<Rightarrow> client \<Rightarrow> drain_request \<Rightarrow> (go_error + local_service) \<times> client" where
  "drain w c r =
     (case validate_drain r of
        Some e \<Rightarrow> (Inl e, c)
      | None \<Rightarrow>
      case grace_period r of
        Inl e \<Rightarrow> (Inl e, c)
      | Inr grace \<Rightarrow>
      case find_local_service c (dr_name r) (dr_port r) of
        None \<Rightarrow> (Inl (ServiceNotFound (dr_name r) (dr_port r)), c)
      | Some s \<Rightarrow>
          and_then (call w c (EnableServiceMaintenance (ls_instance_id s) ''draining by sidecar-agent''))
            (\<lambda>_ c1. case now w c1 of (t, c2) \<Rightarrow> case now w c2 of (t', c3) \<Rightarrow>
               let s' = s\<lparr>ls_state := StateDraining, ls_updated_at := t',
                          ls_drain_deadline := Some (t + grace)\<rparr>
               in (Inr s', count DrainTotal
                     (c3\<lparr>cl_local_services :=
                        AList.update (local_key (dr_name r) (dr_port r)) s' (cl_local_services c3)\<rparr>))))"

definition deregister :: "env \<Rightarrow> client \<Rightarrow> deregister_request \<Rightarrow> (go_error + local_service) \<times> client" where
  "deregister w c r =
     (case validate_deregister r of
        Some e \<Rightarrow> (Inl e, c)
      | None \<Rightarrow>
      case find_local_service c (de_name r) (de_port r) of
        None \<Rightarrow> (Inl (ServiceNotFound (de_name r) (de_port r)), c)
      | Some s \<Rightarrow>
          and_then (call w c (ServiceDeregister (ls_instance_id s)))
            (\<lambda>_ c1. case now w c1 of (t, c2) \<Rightarrow>
               let s' = s\<lparr>ls_state := StateDeregistered, ls_updated_at := t, ls_drain_deadline := None\<rparr>
               in (Inr s', count DeregisterTotal
                     (c2\<lparr>cl_local_services :=
                        AList.update (local_key (de_name r) (de_port r)) s' (cl_local_services c2)\<rparr>))))"

section \<open>Queries\<close>

text \<open>\<open>LocalServices\<close>: a copy of the map's values, by name and then by port.\<close>

definition service_order :: "local_service \<Rightarrow> string \<times> int" where
  "service_order s = (rr_name (ls_request s), rr_port (ls_request s))"

definition local_services_list :: "env \<Rightarrow> client \<Rightarrow> local_service list" where
  "local_services_list w c =
     sort_key service_order (map snd (range_services w (history c) (cl_local_services c)))"

text \<open>\<open>Discover\<close>: the healthy instances of every service, of this agent's environment only.\<close>

definition visible_instance :: "client \<Rightarrow> service_entry option \<Rightarrow> service_instance option" where
  "visible_instance c entry =
     (case service_instance_from_entry entry of
        None \<Rightarrow> None
      | Some i \<Rightarrow>
          if trim_space (si_env i) \<noteq> trim_space (st_env (cl_settings c)) then None else Some i)"

fun discover_names ::
    "env \<Rightarrow> client \<Rightarrow> service_instance list \<Rightarrow> string list \<Rightarrow>
     (go_error + service_instance list) \<times> client" where
  "discover_names w c instances [] = (Inr instances, c)"
| "discover_names w c instances (name # names) =
     (let entries = health_entries w (history c) name True
      in and_then (call w c (HealthService name True)) (\<lambda>_ c1.
           discover_names w c1 (instances @ List.map_filter (visible_instance c) entries) names))"

definition discover :: "env \<Rightarrow> client \<Rightarrow> (go_error + service_instance list) \<times> client" where
  "discover w c =
     (let names = catalog_names w (history c)
      in and_then (call w c CatalogServices) (\<lambda>_ c1.
         and_then (discover_names w c1 [] names) (\<lambda>instances c2.
           (Inr (sort_instances w instances), c2))))"

end
