(* ===== verification/Registry_Invariant.thy ===== *)
theory Registry_Invariant
  imports Registry
begin

text \<open>
  The invariant of the registry client and its reachable states. \<open>quiet\<close> relates states that
  differ in the history only, \<open>evolves\<close> adds writes to the local services; both compose, and the
  collection \<open>evolves_intros\<close> derives them for every operation. The locale \<open>registry_operation\<close> is
  the contract all operations share; each is an interpretation of it.
\<close>

named_theorems evolves_intros \<open>how each operation changes the client\<close>

section \<open>Only the history changes\<close>

definition quiet :: "client \<Rightarrow> client \<Rightarrow> bool" where
  "quiet c c' \<longleftrightarrow> (\<exists>h. c' = c\<lparr>history := history c @ h\<rparr>)"

lemma quietI: "quiet c (c\<lparr>history := history c @ h\<rparr>)"
  unfolding quiet_def by blast

lemma quiet_refl [simp]: "quiet c c"
  using quietI [of c "[]"] by simp

lemma quiet_trans: "quiet c d \<Longrightarrow> quiet d e \<Longrightarrow> quiet c e"
  unfolding quiet_def by (elim exE) (simp, metis)

lemma quiet_frame:
  assumes "quiet c c'"
  shows "cl_settings c' = cl_settings c" "cl_agent_id c' = cl_agent_id c"
    "cl_agent_run_id c' = cl_agent_run_id c" "cl_started_at c' = cl_started_at c"
    "cl_local_services c' = cl_local_services c" "cl_lease_running c' = cl_lease_running c"
    "cl_has_metrics c' = cl_has_metrics c" "prefix (history c) (history c')"
proof -
  obtain h where "c' = c\<lparr>history := history c @ h\<rparr>"
    using assms unfolding quiet_def by blast
  then show "cl_settings c' = cl_settings c" "cl_agent_id c' = cl_agent_id c"
    "cl_agent_run_id c' = cl_agent_run_id c" "cl_started_at c' = cl_started_at c"
    "cl_local_services c' = cl_local_services c" "cl_lease_running c' = cl_lease_running c"
    "cl_has_metrics c' = cl_has_metrics c" "prefix (history c) (history c')"
    by simp_all
qed

lemma call_quiet: "quiet c (snd (call w c a))"
  by (simp add: call_def quietI Let_def split: option.split)

lemma now_quiet: "quiet c (snd (now w c))"
  by (simp add: now_def quietI)

lemma count_quiet: "quiet c (count k c)"
  by (simp add: count_def quietI)

lemma and_then_quiet:
  assumes "quiet c (snd m)" "\<And>x s. m = (Inr x, s) \<Longrightarrow> quiet s (snd (k x s))"
  shows "quiet c (snd (and_then m k))"
  using assms by (cases "(m, k)" rule: and_then.cases) (auto intro: quiet_trans)

lemma pass_lease_quiet: "quiet c (snd (pass_lease w c s))"
  by (simp add: pass_lease_def call_quiet)

lemma new_instance_id_quiet: "quiet c (snd (new_instance_id w c))"
  using quietI [of c "[RandomRead, ClockRead]"]
  by (simp add: new_instance_id_def now_def quietI Let_def split: option.split)

lemma ensure_route_document_quiet: "quiet c (snd (ensure_route_document w c key doc))"
  unfolding ensure_route_document_def Let_def
  by (intro and_then_quiet call_quiet) (auto split: option.split sum.split simp: call_quiet)

lemma renew_leases_quiet: "quiet c (renew_leases w c ss)"
  by (induction ss arbitrary: c) (auto intro: quiet_trans pass_lease_quiet)

lemma cleanup_entries_quiet: "quiet c (snd (cleanup_entries w c es))"
  by (induction es arbitrary: c) (auto split: option.split intro!: and_then_quiet call_quiet)

lemma cleanup_names_quiet: "quiet c (snd (cleanup_names w c ns))"
  by (induction ns arbitrary: c)
    (auto simp: Let_def intro!: and_then_quiet call_quiet cleanup_entries_quiet)

lemma cleanup_previous_runs_quiet: "quiet c (snd (cleanup_previous_runs w c))"
  unfolding cleanup_previous_runs_def Let_def
  by (intro and_then_quiet call_quiet cleanup_names_quiet)

lemma discover_names_quiet: "quiet c (snd (discover_names w c is ns))"
  by (induction ns arbitrary: c "is") (auto simp: Let_def intro!: and_then_quiet call_quiet)

lemma discover_quiet: "quiet c (snd (discover w c))"
  unfolding discover_def Let_def
  by (intro and_then_quiet call_quiet discover_names_quiet) simp

section \<open>The invariant\<close>

text \<open>
  A stored service sits under its own key, was valid when it was registered, belongs to this run
  of this agent, and carries what the agent derives from its request. \<open>StateInit\<close> and
  \<open>StateRegistered\<close> are never stored; a deadline is set while draining and not while serving.
\<close>

definition service_ok :: "client \<Rightarrow> string \<Rightarrow> local_service \<Rightarrow> bool" where
  "service_ok c k s \<longleftrightarrow>
     (let r = ls_request s in
      k = local_key (rr_name r) (rr_port r) \<and> valid_register r \<and>
      ls_agent_id s = cl_agent_id c \<and> ls_agent_run_id s = cl_agent_run_id c \<and>
      ls_address s = trim_space (st_host_ip (cl_settings c)) \<and>
      ls_zone s = trim_space (st_zone (cl_settings c)) \<and>
      ls_route_prefixes s = extract_route_prefixes (rr_methods r) \<and>
      ls_route_config_ref s =
        route_config_ref (cl_settings c) (rr_env r) (rr_namespace r) (rr_name r) \<and>
      ls_lease_check_id s = lease_check_id_for (ls_instance_id s) \<and>
      ls_state s \<in> {StateServing, StateDraining, StateDeregistered} \<and>
      (ls_state s = StateServing \<longrightarrow> ls_drain_deadline s = None) \<and>
      (ls_state s = StateDraining \<longrightarrow> ls_drain_deadline s \<noteq> None))"

definition client_inv :: "client \<Rightarrow> bool" where
  "client_inv c \<longleftrightarrow>
     distinct (map fst (cl_local_services c)) \<and>
     (\<forall>(k, s) \<in> set (cl_local_services c). service_ok c k s)"

definition same_identity :: "client \<Rightarrow> client \<Rightarrow> bool" where
  "same_identity c c' \<longleftrightarrow>
     cl_settings c' = cl_settings c \<and> cl_agent_id c' = cl_agent_id c \<and>
     cl_agent_run_id c' = cl_agent_run_id c \<and> cl_started_at c' = cl_started_at c \<and>
     cl_has_metrics c' = cl_has_metrics c"

definition evolves :: "client \<Rightarrow> client \<Rightarrow> bool" where
  "evolves c c' \<longleftrightarrow>
     same_identity c c' \<and> prefix (history c) (history c') \<and> (client_inv c \<longrightarrow> client_inv c')"

lemma evolves_refl [simp]: "evolves c c"
  by (simp add: evolves_def same_identity_def)

lemma evolves_trans: "evolves c d \<Longrightarrow> evolves d e \<Longrightarrow> evolves c e"
  by (auto simp: evolves_def same_identity_def intro: prefix_order.trans)

lemma client_inv_cong:
  "same_identity c c' \<Longrightarrow> cl_local_services c' = cl_local_services c \<Longrightarrow> client_inv c' = client_inv c"
  by (simp add: client_inv_def service_ok_def same_identity_def Let_def)

lemma quiet_evolves: "quiet c c' \<Longrightarrow> evolves c c'"
  using client_inv_cong [of c c'] by (simp add: evolves_def same_identity_def quiet_frame)

lemma lease_running_evolves: "evolves c (c\<lparr>cl_lease_running := b\<rparr>)"
  using client_inv_cong [of c "c\<lparr>cl_lease_running := b\<rparr>"] by (simp add: evolves_def same_identity_def)

lemma and_then_evolves:
  assumes "evolves c (snd m)" "\<And>x s. m = (Inr x, s) \<Longrightarrow> evolves s (snd (k x s))"
  shows "evolves c (snd (and_then m k))"
  using assms by (cases "(m, k)" rule: and_then.cases) (auto intro: evolves_trans)

lemma service_ok_cong: "same_identity c c' \<Longrightarrow> service_ok c' k s = service_ok c k s"
  by (simp add: service_ok_def same_identity_def Let_def)

lemma store_evolves:
  assumes "service_ok c k s"
  shows "evolves c (c\<lparr>cl_local_services := AList.update k s (cl_local_services c)\<rparr>)" (is "evolves c ?c")
proof -
  have same: "same_identity c ?c"
    by (simp add: same_identity_def)
  moreover have "client_inv ?c" if inv: "client_inv c"
  proof -
    have "distinct (map fst (cl_local_services ?c))"
      using inv by (simp add: client_inv_def distinct_update)
    moreover have "service_ok c k' s'" if new: "(k', s') \<in> set (cl_local_services ?c)" for k' s'
    proof -
      have "distinct (map fst (cl_local_services c))"
        using inv by (simp add: client_inv_def)
      then consider "k' = k" "s' = s" | "(k', s') \<in> set (cl_local_services c)"
        using set_update_cases [of k' s' k s "cl_local_services c"] new by auto
      then show ?thesis
        using inv assms by cases (auto simp: client_inv_def)
    qed
    ultimately show ?thesis
      by (auto simp: client_inv_def service_ok_cong [OF same])
  qed
  ultimately show ?thesis
    by (simp add: evolves_def)
qed

lemma store_local_service_evolves:
  "service_ok c (local_key (rr_name (ls_request s)) (rr_port (ls_request s))) s \<Longrightarrow>
     evolves c (store_local_service s c)"
  unfolding store_local_service_def by (rule store_evolves)

lemma quiet_service_ok: "quiet c c' \<Longrightarrow> service_ok c' k s = service_ok c k s"
  by (rule service_ok_cong) (simp add: same_identity_def quiet_frame)

lemma local_service_ok: "client_inv c \<Longrightarrow> find_local_service c n p = Some s \<Longrightarrow> service_ok c (local_key n p) s"
  by (auto simp: client_inv_def find_local_service_def dest: map_of_SomeD)

lemma active_service_ok:
  assumes "client_inv c" "go_runtime w" "s \<in> set (active_local_services w c)"
  shows "service_ok c (local_key (rr_name (ls_request s)) (rr_port (ls_request s))) s"
    and "ls_state s \<noteq> StateDeregistered"
  using assms
  by (auto simp: client_inv_def active_local_services_def go_runtime_def permutes_set service_ok_def Let_def)

section \<open>Every operation preserves the invariant\<close>

lemma and_then_quiet_evolves:
  assumes "quiet c (snd m)" "\<And>x s. m = (Inr x, s) \<Longrightarrow> quiet c s \<Longrightarrow> evolves s (snd (k x s))"
  shows "evolves c (snd (and_then m k))"
proof (rule and_then_evolves)
  show "evolves s (snd (k x s))" if "m = (Inr x, s)" for x s
    using that assms by auto
qed (rule quiet_evolves, rule assms(1))

lemma evolves_count: "evolves c c' \<Longrightarrow> evolves c (count k c')"
  by (rule evolves_trans [OF _ quiet_evolves [OF count_quiet]])

lemma service_ok_touch:
  "service_ok c k s \<Longrightarrow> service_ok c k (s\<lparr>ls_updated_at := t\<rparr>)"
  "service_ok c k s \<Longrightarrow> service_ok c k (s\<lparr>ls_state := StateDeregistered, ls_updated_at := t\<rparr>)"
  "service_ok c k s \<Longrightarrow>
     service_ok c k (s\<lparr>ls_state := StateDeregistered, ls_updated_at := t, ls_drain_deadline := None\<rparr>)"
  "service_ok c k s \<Longrightarrow>
     service_ok c k (s\<lparr>ls_state := StateDraining, ls_updated_at := t, ls_drain_deadline := Some d\<rparr>)"
  by (simp_all add: service_ok_def Let_def)

lemma service_ok_new:
  "valid_register r \<Longrightarrow> service_ok c (local_key (rr_name r) (rr_port r))
     ((new_local_service c r iid t)\<lparr>ls_state := StateServing, ls_updated_at := t'\<rparr>)"
  by (simp add: service_ok_def new_local_service_def)

text \<open>Reading the clock and then going on from the new state.\<close>

lemma now_case_evolves:
  assumes "\<And>t c1. quiet c c1 \<Longrightarrow> evolves c1 (snd (f t c1))"
  shows "evolves c (snd (case now w c of (t, c1) \<Rightarrow> f t c1))"
proof -
  have "evolves c (snd (now w c))"
    by (rule quiet_evolves) (rule now_quiet)
  moreover have "quiet c (snd (now w c))"
    by (rule now_quiet)
  ultimately show ?thesis
    using assms by (auto split: prod.split intro: evolves_trans)
qed

lemma store_quiet_evolves:
  assumes "quiet c c'" "service_ok c (local_key (rr_name (ls_request s)) (rr_port (ls_request s))) s"
  shows "evolves c' (store_local_service s c')"
  using assms by (intro store_local_service_evolves) (simp add: quiet_service_ok)

lemma service_ok_own_key:
  "service_ok c k s \<Longrightarrow> service_ok c (local_key (rr_name (ls_request s)) (rr_port (ls_request s))) s"
  by (simp add: service_ok_def Let_def)

lemma register_replay_evolves:
  assumes "service_ok c k existing"
  shows "evolves c (snd (register_replay w c existing))"
  unfolding register_replay_def Let_def
proof (intro and_then_quiet_evolves pass_lease_quiet now_case_evolves)
  fix s t c1
  assume "quiet c s" "quiet s c1"
  then have "quiet c c1" by (rule quiet_trans)
  then show "evolves c1 (snd (Inr (existing\<lparr>ls_updated_at := t\<rparr>),
      store_local_service (existing\<lparr>ls_updated_at := t\<rparr>) c1))"
    using service_ok_touch(1) [OF service_ok_own_key [OF assms]] by (simp add: store_quiet_evolves)
qed

lemma register_retire_evolves:
  assumes "service_ok c k existing"
  shows "evolves c (snd (register_retire w c existing))"
  unfolding register_retire_def
proof (intro and_then_quiet_evolves call_quiet now_case_evolves)
  fix s t c1
  assume "quiet c s" "quiet s c1"
  then have "quiet c c1" by (rule quiet_trans)
  then show "evolves c1 (snd (Inr (), store_local_service
      (existing\<lparr>ls_state := StateDeregistered, ls_updated_at := t\<rparr>) c1))"
    using service_ok_touch(2) [OF service_ok_own_key [OF assms]] by (simp add: store_quiet_evolves)
qed

lemma register_fresh_evolves:
  assumes "valid_register r"
  shows "evolves c (snd (register_fresh w c r))"
  unfolding register_fresh_def register_instance_def Let_def
proof (intro now_case_evolves and_then_quiet_evolves call_quiet pass_lease_quiet
    ensure_route_document_quiet new_instance_id_quiet)
  fix iid t c3 c4 c5 t' c6
  assume "quiet c3 c4" "quiet c4 c5" "quiet c5 c6"
  then have quiet: "quiet c3 c6"
    by (blast intro: quiet_trans)
  let ?s = "(new_local_service c3 r iid t)\<lparr>ls_state := StateServing, ls_updated_at := t'\<rparr>"
  have "evolves c6 (store_local_service ?s c6)"
    using service_ok_new [OF assms, where c = c3 and iid = iid and t = t and t' = t'] quiet
    by (intro store_quiet_evolves [of c3]) (simp_all add: new_local_service_def)
  then show "evolves c6 (snd (Inr ?s, count RegisterTotal (store_local_service ?s c6)))"
    by (simp add: evolves_count)
qed

lemma register_evolves [evolves_intros]:
  assumes "go_runtime w" "client_inv c"
  shows "evolves c (snd (register w c r))"
proof (cases "validate_register (range_fields w (history c)) r")
  case None
  then have valid: "valid_register r"
    using assms(1) by (simp add: validate_register_iff go_runtime_def)
  show ?thesis
  proof (cases "find_local_service c (rr_name r) (rr_port r)")
    case (Some existing)
    then have "service_ok c (local_key (rr_name r) (rr_port r)) existing"
      using assms(2) by (simp add: local_service_ok)
    with None Some valid show ?thesis
      by (auto simp: register_def intro: register_fresh_evolves register_replay_evolves
          register_retire_evolves and_then_evolves)
  qed (simp add: register_def None register_fresh_evolves valid)
qed (simp add: register_def)

lemma drain_evolves [evolves_intros]:
  assumes "client_inv c"
  shows "evolves c (snd (drain w c r))"
proof (cases "find_local_service c (dr_name r) (dr_port r)")
  case (Some s)
  let ?k = "local_key (dr_name r) (dr_port r)"
  have ok: "service_ok c ?k s"
    using assms Some by (rule local_service_ok)
  show ?thesis
    unfolding drain_def Some option.case Let_def
  proof (cases "validate_drain r"; cases "grace_period r"; simp only: option.case sum.case snd_conv evolves_refl;
      intro and_then_quiet_evolves call_quiet now_case_evolves)
    fix grace c1 t c2 t' c3
    assume "quiet c c1" "quiet c1 c2" "quiet c2 c3"
    then have "quiet c c3" by (blast intro: quiet_trans)
    let ?s = "s\<lparr>ls_state := StateDraining, ls_updated_at := t', ls_drain_deadline := Some (t + grace)\<rparr>"
    let ?c = "c3\<lparr>cl_local_services := AList.update ?k ?s (cl_local_services c3)\<rparr>"
    have "evolves c3 ?c"
      using service_ok_touch(4) [OF ok] \<open>quiet c c3\<close> by (intro store_evolves) (simp add: quiet_service_ok)
    then show "evolves c3 (snd (Inr ?s, count DrainTotal ?c))"
      by (simp add: evolves_count)
  qed
qed (simp add: drain_def split: option.split sum.split)

lemma deregister_evolves [evolves_intros]:
  assumes "client_inv c"
  shows "evolves c (snd (deregister w c r))"
proof (cases "find_local_service c (de_name r) (de_port r)")
  case (Some s)
  let ?k = "local_key (de_name r) (de_port r)"
  have ok: "service_ok c ?k s"
    using assms Some by (rule local_service_ok)
  show ?thesis
    unfolding deregister_def Some option.case Let_def
  proof (cases "validate_deregister r"; simp only: option.case snd_conv evolves_refl;
      intro and_then_quiet_evolves call_quiet now_case_evolves)
    fix c1 t c2
    assume "quiet c c1" "quiet c1 c2"
    then have "quiet c c2" by (rule quiet_trans)
    let ?s = "s\<lparr>ls_state := StateDeregistered, ls_updated_at := t, ls_drain_deadline := None\<rparr>"
    let ?c = "c2\<lparr>cl_local_services := AList.update ?k ?s (cl_local_services c2)\<rparr>"
    have "evolves c2 ?c"
      using service_ok_touch(3) [OF ok] \<open>quiet c c2\<close> by (intro store_evolves) (simp add: quiet_service_ok)
    then show "evolves c2 (snd (Inr ?s, count DeregisterTotal ?c))"
      by (simp add: evolves_count)
  qed
qed (simp add: deregister_def split: option.split)

lemma deregister_all_evolves:
  assumes "\<forall>s \<in> set ss. service_ok c (local_key (rr_name (ls_request s)) (rr_port (ls_request s))) s"
  shows "evolves c (snd (deregister_all w c ss))"
  using assms
proof (induction ss arbitrary: c)
  case (Cons s ss)
  show ?case
    unfolding deregister_all.simps
  proof (intro and_then_quiet_evolves call_quiet now_case_evolves)
    fix c1 t c2
    assume "quiet c c1" "quiet c1 c2"
    then have quiet: "quiet c c2" by (rule quiet_trans)
    let ?c = "store_local_service (s\<lparr>ls_state := StateDeregistered, ls_updated_at := t\<rparr>) c2"
    have "service_ok c (local_key (rr_name (ls_request s)) (rr_port (ls_request s)))
        (s\<lparr>ls_state := StateDeregistered, ls_updated_at := t\<rparr>)"
      using Cons.prems by (intro service_ok_touch(2)) simp
    then have "evolves c2 ?c"
      using quiet by (intro store_quiet_evolves [of c]) simp_all
    moreover have "evolves ?c (snd (deregister_all w ?c ss))"
    proof (rule Cons.IH, rule ballI)
      fix s' assume "s' \<in> set ss"
      moreover have "same_identity c ?c"
        using quiet by (simp add: same_identity_def store_local_service_def quiet_frame)
      ultimately show "service_ok ?c (local_key (rr_name (ls_request s')) (rr_port (ls_request s'))) s'"
        using Cons.prems by (simp add: service_ok_cong)
    qed
    ultimately show "evolves c2 (snd (deregister_all w ?c ss))"
      by (rule evolves_trans)
  qed
qed simp

lemma shutdown_evolves [evolves_intros]:
  assumes "go_runtime w" "client_inv c"
  shows "evolves c (snd (shutdown w c))"
proof -
  let ?c = "c\<lparr>cl_lease_running := False\<rparr>"
  have run: "evolves c ?c" by (rule lease_running_evolves)
  then have "client_inv ?c" using assms(2) by (simp add: evolves_def)
  then have "evolves ?c (snd (deregister_all w ?c (active_local_services w ?c)))"
    using assms(1) active_service_ok(1) by (intro deregister_all_evolves ballI)
  with run show ?thesis
    unfolding shutdown_def Let_def by (rule evolves_trans)
qed

lemma start_evolves [evolves_intros]: "evolves c (snd (start w c))"
  unfolding start_def
  by (auto split: option.split intro!: and_then_quiet_evolves cleanup_previous_runs_quiet lease_running_evolves)

lemma lease_tick_evolves [evolves_intros]: "evolves c (lease_tick w c)"
  unfolding lease_tick_def by (rule quiet_evolves) (rule renew_leases_quiet)

lemma discover_evolves [evolves_intros]: "evolves c (snd (discover w c))"
  by (rule quiet_evolves) (rule discover_quiet)

section \<open>The contract of the operations, and the reachable states\<close>

text \<open>
  \<open>registry_operation\<close> is what a caller of the client may assume of one of its methods: from a
  state that satisfies the invariant it keeps the invariant and the identity of the agent, and
  its effects are appended to the history.
\<close>

locale registry_operation =
  fixes step :: "env \<Rightarrow> client \<Rightarrow> client"
  assumes step_evolves: "go_runtime w \<Longrightarrow> client_inv c \<Longrightarrow> evolves c (step w c)"
begin

lemma keeps_inv: "go_runtime w \<Longrightarrow> client_inv c \<Longrightarrow> client_inv (step w c)"
  using step_evolves by (simp add: evolves_def)

lemma keeps_identity: "go_runtime w \<Longrightarrow> client_inv c \<Longrightarrow> same_identity c (step w c)"
  using step_evolves by (simp add: evolves_def)

lemma history_grows: "go_runtime w \<Longrightarrow> client_inv c \<Longrightarrow> prefix (history c) (history (step w c))"
  using step_evolves by (simp add: evolves_def)

lemma repeated: "go_runtime w \<Longrightarrow> client_inv c \<Longrightarrow> evolves c ((step w ^^ n) c)"
proof (induction n)
  case (Suc n)
  then have "evolves c ((step w ^^ n) c)" by simp
  moreover from this have "client_inv ((step w ^^ n) c)"
    using Suc.prems by (simp add: evolves_def)
  then have "evolves ((step w ^^ n) c) (step w ((step w ^^ n) c))"
    using Suc.prems by (simp add: step_evolves)
  ultimately show ?case
    by (auto intro: evolves_trans)
qed simp

end

interpretation start_op: registry_operation "\<lambda>w c. snd (start w c)"
  by unfold_locales (rule start_evolves)

interpretation register_op: registry_operation "\<lambda>w c. snd (register w c r)" for r
  by unfold_locales (rule register_evolves)

interpretation drain_op: registry_operation "\<lambda>w c. snd (drain w c r)" for r
  by unfold_locales (rule drain_evolves)

interpretation deregister_op: registry_operation "\<lambda>w c. snd (deregister w c r)" for r
  by unfold_locales (rule deregister_evolves)

interpretation lease_op: registry_operation lease_tick
  by unfold_locales (rule lease_tick_evolves)

interpretation discover_op: registry_operation "\<lambda>w c. snd (discover w c)"
  by unfold_locales (rule discover_evolves)

interpretation shutdown_op: registry_operation "\<lambda>w c. snd (shutdown w c)"
  by unfold_locales (rule shutdown_evolves)

datatype command =
    CmdStart
  | CmdRegister register_request
  | CmdDrain drain_request
  | CmdDeregister deregister_request
  | CmdLeaseTick
  | CmdDiscover
  | CmdShutdown

text \<open>One method call, its result dropped: \<open>/register\<close>, \<open>/drain\<close> and so on in any order.\<close>

fun run_command :: "env \<Rightarrow> command \<Rightarrow> client \<Rightarrow> client" where
  "run_command w CmdStart c = snd (start w c)"
| "run_command w (CmdRegister r) c = snd (register w c r)"
| "run_command w (CmdDrain r) c = snd (drain w c r)"
| "run_command w (CmdDeregister r) c = snd (deregister w c r)"
| "run_command w CmdLeaseTick c = lease_tick w c"
| "run_command w CmdDiscover c = snd (discover w c)"
| "run_command w CmdShutdown c = snd (shutdown w c)"

definition run_commands :: "env \<Rightarrow> command list \<Rightarrow> client \<Rightarrow> client" where
  "run_commands w cmds c = fold (run_command w) cmds c"

interpretation command_op: registry_operation "\<lambda>w c. run_command w cmd c" for cmd
  by unfold_locales (cases cmd; simp add: evolves_intros)

lemma new_with_client_inv: "client_inv (new_with_client w st has_metrics)"
  by (simp add: new_with_client_def new_instance_id_def now_def client_inv_def Let_def
      split: option.split prod.split sum.split)

interpretation run_op: registry_operation "\<lambda>w c. run_commands w cmds c" for cmds
proof
  fix w c
  assume "go_runtime w"
  then show "client_inv c \<Longrightarrow> evolves c (run_commands w cmds c)"
  proof (induction cmds arbitrary: c)
    case (Cons cmd cmds)
    then have "evolves c (run_command w cmd c)" "client_inv (run_command w cmd c)"
      by (simp_all add: command_op.step_evolves command_op.keeps_inv)
    then show ?case
      using Cons by (auto simp: run_commands_def intro: evolves_trans)
  qed (simp add: run_commands_def)
qed

end
