(* ===== verification/Xds_Snapshot.thy ===== *)
theory Xds_Snapshot
  imports Service_Model Go_Net
begin

text \<open>
  The snapshot builder of \<open>src/xds/snapshot.go\<close>. The Envoy protobuf messages are records of the
  fields the code sets (a constant such as \<open>Cluster_EDS\<close> is its name); \<open>uint32\<close> fields are words, so
  that the conversions from \<open>int\<close> wrap. \<open>NewSnapshot\<close> and \<open>Consistent\<close> of go-control-plane, the clock
  and the orders of map iteration are parameters.
\<close>

section \<open>Settings, summary and resources\<close>

record builder_settings =
  bs_node_id :: string
  bs_listener_address :: string
  bs_route_name :: string
  bs_cluster_name_prefix :: string
  bs_local_cluster :: string
  bs_default_timeout :: duration
  bs_retry_attempts :: uint32
  bs_per_try_timeout :: duration
  bs_max_connections :: uint32
  bs_max_pending_requests :: uint32
  bs_max_requests :: uint32
  bs_consecutive_5xx :: uint32
  bs_base_ejection_time :: duration
  bs_max_ejection_percent :: uint32

text \<open>\<open>sm_published_at\<close> is \<open>None\<close> for the zero time.\<close>

record summary =
  sm_version :: "64 word"
  sm_listener_name :: string
  sm_route_name :: string
  sm_services :: "string list"
  sm_cluster_count :: nat
  sm_endpoint_count :: nat
  sm_published_at :: "instant option"

record builder =
  bd_settings :: builder_settings
  bd_version :: "64 word"
  bd_summary :: summary

record listener =
  ln_name :: string
  ln_address :: string
  ln_port :: uint32
  ln_stat_prefix :: string
  ln_route_config_name :: string
  ln_http_filters :: "string list"

record virtual_host =
  vh_name :: string
  vh_domains :: "string list"
  vh_match_prefix :: string
  vh_cluster :: string
  vh_timeout :: duration
  vh_retry_on :: string
  vh_num_retries :: uint32
  vh_per_try_timeout :: duration

record route_config =
  rc_name :: string
  rc_virtual_hosts :: "virtual_host list"

record cluster =
  cr_name :: string
  cr_discovery_type :: string
  cr_connect_timeout :: duration
  cr_max_connections :: uint32
  cr_max_pending_requests :: uint32
  cr_max_requests :: uint32
  cr_consecutive_5xx :: uint32
  cr_base_ejection_time :: duration
  cr_max_ejection_percent :: uint32
  cr_lb_policy :: string

record lb_endpoint =
  le_address :: string
  le_port :: uint32
  le_weight :: uint32

record locality_endpoints =
  lo_zone :: string
  lo_priority :: uint32
  lo_endpoints :: "lb_endpoint list"

record load_assignment =
  la_cluster_name :: string
  la_localities :: "locality_endpoints list"

record snapshot =
  sn_version :: string
  sn_endpoints :: "load_assignment list"
  sn_clusters :: "cluster list"
  sn_routes :: "route_config list"
  sn_listeners :: "listener list"

record service_group =
  sg_name :: string
  sg_namespace :: string
  sg_dns :: string
  sg_port :: int
  sg_instances :: "service_instance list"

section \<open>Grouping\<close>

text \<open>
  A Go map filled in a loop is an association list: an entry is created with \<open>make\<close> when its key
  is new, and then extended.
\<close>

definition extend_entry :: "string \<Rightarrow> 'v \<Rightarrow> ('v \<Rightarrow> 'v) \<Rightarrow> (string \<times> 'v) list \<Rightarrow> (string \<times> 'v) list" where
  "extend_entry k fresh f m = AList.update k (f (case map_of m k of None \<Rightarrow> fresh | Some v \<Rightarrow> v)) m"

definition instance_group_key :: "service_instance \<Rightarrow> string" where
  "instance_group_key i = si_name i @ ''|'' @ si_namespace i @ ''|'' @ fmt_d (si_port i)"

definition group_key :: "service_group \<Rightarrow> string" where
  "group_key g = sg_name g @ ''|'' @ sg_namespace g @ ''|'' @ fmt_d (sg_port g)"

definition group_of :: "service_instance \<Rightarrow> service_group" where
  "group_of i = \<lparr>sg_name = si_name i, sg_namespace = si_namespace i, sg_dns = si_dns i,
     sg_port = si_port i, sg_instances = []\<rparr>"

definition add_to_group :: "(string \<times> service_group) list \<Rightarrow> service_instance \<Rightarrow> (string \<times> service_group) list" where
  "add_to_group m i =
     extend_entry (instance_group_key i) (group_of i)
       (\<lambda>g. g\<lparr>sg_instances := sg_instances g @ [i]\<rparr>) m"

definition group_instances ::
    "((string \<times> service_group) list \<Rightarrow> (string \<times> service_group) list) \<Rightarrow> service_instance list \<Rightarrow> service_group list" where
  "group_instances ord instances =
     sort_key group_key (map snd (ord (foldl add_to_group [] instances)))"

section \<open>Resources\<close>

definition cluster_name :: "builder_settings \<Rightarrow> string \<Rightarrow> string \<Rightarrow> int \<Rightarrow> string" where
  "cluster_name st service namespace port =
     bs_cluster_name_prefix st @ ''.'' @ trim_space service @ ''.'' @ trim_space namespace @ ''.'' @ fmt_d port"

definition parse_port :: "string \<Rightarrow> int" where
  "parse_port raw = (case scan_d raw of None \<Rightarrow> 0 | Some p \<Rightarrow> p)"

definition build_listener :: "builder_settings \<Rightarrow> go_error + listener" where
  "build_listener st =
     (case split_host_port (bs_listener_address st) of
        Inl e \<Rightarrow> Inl e
      | Inr (host, port) \<Rightarrow> Inr
          \<lparr>ln_name = ''local-listener'', ln_address = host, ln_port = uint32_of (parse_port port),
           ln_stat_prefix = ''ingress_http'', ln_route_config_name = bs_route_name st,
           ln_http_filters = [''envoy.filters.http.router'']\<rparr>)"

definition build_virtual_host :: "builder_settings \<Rightarrow> string \<Rightarrow> string \<Rightarrow> int \<Rightarrow> virtual_host" where
  "build_virtual_host st name dns port =
     \<lparr>vh_name = name, vh_domains = [dns, dns @ '':'' @ fmt_d port], vh_match_prefix = ''/'',
      vh_cluster = name, vh_timeout = bs_default_timeout st, vh_retry_on = ''connect-failure,5xx,reset'',
      vh_num_retries = bs_retry_attempts st, vh_per_try_timeout = bs_per_try_timeout st\<rparr>"

definition build_cluster :: "builder_settings \<Rightarrow> string \<Rightarrow> cluster" where
  "build_cluster st name =
     \<lparr>cr_name = name, cr_discovery_type = ''EDS'', cr_connect_timeout = bs_default_timeout st,
      cr_max_connections = bs_max_connections st, cr_max_pending_requests = bs_max_pending_requests st,
      cr_max_requests = bs_max_requests st, cr_consecutive_5xx = bs_consecutive_5xx st,
      cr_base_ejection_time = bs_base_ejection_time st,
      cr_max_ejection_percent = bs_max_ejection_percent st, cr_lb_policy = ''ROUND_ROBIN''\<rparr>"

definition priority_of :: "builder_settings \<Rightarrow> service_instance \<Rightarrow> uint32" where
  "priority_of st i = (if trim_space (si_cluster i) = trim_space (bs_local_cluster st) then 0 else 1)"

definition locality_key :: "string \<Rightarrow> uint32 \<Rightarrow> string" where
  "locality_key zone priority = zone @ ''|'' @ fmt_d (uint priority)"

definition locality_order :: "locality_endpoints \<Rightarrow> string" where
  "locality_order l = fmt_d (uint (lo_priority l)) @ ''|'' @ lo_zone l"

definition endpoint_of :: "service_instance \<Rightarrow> lb_endpoint" where
  "endpoint_of i =
     \<lparr>le_address = si_address i, le_port = uint32_of (si_port i), le_weight = uint32_of (si_weight i)\<rparr>"

definition add_to_locality ::
    "builder_settings \<Rightarrow> (string \<times> locality_endpoints) list \<Rightarrow> service_instance \<Rightarrow>
     (string \<times> locality_endpoints) list" where
  "add_to_locality st m i =
     extend_entry (locality_key (si_zone i) (priority_of st i))
       \<lparr>lo_zone = si_zone i, lo_priority = priority_of st i, lo_endpoints = []\<rparr>
       (\<lambda>l. l\<lparr>lo_endpoints := lo_endpoints l @ [endpoint_of i]\<rparr>) m"

definition build_load_assignment ::
    "((string \<times> locality_endpoints) list \<Rightarrow> (string \<times> locality_endpoints) list) \<Rightarrow> builder_settings \<Rightarrow>
     string \<Rightarrow> service_instance list \<Rightarrow> load_assignment \<times> nat" where
  "build_load_assignment ord st name instances =
     (\<lparr>la_cluster_name = name,
       la_localities = sort_key locality_order (map snd (ord (foldl (add_to_locality st) [] instances)))\<rparr>,
      length instances)"

section \<open>The builder\<close>

record xds_env =
  xe_range_groups :: "(string \<times> service_group) list \<Rightarrow> (string \<times> service_group) list"
  xe_range_localities :: "(string \<times> locality_endpoints) list \<Rightarrow> (string \<times> locality_endpoints) list"
  xe_new_snapshot :: "snapshot \<Rightarrow> string option"
  xe_consistent :: "snapshot \<Rightarrow> string option"

definition xds_runtime :: "xds_env \<Rightarrow> bool" where
  "xds_runtime e \<longleftrightarrow> permutes_lists (xe_range_groups e) \<and> permutes_lists (xe_range_localities e)"

definition new_builder :: "builder_settings \<Rightarrow> builder" where
  "new_builder st =
     (let st' = (if trim_space (bs_cluster_name_prefix st) = []
                 then st\<lparr>bs_cluster_name_prefix := ''cluster''\<rparr> else st)
      in \<lparr>bd_settings = st', bd_version = 0,
          bd_summary = \<lparr>sm_version = 0, sm_listener_name = ''local-listener'',
            sm_route_name = bs_route_name st', sm_services = [], sm_cluster_count = 0,
            sm_endpoint_count = 0, sm_published_at = None\<rparr>\<rparr>)"

definition group_cluster :: "builder_settings \<Rightarrow> service_group \<Rightarrow> string" where
  "group_cluster st g = cluster_name st (sg_name g) (sg_namespace g) (sg_port g)"

definition resources ::
    "xds_env \<Rightarrow> builder_settings \<Rightarrow> 64 word \<Rightarrow> listener \<Rightarrow> service_group list \<Rightarrow> snapshot" where
  "resources e st version ln groups =
     \<lparr>sn_version = fmt_d (uint version),
      sn_endpoints = map (\<lambda>g. fst (build_load_assignment (xe_range_localities e) st (group_cluster st g)
        (sg_instances g))) groups,
      sn_clusters = map (\<lambda>g. build_cluster st (group_cluster st g)) groups,
      sn_routes = [\<lparr>rc_name = bs_route_name st,
        rc_virtual_hosts = map (\<lambda>g. build_virtual_host st (group_cluster st g) (sg_dns g) (sg_port g)) groups\<rparr>],
      sn_listeners = [ln]\<rparr>"

definition service_name :: "service_group \<Rightarrow> string" where
  "service_name g = sg_name g @ ''.'' @ sg_namespace g"

definition build ::
    "xds_env \<Rightarrow> instant \<Rightarrow> builder \<Rightarrow> service_instance list \<Rightarrow> (go_error + snapshot \<times> summary) \<times> builder" where
  "build e t b instances =
     (let st = bd_settings b;
          groups = group_instances (xe_range_groups e) instances
      in case build_listener st of
           Inl err \<Rightarrow> (Inl err, b)
         | Inr ln \<Rightarrow>
             let version = bd_version b + 1;
                 b1 = b\<lparr>bd_version := version\<rparr>;
                 snap = resources e st version ln groups
             in case xe_new_snapshot e snap of
                  Some err \<Rightarrow> (Inl (External err), b1)
                | None \<Rightarrow>
                    (case xe_consistent e snap of
                       Some err \<Rightarrow> (Inl (External err), b1)
                     | None \<Rightarrow>
                         let sm = \<lparr>sm_version = version, sm_listener_name = ''local-listener'',
                               sm_route_name = bs_route_name st,
                               sm_services = sort (map service_name groups),
                               sm_cluster_count = length (sn_clusters snap),
                               sm_endpoint_count = sum_list (map (\<lambda>g. snd (build_load_assignment
                                 (xe_range_localities e) st (group_cluster st g) (sg_instances g))) groups),
                               sm_published_at = Some t\<rparr>
                         in (Inr (snap, sm), b1\<lparr>bd_summary := sm\<rparr>)))"

text \<open>\<open>Summary\<close>, under the read lock: the summary of the latest build.\<close>

definition builder_summary :: "builder \<Rightarrow> summary" where
  "builder_summary b = bd_summary b"

end
