(* ===== verification/Xds_Grouping.thy ===== *)
theory Xds_Grouping
  imports Xds_Snapshot
begin

text \<open>
  What the two grouping loops of the snapshot builder compute. Both fill a map from keys to buckets
  and then sort the buckets; the locale \<open>bucketing\<close> states what the loops share, and its two
  interpretations give \<open>group_instances\<close> and \<open>build_load_assignment\<close> in closed form: as functions of
  the instances alone, without a map and its order of iteration.
\<close>

section \<open>Filling buckets\<close>

definition buckets :: "('x \<Rightarrow> string) \<Rightarrow> ('x \<Rightarrow> 'v) \<Rightarrow> ('x \<Rightarrow> 'v \<Rightarrow> 'v) \<Rightarrow> 'x list \<Rightarrow> (string \<times> 'v) list" where
  "buckets key fresh add xs = foldl (\<lambda>m x. extend_entry (key x) (fresh x) (add x) m) [] xs"

lemma buckets_Nil [simp]: "buckets key fresh add [] = []"
  by (simp add: buckets_def)

lemma buckets_snoc:
  "buckets key fresh add (xs @ [x]) = extend_entry (key x) (fresh x) (add x) (buckets key fresh add xs)"
  by (simp add: buckets_def)

lemma map_of_extend_entry:
  "map_of (extend_entry k v0 f m) = (map_of m)(k \<mapsto> f (case map_of m k of None \<Rightarrow> v0 | Some v \<Rightarrow> v))"
  by (simp add: extend_entry_def map_of_update)

lemma extend_entry_distinct: "distinct (map fst m) \<Longrightarrow> distinct (map fst (extend_entry k v0 f m))"
  by (simp add: extend_entry_def distinct_update)

lemma extend_entry_keys: "fst ` set (extend_entry k v0 f m) = insert k (fst ` set m)"
  by (simp add: extend_entry_def update_keys_set)

lemma buckets_distinct: "distinct (map fst (buckets key fresh add xs))"
  by (induction xs rule: rev_induct) (simp_all add: buckets_snoc extend_entry_distinct)

lemma buckets_keys: "fst ` set (buckets key fresh add xs) = key ` set xs"
  by (induction xs rule: rev_induct) (auto simp: buckets_snoc extend_entry_keys)

text \<open>
  A bucket has a label, fixed when it is made from its first element, and items, one per element:
  \<open>view\<close> is the pair of both. The key of an element is that of its label.
\<close>

lemma mset_set_ks:
  assumes "mset ks = mset_set S" "finite S"
  shows "set ks = S" "distinct ks"
proof -
  from assms show "set ks = S"
    by (metis finite_set_mset_mset_set set_mset_mset)
  moreover from assms have "count (mset ks) x \<le> 1" for x
    by (simp add: count_mset_set')
  ultimately show "distinct ks"
    using assms by (metis distinct_count_atmost_1 count_mset_set count_mset_0_iff count_eq_zero_iff set_mset_mset)
qed

locale bucketing =
  fixes key :: "'x \<Rightarrow> string" and fresh :: "'x \<Rightarrow> 'v" and add :: "'x \<Rightarrow> 'v \<Rightarrow> 'v"
    and make :: "'l \<Rightarrow> 'y list \<Rightarrow> 'v" and label :: "'x \<Rightarrow> 'l" and item :: "'x \<Rightarrow> 'y"
  assumes fresh_make: "fresh x = make (label x) []"
    and add_make: "add x (make l ys) = make l (ys @ [item x])"
begin

lemma bucket_value:
  "map_of (buckets key fresh add xs) k =
     (case filter (\<lambda>x. key x = k) xs of [] \<Rightarrow> None
      | x # rest \<Rightarrow> Some (make (label x) (map item (x # rest))))"
proof (induction xs arbitrary: k rule: rev_induct)
  case (snoc x xs)
  then show ?case
    by (auto simp: buckets_snoc map_of_extend_entry fresh_make add_make split: list.splits)
qed simp

lemma bucket_values:
  "mset (map snd (buckets key fresh add xs)) =
     image_mset (\<lambda>k. let ys = filter (\<lambda>x. key x = k) xs in make (label (hd ys)) (map item ys))
       (mset_set (key ` set xs))"
proof -
  let ?m = "buckets key fresh add xs"
  let ?f = "\<lambda>k. let ys = filter (\<lambda>x. key x = k) xs in make (label (hd ys)) (map item ys)"
  have "v = ?f k" if "(k, v) \<in> set ?m" for k v
  proof -
    have "map_of ?m k = Some v"
      by (rule map_of_is_SomeI [OF buckets_distinct that])
    then show ?thesis
      unfolding bucket_value by (auto simp: Let_def split: list.splits)
  qed
  then have "map snd ?m = map ?f (map fst ?m)"
    unfolding map_map by (intro map_cong refl) auto
  then have "mset (map snd ?m) = image_mset ?f (mset (map fst ?m))"
    by (metis mset_map)
  also have "mset (map fst ?m) = mset_set (key ` set xs)"
    using mset_set_set [OF buckets_distinct, of key fresh add xs] buckets_keys [of key fresh add xs]
    by simp
  finally show ?thesis .
qed

text \<open>Sorted by a function of the bucket that is injective on the keys in use, the buckets are determined.\<close>

lemma sorted_buckets:
  assumes "permutes_lists ord"
    and "\<And>x y. x \<in> set xs \<Longrightarrow> y \<in> set xs \<Longrightarrow> rank (label x) = rank (label y) \<Longrightarrow> key x = key y"
    and "\<And>l ys. sort_by (make l ys) = rank l"
    and "mset ks = mset_set (key ` set xs)" "sorted (map (\<lambda>k. rank (label (hd (filter (\<lambda>x. key x = k) xs)))) ks)"
  shows "sort_key sort_by (map snd (ord (buckets key fresh add xs))) =
    map (\<lambda>k. let ys = filter (\<lambda>x. key x = k) xs in make (label (hd ys)) (map item ys)) ks"
    (is "_ = map ?f ks")
proof (rule sort_key_unique [symmetric])
  show same: "mset (map ?f ks) = mset (map snd (ord (buckets key fresh add xs)))"
    by (simp only: mset_map [of ?f] assms(4) bucket_values [of xs, symmetric] mset_map [of snd]
        permutes_listsD [OF assms(1)])
  have rank: "sort_by (?f k) = rank (label (hd (filter (\<lambda>x. key x = k) xs)))" for k
    by (simp add: assms(3) Let_def)
  show "sorted (map sort_by (map ?f ks))"
    using assms(5) by (simp add: rank comp_def)
  have ks: "set ks = key ` set xs" "distinct ks"
    using mset_set_ks [OF assms(4)] by simp_all
  have first: "hd (filter (\<lambda>x. key x = k) xs) \<in> set xs \<and> key (hd (filter (\<lambda>x. key x = k) xs)) = k"
    if "k \<in> set ks" for k
  proof -
    from that ks have "filter (\<lambda>x. key x = k) xs \<noteq> []"
      by (auto simp: filter_empty_conv)
    from hd_in_set [OF this] show ?thesis by simp
  qed
  have "inj_on (\<lambda>k. rank (label (hd (filter (\<lambda>x. key x = k) xs)))) (set ks)"
    by (rule inj_onI) (use first assms(2) in metis)
  then have "distinct (map sort_by (map ?f ks))"
    using ks(2) by (simp add: rank comp_def distinct_map)
  then show "distinct (map sort_by (map snd (ord (buckets key fresh add xs))))"
    by (simp only: perm_distinct_map [OF same])
qed

end

section \<open>Groups of instances\<close>

definition reference_groups :: "service_instance list \<Rightarrow> service_group list" where
  "reference_groups xs =
     map (\<lambda>k. let ys = filter (\<lambda>i. instance_group_key i = k) xs in (group_of (hd ys))\<lparr>sg_instances := ys\<rparr>)
       (sorted_list_of_set (instance_group_key ` set xs))"

abbreviation (input) make_group :: "string \<times> string \<times> string \<times> int \<Rightarrow> service_instance list \<Rightarrow> service_group" where
  "make_group l ys \<equiv> (case l of (name, namespace, dns, port) \<Rightarrow>
     \<lparr>sg_name = name, sg_namespace = namespace, sg_dns = dns, sg_port = port, sg_instances = ys\<rparr>)"

interpretation grouping: bucketing instance_group_key group_of
  "\<lambda>i g. g\<lparr>sg_instances := sg_instances g @ [i]\<rparr>" make_group
  "\<lambda>i. (si_name i, si_namespace i, si_dns i, si_port i)" "\<lambda>i. i"
  by unfold_locales (auto simp: group_of_def)

lemma foldl_add_to_group:
  "foldl add_to_group [] xs =
     buckets instance_group_key group_of (\<lambda>i g. g\<lparr>sg_instances := sg_instances g @ [i]\<rparr>) xs"
  by (simp add: buckets_def add_to_group_def [abs_def])

lemma first_of_key:
  assumes "k \<in> key ` set xs"
  shows "hd (filter (\<lambda>x. key x = k) xs) \<in> set xs" "key (hd (filter (\<lambda>x. key x = k) xs)) = k"
proof -
  from assms have "filter (\<lambda>x. key x = k) xs \<noteq> []"
    by (auto simp: filter_empty_conv)
  from hd_in_set [OF this]
  show "hd (filter (\<lambda>x. key x = k) xs) \<in> set xs" "key (hd (filter (\<lambda>x. key x = k) xs)) = k"
    by simp_all
qed

lemma group_instances_reference:
  assumes "permutes_lists ord"
  shows "group_instances ord xs = reference_groups xs"
proof -
  let ?rank = "\<lambda>(name, namespace, dns :: string, port). name @ ''|'' @ namespace @ ''|'' @ fmt_d port"
  let ?ks = "sorted_list_of_set (instance_group_key ` set xs)"
  let ?first = "\<lambda>k. hd (filter (\<lambda>i. instance_group_key i = k) xs)"
  have rank: "?rank (si_name i, si_namespace i, si_dns i, si_port i) = instance_group_key i" for i
    by (simp add: instance_group_key_def)
  have "map (\<lambda>k. ?rank (si_name (?first k), si_namespace (?first k), si_dns (?first k), si_port (?first k))) ?ks = ?ks"
    unfolding rank by (rule map_idI) (simp add: first_of_key)
  then have "sorted (map (\<lambda>k. ?rank (si_name (?first k), si_namespace (?first k), si_dns (?first k), si_port (?first k))) ?ks)"
    by simp
  note sorted = this
  have "sort_key group_key (map snd (ord (foldl add_to_group [] xs))) =
      map (\<lambda>k. let ys = filter (\<lambda>i. instance_group_key i = k) xs
        in make_group (si_name (hd ys), si_namespace (hd ys), si_dns (hd ys), si_port (hd ys)) (map (\<lambda>i. i) ys)) ?ks"
    unfolding foldl_add_to_group
  proof (rule grouping.sorted_buckets [OF assms _ _ _ sorted])
    show "mset ?ks = mset_set (instance_group_key ` set xs)"
      by (simp add: mset_sorted_list_of_multiset flip: sorted_list_of_mset_set)
  qed (auto simp: group_key_def instance_group_key_def)
  then show ?thesis
    unfolding group_instances_def reference_groups_def by (simp add: group_of_def Let_def)
qed

section \<open>Localities of a cluster\<close>

text \<open>The instances of the agent's own cluster come first, with priority 0; within a priority the zones ascend.\<close>

definition locality_of :: "uint32 \<Rightarrow> service_instance list \<Rightarrow> string \<Rightarrow> locality_endpoints" where
  "locality_of p xs zone =
     \<lparr>lo_zone = zone, lo_priority = p, lo_endpoints = map endpoint_of (filter (\<lambda>i. si_zone i = zone) xs)\<rparr>"

definition zones :: "service_instance list \<Rightarrow> string list" where
  "zones xs = sorted_list_of_set (si_zone ` set xs)"

definition reference_localities :: "builder_settings \<Rightarrow> service_instance list \<Rightarrow> locality_endpoints list" where
  "reference_localities st xs =
     (let near = filter (\<lambda>i. priority_of st i = 0) xs; far = filter (\<lambda>i. priority_of st i \<noteq> 0) xs
      in map (locality_of 0 near) (zones near) @ map (locality_of 1 far) (zones far))"

lemma locality_key_inject [simp]: "locality_key z p = locality_key z' p' \<longleftrightarrow> z = z' \<and> p = p'"
  by (auto simp: locality_key_def append_sep_inject word_uint_eq_iff)

interpretation localities: bucketing "\<lambda>i. locality_key (si_zone i) (priority_of st i)"
  "\<lambda>i. \<lparr>lo_zone = si_zone i, lo_priority = priority_of st i, lo_endpoints = []\<rparr>"
  "\<lambda>i l. l\<lparr>lo_endpoints := lo_endpoints l @ [endpoint_of i]\<rparr>"
  "\<lambda>(zone, p) ys. \<lparr>lo_zone = zone, lo_priority = p, lo_endpoints = ys\<rparr>"
  "\<lambda>i. (si_zone i, priority_of st i)" endpoint_of
  for st
  by unfold_locales auto

lemma foldl_add_to_locality:
  "foldl (add_to_locality st) [] xs =
     buckets (\<lambda>i. locality_key (si_zone i) (priority_of st i))
       (\<lambda>i. \<lparr>lo_zone = si_zone i, lo_priority = priority_of st i, lo_endpoints = []\<rparr>)
       (\<lambda>i l. l\<lparr>lo_endpoints := lo_endpoints l @ [endpoint_of i]\<rparr>) xs"
  by (simp add: buckets_def add_to_locality_def [abs_def])

lemma priority_cases: "priority_of st i = 0 \<or> priority_of st i = 1"
  by (simp add: priority_of_def)

lemma set_zones [simp]: "set (zones xs) = si_zone ` set xs"
  by (simp add: zones_def)

lemma build_load_assignment_reference:
  assumes "permutes_lists ord"
  shows "build_load_assignment ord st name xs =
    (\<lparr>la_cluster_name = name, la_localities = reference_localities st xs\<rparr>, length xs)"
proof -
  let ?near = "filter (\<lambda>i. priority_of st i = 0) xs" and ?far = "filter (\<lambda>i. priority_of st i \<noteq> 0) xs"
  let ?key = "\<lambda>i. locality_key (si_zone i) (priority_of st i)"
  let ?ks = "map (\<lambda>z. locality_key z 0) (zones ?near) @ map (\<lambda>z. locality_key z 1) (zones ?far)"
  let ?rank = "\<lambda>(zone, p :: uint32). fmt_d (uint p) @ ''|'' @ zone"
  have far: "priority_of st i \<noteq> 0 \<longleftrightarrow> priority_of st i = 1" for i
    using priority_cases [of st i] by auto
  have "set ?ks = ?key ` set ?near \<union> ?key ` set ?far"
    by (auto simp: far image_image)
  also have "\<dots> = ?key ` set xs"
    by auto
  finally have set_ks: "set ?ks = ?key ` set xs" .
  have "distinct ?ks"
    by (auto simp: distinct_map inj_on_def zones_def)
  then have ks: "mset ?ks = mset_set (?key ` set xs)"
    by (simp only: mset_set_set [symmetric] set_ks)
  let ?here = "\<lambda>ys z p. si_zone (hd ys) = z \<and> priority_of st (hd ys) = p"
  have first: "si_zone (hd (filter (\<lambda>i. ?key i = locality_key z p) xs)) = z \<and>
      priority_of st (hd (filter (\<lambda>i. ?key i = locality_key z p) xs)) = p"
    if "locality_key z p \<in> set ?ks" for z p
    using first_of_key(2) [of "locality_key z p" ?key xs] that unfolding set_ks by simp
  let ?rank_of = "\<lambda>k. ?rank (si_zone (hd (filter (\<lambda>i. ?key i = k) xs)), priority_of st (hd (filter (\<lambda>i. ?key i = k) xs)))"
  have digits: "fmt_d 0 = ''0''" "fmt_d 1 = ''1''"
    by code_simp+
  have "sorted (map (\<lambda>z. ?rank (z, 0)) (zones ?near) @ map (\<lambda>z. ?rank (z, 1)) (zones ?far))"
    by (simp add: sorted_append digits zones_def sorted_map)
  also have "map (\<lambda>z. ?rank (z, 0)) (zones ?near) @ map (\<lambda>z. ?rank (z, 1)) (zones ?far) = map ?rank_of ?ks"
    using first by simp
  finally have sorted: "sorted (map ?rank_of ?ks)" .
  have "sort_key locality_order (map snd (ord (foldl (add_to_locality st) [] xs))) =
      map (\<lambda>k. let ys = filter (\<lambda>i. ?key i = k) xs
        in (\<lambda>(zone, p) ys. \<lparr>lo_zone = zone, lo_priority = p, lo_endpoints = ys\<rparr>)
             (si_zone (hd ys), priority_of st (hd ys)) (map endpoint_of ys)) ?ks"
    unfolding foldl_add_to_locality
  proof (rule localities.sorted_buckets [OF assms _ _ ks sorted])
  qed (auto simp: locality_order_def append_sep_inject_left word_uint_eq_iff)
  also have "\<dots> = reference_localities st xs"
  proof -
    have split: "filter (\<lambda>i. si_zone i = z \<and> priority_of st i = 0) xs =
        filter (\<lambda>i. priority_of st i = 0 \<and> si_zone i = z) xs"
      "filter (\<lambda>i. si_zone i = z \<and> priority_of st i = 1) xs =
        filter (\<lambda>i. priority_of st i \<noteq> 0 \<and> si_zone i = z) xs" for z
      using far by (auto intro: filter_cong)
    have head: "z \<in> set (zones ?near) \<Longrightarrow> ?here (filter (\<lambda>i. si_zone i = z \<and> priority_of st i = 0) xs) z 0"
      "z \<in> set (zones ?far) \<Longrightarrow> ?here (filter (\<lambda>i. si_zone i = z \<and> priority_of st i = 1) xs) z 1" for z
      using first [of z 0] first [of z 1] by (simp_all add: image_iff)
    show ?thesis
      unfolding reference_localities_def Let_def map_append map_map comp_def
      by (intro arg_cong2 [where f = append] map_cong refl)
        (simp_all only: split head [unfolded split] locality_key_inject locality_of_def filter_filter prod.case)
  qed
  finally show ?thesis
    by (simp add: build_load_assignment_def)
qed

end
