(* ===== verification/Xds_Server.thy ===== *)
theory Xds_Server
  imports Xds_Grouping Consul_Api
begin

text \<open>
  The xDS server of \<open>src/xds/server.go\<close>: its lifecycle and \<open>Publish\<close>. The network, the gRPC server,
  the snapshot cache of go-control-plane, the metrics and the clock act on a world \<open>'w\<close> and are the
  parameters \<open>'w xds_io\<close>; \<open>io_graceful_stop\<close> is \<open>None\<close> when \<open>GracefulStop\<close> does not return, because
  a stream of Envoy stays open.
\<close>

record 'w xds_io =
  io_listen :: "string \<Rightarrow> 'w \<Rightarrow> go_error option \<times> 'w"
  io_serve :: "'w \<Rightarrow> 'w"
  io_graceful_stop :: "'w \<Rightarrow> 'w option"
  io_close_listener :: "'w \<Rightarrow> 'w"
  io_set_snapshot :: "string \<Rightarrow> snapshot \<Rightarrow> 'w \<Rightarrow> go_error option \<times> 'w"
  io_now :: "'w \<Rightarrow> instant \<times> 'w"
  io_count :: "counter \<Rightarrow> 'w \<Rightarrow> 'w"

record server =
  sv_node_id :: string
  sv_builder :: builder
  sv_started :: bool

definition new_server :: "builder option \<Rightarrow> go_error + server" where
  "new_server b =
     (case b of
        None \<Rightarrow> Inl (FieldRequired ''xds builder'')
      | Some b \<Rightarrow> Inr \<lparr>sv_node_id = bs_node_id (bd_settings b), sv_builder = b, sv_started = False\<rparr>)"

definition server_start :: "'w xds_io \<Rightarrow> string \<Rightarrow> server \<Rightarrow> 'w \<Rightarrow> go_error option \<times> server \<times> 'w" where
  "server_start io address s w =
     (if sv_started s then (None, s, w)
      else case io_listen io address w of
        (Some err, w') \<Rightarrow> (Some err, s, w')
      | (None, w') \<Rightarrow> (None, s\<lparr>sv_started := True\<rparr>, io_serve io w'))"

text \<open>\<open>None\<close>: the call does not return.\<close>

definition server_stop :: "'w xds_io \<Rightarrow> server \<Rightarrow> 'w \<Rightarrow> (server \<times> 'w) option" where
  "server_stop io s w =
     (if \<not> sv_started s then Some (s, w)
      else case io_graceful_stop io w of
        None \<Rightarrow> None
      | Some w' \<Rightarrow> Some (s\<lparr>sv_started := False\<rparr>, io_close_listener io w'))"

text \<open>The clock is read by the builder, only when it succeeds.\<close>

definition publish ::
    "xds_env \<Rightarrow> 'w xds_io \<Rightarrow> server \<Rightarrow> service_instance list \<Rightarrow> 'w \<Rightarrow> (go_error + summary) \<times> server \<times> 'w" where
  "publish e io s instances w =
     (case io_now io w of (t, w1) \<Rightarrow>
      case build e t (sv_builder s) instances of
        (Inl err, b) \<Rightarrow> (Inl err, s\<lparr>sv_builder := b\<rparr>, w)
      | (Inr (snap, sm), b) \<Rightarrow>
          (case io_set_snapshot io (sv_node_id s) snap w1 of
             (Some err, w2) \<Rightarrow> (Inl err, s\<lparr>sv_builder := b\<rparr>, w2)
           | (None, w2) \<Rightarrow> (Inr sm, s\<lparr>sv_builder := b\<rparr>, io_count io XdsPublishTotal w2)))"

definition server_summary :: "server \<Rightarrow> summary" where
  "server_summary s = builder_summary (sv_builder s)"

section \<open>Lemmas\<close>

lemma build_settings: "build e t b xs = (r, b') \<Longrightarrow> bd_settings b' = bd_settings b"
  by (auto simp: build_def Let_def split: sum.splits option.splits)

lemma publish_frame:
  assumes "publish e io s xs w = (r, s', w')"
  shows "sv_node_id s' = sv_node_id s \<and> sv_started s' = sv_started s \<and>
    bd_settings (sv_builder s') = bd_settings (sv_builder s)"
  using assms build_settings by (fastforce simp: publish_def split: prod.splits sum.splits option.splits)

text \<open>A successful \<open>Publish\<close> built a snapshot and stored it in the cache under the node of the server.\<close>

lemma publish_Inr:
  assumes "publish e io s xs w = (Inr sm, s', w')"
  obtains t w1 snap b' w2 where "io_now io w = (t, w1)" "build e t (sv_builder s) xs = (Inr (snap, sm), b')"
    "io_set_snapshot io (sv_node_id s) snap w1 = (None, w2)" "s' = s\<lparr>sv_builder := b'\<rparr>"
    "w' = io_count io XdsPublishTotal w2"
  using assms by (auto simp: publish_def split: prod.splits sum.splits option.splits)

lemma build_keeps_summary: "build e t b xs = (Inr (snap, sm), b') \<Longrightarrow> bd_summary b' = sm"
  by (auto simp: build_def Let_def split: sum.splits option.splits)

end
