(* ===== verification/Envoy_Bootstrap.thy ===== *)
theory Envoy_Bootstrap
  imports Xds_Snapshot Go_Path
begin

text \<open>
  \<open>src/envoy/bootstrap.go\<close>: the document of the Envoy bootstrap file and writing it; and the settings of
  the Envoy manager (\<open>NewManager\<close>) with the command line it starts Envoy with. Go's
  \<open>map[string]any\<close> is a tree; \<open>yaml.Marshal\<close> and the file system are parameters. A YAML map has no
  order, so two documents are the same when they agree as trees of maps; the keys of a literal are
  pairwise different.
\<close>

datatype yaml = YStr string | YInt int | YMap "(string \<times> yaml) list" | YSeq "yaml list"

record bootstrap_config =
  bc_node_id :: string
  bc_cluster_name :: string
  bc_admin_address :: string
  bc_xds_target :: string

definition split_address :: "string \<Rightarrow> string \<times> int" where
  "split_address address =
     (case split_host_port (trim_space address) of
        Inl _ \<Rightarrow> ([], 0)
      | Inr (host, raw_port) \<Rightarrow> (host, parse_port raw_port))"

definition socket_address :: "string \<Rightarrow> yaml" where
  "socket_address address =
     (case split_address address of (host, port) \<Rightarrow>
        YMap [(''socket_address'', YMap [(''address'', YStr host), (''port_value'', YInt port)])])"

definition bootstrap_document :: "bootstrap_config \<Rightarrow> yaml" where
  "bootstrap_document c = YMap
     [(''node'', YMap [(''id'', YStr (trim_space (bc_node_id c))), (''cluster'', YStr (trim_space (bc_cluster_name c)))]),
      (''dynamic_resources'', YMap
        [(''ads_config'', YMap
           [(''api_type'', YStr ''GRPC''), (''transport_api_version'', YStr ''V3''),
            (''grpc_services'', YSeq [YMap [(''envoy_grpc'', YMap [(''cluster_name'', YStr ''xds_cluster'')])]])]),
         (''lds_config'', YMap [(''ads'', YMap []), (''resource_api_version'', YStr ''V3'')]),
         (''cds_config'', YMap [(''ads'', YMap []), (''resource_api_version'', YStr ''V3'')])]),
      (''static_resources'', YMap
        [(''clusters'', YSeq
           [YMap
             [(''name'', YStr ''xds_cluster''), (''type'', YStr ''STRICT_DNS''), (''connect_timeout'', YStr ''3s''),
              (''http2_protocol_options'', YMap []),
              (''load_assignment'', YMap
                [(''cluster_name'', YStr ''xds_cluster''),
                 (''endpoints'', YSeq [YMap [(''lb_endpoints'', YSeq [YMap [(''endpoint'',
                    YMap [(''address'', socket_address (bc_xds_target c))])]])]])])]])]),
      (''admin'', YMap [(''address'', socket_address (bc_admin_address c))])]"

record 'w file_io =
  fi_mkdir_all :: "string \<Rightarrow> 'w \<Rightarrow> go_error option \<times> 'w"
  fi_marshal :: "yaml \<Rightarrow> go_error + string"
  fi_write_file :: "string \<Rightarrow> string \<Rightarrow> 'w \<Rightarrow> go_error option \<times> 'w"

definition write_bootstrap :: "'w file_io \<Rightarrow> string \<Rightarrow> bootstrap_config \<Rightarrow> 'w \<Rightarrow> go_error option \<times> 'w" where
  "write_bootstrap f path c w =
     (case fi_mkdir_all f (path_dir path) w of
        (Some err, w') \<Rightarrow> (Some err, w')
      | (None, w') \<Rightarrow>
          (case fi_marshal f (bootstrap_document c) of
             Inl err \<Rightarrow> (Some err, w')
           | Inr payload \<Rightarrow> fi_write_file f path payload w'))"

section \<open>The command line\<close>

text \<open>
  The fields of \<open>envoy.Manager\<close> that never change, and the command that \<open>startProcessLocked\<close> runs: the
  program and its arguments.
\<close>

record manager_settings =
  ms_binary_path :: string
  ms_bootstrap_path :: string
  ms_admin_address :: string
  ms_log_level :: string
  ms_restart_backoff :: duration

definition envoy_command :: "manager_settings \<Rightarrow> string \<times> string list" where
  "envoy_command m =
     (ms_binary_path m, [''-c'', ms_bootstrap_path m, ''--log-level'', ms_log_level m])"

definition admin_address :: "manager_settings \<Rightarrow> string" where
  "admin_address m = ms_admin_address m"

section \<open>Reading the document\<close>

text \<open>The value under a path of map keys, list positions being skipped to their first element.\<close>

fun yaml_at :: "string list \<Rightarrow> yaml \<Rightarrow> yaml option" where
  "yaml_at [] y = Some y"
| "yaml_at (k # ks) (YMap m) = Option.bind (map_of m k) (yaml_at ks)"
| "yaml_at (k # ks) (YSeq (y # ys)) = yaml_at (k # ks) y"
| "yaml_at (k # ks) y = None"

lemma split_address_join:
  assumes "plain_host h" "trim_space (h @ '':'' @ fmt_d p) = h @ '':'' @ fmt_d p" "0 \<le> p" "p < 2 ^ 63"
  shows "split_address (h @ '':'' @ fmt_d p) = (h, p)"
proof -
  have "CHR ''['' \<notin> set (fmt_d p)" "CHR '']'' \<notin> set (fmt_d p)"
    by (auto dest!: fmt_d_chars simp: is_digit_def)
  then have "plain_host (fmt_d p)"
    by (simp add: plain_host_def)
  with split_host_port_plain [OF assms(1) this] assms show ?thesis
    by (simp add: split_address_def parse_port_def scan_d_fmt_d)
qed

end
