(* ===== verification/App.thy ===== *)
theory App
  imports Config Discovery Registry_Invariant Xds_Server Envoy_Bootstrap "HOL-Library.Monad_Syntax"
begin

text \<open>
  The runner of \<open>src/app/app.go\<close>, which puts the components together: \<open>New\<close>, \<open>Start\<close>, \<open>Shutdown\<close>,
  \<open>RefreshNow\<close> and \<open>publishInstances\<close>. The registry client, the xDS server and the watcher are the
  models of the other theories. The parameters \<open>'w app_env\<close> are what acts outside of them: Consul and
  the Go runtime, go-control-plane, the network, the Envoy manager as the caller sees it (what \<open>Start\<close>
  and \<open>Stop\<close> return), the HTTP and DNS servers and the OpenTelemetry providers. \<open>ap_started\<close> launches
  the three goroutines: the watcher's \<open>run\<close>, and the servers' own loops. What the background loops do
  beside the requests and the shutdown, and \<open>WaitForShutdown\<close>, is the step relation of \<open>Command\<close>.
\<close>

section \<open>State and environment\<close>

text \<open>The data plane: registry client, xDS server and the world outside.\<close>

record 'w plane =
  pl_client :: client
  pl_server :: server
  pl_world :: 'w

record 'w app_env =
  ap_consul :: env
  ap_xds :: xds_env
  ap_io :: "'w xds_io"
  ap_files :: "'w file_io"
  ap_gauge :: "nat \<Rightarrow> 'w \<Rightarrow> 'w"
  ap_wait :: "'w \<Rightarrow> 'w"
  ap_encode :: "service_instance list \<Rightarrow> go_error + string"
  ap_digest :: "string \<Rightarrow> byte list"
  ap_telemetry_new :: "telemetry_config \<Rightarrow> 'w \<Rightarrow> go_error option \<times> 'w"
  ap_telemetry_shutdown :: "'w \<Rightarrow> go_error option \<times> 'w"
  ap_consul_new :: "consul_client_config \<Rightarrow> go_error option"
  ap_envoy_start :: "string \<times> string list \<Rightarrow> 'w \<Rightarrow> go_error option \<times> 'w"
  ap_envoy_stop :: "duration \<Rightarrow> 'w \<Rightarrow> go_error option \<times> 'w"
  ap_admin_shutdown :: "'w \<Rightarrow> go_error option \<times> 'w"
  ap_dns_shutdown :: "'w \<Rightarrow> go_error option \<times> 'w"
  ap_started :: "'w \<Rightarrow> 'w"

record 'w runner =
  rn_config :: config
  rn_watcher :: watcher
  rn_plane :: "'w plane"
  rn_envoy :: "manager_settings option"

text \<open>The Envoy manager is not nil.\<close>

abbreviation rn_has_envoy :: "'w runner \<Rightarrow> bool" where
  "rn_has_envoy r \<equiv> rn_envoy r \<noteq> None"

section \<open>Settings\<close>

text \<open>\<open>None\<close>: \<open>MustDuration\<close> panics.\<close>

definition registry_settings :: "config \<Rightarrow> settings option" where
  "registry_settings c = do {
     request_timeout \<leftarrow> must_duration (ccc_request_timeout (cf_consul c));
     lease_ttl \<leftarrow> must_duration (ccc_agent_lease_ttl (cf_consul c));
     lease_refresh \<leftarrow> must_duration (ccc_agent_lease_refresh_interval (cf_consul c));
     critical_after \<leftarrow> must_duration (ccc_deregister_critical_after (cf_consul c));
     Some \<lparr>st_address = ccc_address (cf_consul c), st_scheme = ccc_scheme (cf_consul c),
       st_datacenter = ccc_datacenter (cf_consul c), st_route_kv_prefix = ccc_route_kv_prefix (cf_consul c),
       st_request_timeout = request_timeout, st_cluster_name = cf_cluster_name c, st_zone = cf_zone c,
       st_host_ip = cf_host_ip c, st_env = cf_env c, st_agent_lease_ttl = lease_ttl,
       st_agent_lease_refresh_interval = lease_refresh, st_deregister_critical_after = critical_after\<rparr> }"

definition xds_settings :: "config \<Rightarrow> builder_settings option" where
  "xds_settings c = do {
     default_timeout \<leftarrow> must_duration (xc_default_timeout (cf_xds c));
     per_try_timeout \<leftarrow> must_duration (xc_per_try_timeout (cf_xds c));
     base_ejection_time \<leftarrow> must_duration (xc_base_ejection_time (cf_xds c));
     Some \<lparr>bs_node_id = xc_node_id (cf_xds c), bs_listener_address = xc_listener_address (cf_xds c),
       bs_route_name = xc_route_name (cf_xds c), bs_cluster_name_prefix = [],
       bs_local_cluster = cf_cluster_name c, bs_default_timeout = default_timeout,
       bs_retry_attempts = xc_retry_attempts (cf_xds c), bs_per_try_timeout = per_try_timeout,
       bs_max_connections = xc_max_connections (cf_xds c),
       bs_max_pending_requests = xc_max_pending_requests (cf_xds c),
       bs_max_requests = xc_max_requests (cf_xds c), bs_consecutive_5xx = xc_consecutive_5xx (cf_xds c),
       bs_base_ejection_time = base_ejection_time,
       bs_max_ejection_percent = xc_max_ejection_percent (cf_xds c)\<rparr> }"

definition envoy_bootstrap :: "config \<Rightarrow> bootstrap_config" where
  "envoy_bootstrap c =
     \<lparr>bc_node_id = xc_node_id (cf_xds c), bc_cluster_name = cf_cluster_name c,
      bc_admin_address = ec_admin_address (cf_envoy c), bc_xds_target = xc_listen_address (cf_xds c)\<rparr>"

definition manager_settings_of :: "config \<Rightarrow> manager_settings option" where
  "manager_settings_of c = do {
     backoff \<leftarrow> must_duration (ec_restart_backoff (cf_envoy c));
     Some \<lparr>ms_binary_path = ec_binary_path (cf_envoy c), ms_bootstrap_path = ec_bootstrap_path (cf_envoy c),
       ms_admin_address = ec_admin_address (cf_envoy c), ms_log_level = ec_log_level (cf_envoy c),
       ms_restart_backoff = backoff\<rparr> }"

section \<open>Publishing and refreshing\<close>

definition publish_instances ::
    "'w app_env \<Rightarrow> service_instance list \<Rightarrow> 'w plane \<Rightarrow> go_error option \<times> 'w plane" where
  "publish_instances a instances s =
     (let w = ap_gauge a (length (local_services_list (ap_consul a) (pl_client s))) (pl_world s)
      in case publish (ap_xds a) (ap_io a) (pl_server s) instances w of
           (Inl err, sv, w') \<Rightarrow> (Some err, s\<lparr>pl_server := sv, pl_world := w'\<rparr>)
         | (Inr sm, sv, w') \<Rightarrow> (None, s\<lparr>pl_server := sv, pl_world := w'\<rparr>))"

text \<open>The watcher's source is the registry client, its callback \<open>publishInstances\<close>.\<close>

definition discover_instances ::
    "'w app_env \<Rightarrow> 'w plane \<Rightarrow> (go_error + service_instance list) \<times> 'w plane" where
  "discover_instances a s =
     (case discover (ap_consul a) (pl_client s) of (r, c) \<Rightarrow> (r, s\<lparr>pl_client := c\<rparr>))"

definition watch_env_of :: "'w app_env \<Rightarrow> 'w plane watch_env" where
  "watch_env_of a =
     \<lparr>we_discover = discover_instances a, we_on_update = publish_instances a,
      we_count = (\<lambda>s. s\<lparr>pl_world := io_count (ap_io a) DiscoveryRefreshTotal (pl_world s)\<rparr>),
      we_now = (\<lambda>s. case io_now (ap_io a) (pl_world s) of (t, w) \<Rightarrow> (t, s\<lparr>pl_world := w\<rparr>)),
      we_wait = (\<lambda>s. s\<lparr>pl_world := ap_wait a (pl_world s)\<rparr>),
      we_encode = ap_encode a, we_digest = ap_digest a\<rparr>"

definition runner_refresh :: "'w app_env \<Rightarrow> 'w runner \<Rightarrow> go_error option \<times> 'w runner" where
  "runner_refresh a r =
     (case refresh_now (watch_env_of a) (rn_watcher r) (rn_plane r) of
        (res, wt, s) \<Rightarrow> (res, r\<lparr>rn_watcher := wt, rn_plane := s\<rparr>))"

section \<open>New\<close>

text \<open>\<open>None\<close>: a panic. \<open>c_metrics\<close>: the metrics handle is never nil.\<close>

definition new_runner :: "'w app_env \<Rightarrow> config \<Rightarrow> 'w \<Rightarrow> ((go_error + 'w runner) \<times> 'w) option" where
  "new_runner a c w =
     (case ap_telemetry_new a (cf_telemetry c) w of
        (Some err, w1) \<Rightarrow> Some (Inl err, w1)
      | (None, w1) \<Rightarrow> do {
          st \<leftarrow> registry_settings c;
          (case new_registry (ap_consul_new a) (ap_consul a) st True of
             Inl err \<Rightarrow> Some (Inl err, w1)
           | Inr cl \<Rightarrow>
               (case ensure_usable cl of
                    Some err \<Rightarrow> Some (Inl err, w1)
                  | None \<Rightarrow> do {
                      bs \<leftarrow> xds_settings c;
                      (case new_server (Some (new_builder bs)) of
                         Inl err \<Rightarrow> Some (Inl err, w1)
                       | Inr sv \<Rightarrow> do {
                           refresh \<leftarrow> must_duration (dcc_refresh_interval (cf_discovery c));
                           debounce \<leftarrow> must_duration (dcc_debounce_interval (cf_discovery c));
                           let r = \<lparr>rn_config = c, rn_watcher = new_watcher refresh debounce,
                             rn_plane = \<lparr>pl_client = cl, pl_server = sv, pl_world = w1\<rparr>, rn_envoy = None\<rparr>
                           in if \<not> ec_enabled (cf_envoy c) then Some (Inr r, w1)
                              else case write_bootstrap (ap_files a) (ec_bootstrap_path (cf_envoy c))
                                (envoy_bootstrap c) w1 of
                                  (Some err, w2) \<Rightarrow> Some (Inl err, w2)
                                | (None, w2) \<Rightarrow> do {
                                    m \<leftarrow> manager_settings_of c;
                                    Some (Inr (r\<lparr>rn_plane := (rn_plane r)\<lparr>pl_world := w2\<rparr>, rn_envoy := Some m\<rparr>), w2) } }) })) })"

section \<open>Start and Shutdown\<close>

text \<open>An operation of the xDS server or of the world, as an operation of the runner.\<close>

definition on_world :: "('w \<Rightarrow> go_error option \<times> 'w) \<Rightarrow> 'w runner \<Rightarrow> go_error option \<times> 'w runner" where
  "on_world f r =
     (case f (pl_world (rn_plane r)) of (res, w) \<Rightarrow> (res, r\<lparr>rn_plane := (rn_plane r)\<lparr>pl_world := w\<rparr>\<rparr>))"

text \<open>Go's \<open>if err := step(); err != nil { return err }\<close> before the rest.\<close>

definition before :: "go_error option \<times> 'r \<Rightarrow> ('r \<Rightarrow> go_error option \<times> 'r) \<Rightarrow> go_error option \<times> 'r" where
  "before m k = (case m of (Some err, r) \<Rightarrow> (Some err, r) | (None, r) \<Rightarrow> k r)"

definition start_registry :: "'w app_env \<Rightarrow> 'w runner \<Rightarrow> go_error option \<times> 'w runner" where
  "start_registry a r =
     (case start (ap_consul a) (pl_client (rn_plane r)) of
        (res, c) \<Rightarrow> (case res of Inl err \<Rightarrow> Some err | Inr _ \<Rightarrow> None, r\<lparr>rn_plane := (rn_plane r)\<lparr>pl_client := c\<rparr>\<rparr>))"

definition start_xds :: "'w app_env \<Rightarrow> 'w runner \<Rightarrow> go_error option \<times> 'w runner" where
  "start_xds a r =
     (let s = rn_plane r
      in case server_start (ap_io a) (xc_listen_address (cf_xds (rn_config r))) (pl_server s) (pl_world s) of
           (res, sv, w) \<Rightarrow> (res, r\<lparr>rn_plane := s\<lparr>pl_server := sv, pl_world := w\<rparr>\<rparr>))"

definition publish_first :: "'w app_env \<Rightarrow> 'w runner \<Rightarrow> go_error option \<times> 'w runner" where
  "publish_first a r =
     (let s = rn_plane r
      in case publish (ap_xds a) (ap_io a) (pl_server s) [] (pl_world s) of
           (res, sv, w) \<Rightarrow> (case res of Inl err \<Rightarrow> Some err | Inr _ \<Rightarrow> None,
             r\<lparr>rn_plane := s\<lparr>pl_server := sv, pl_world := w\<rparr>\<rparr>))"

definition start_envoy :: "'w app_env \<Rightarrow> 'w runner \<Rightarrow> go_error option \<times> 'w runner" where
  "start_envoy a r = 
     (case rn_envoy r of
        None \<Rightarrow> (None, r)
      | Some m \<Rightarrow> on_world (ap_envoy_start a (envoy_command m)) r)"

definition runner_start :: "'w app_env \<Rightarrow> 'w runner \<Rightarrow> go_error option \<times> 'w runner" where
  "runner_start a r =
     before (start_registry a r) (\<lambda>r.
     before (start_xds a r) (\<lambda>r.
     before (publish_first a r) (\<lambda>r.
     before (start_envoy a r) (\<lambda>r.
     on_world (\<lambda>w. (None, ap_started a w)) r))))"

definition shutdown_registry :: "'w app_env \<Rightarrow> 'w runner \<Rightarrow> go_error option \<times> 'w runner" where
  "shutdown_registry a r =
     (case shutdown (ap_consul a) (pl_client (rn_plane r)) of
        (res, c) \<Rightarrow> (case res of Inl err \<Rightarrow> Some err | Inr _ \<Rightarrow> None, r\<lparr>rn_plane := (rn_plane r)\<lparr>pl_client := c\<rparr>\<rparr>))"

text \<open>
  The result \<open>Hangs\<close>: stopping the xDS server does not return. A \<open>MustDuration\<close> that panics is
  \<open>ShutdownPanics\<close>; every field of the runner is non-nil after \<open>New\<close>, but for the Envoy manager.
\<close>

datatype shutdown_result = Hangs | ShutdownPanics | Finished "go_error option"

definition shutdown_rest :: "'w app_env \<Rightarrow> 'w runner \<Rightarrow> shutdown_result \<times> 'w runner" where
  "shutdown_rest a r =
     (let s = rn_plane r
      in case server_stop (ap_io a) (pl_server s) (pl_world s) of
           None \<Rightarrow> (Hangs, r)
         | Some (sv, w) \<Rightarrow>
             (let r1 = r\<lparr>rn_plane := s\<lparr>pl_server := sv, pl_world := w\<rparr>\<rparr>
              in if \<not> rn_has_envoy r1
                 then map_prod Finished id (on_world (ap_telemetry_shutdown a) r1)
                 else case must_duration (ec_drain_timeout (cf_envoy (rn_config r1))) of
                        None \<Rightarrow> (ShutdownPanics, r1)
                      | Some timeout \<Rightarrow> map_prod Finished id
                          (before (on_world (ap_envoy_stop a timeout) r1) (on_world (ap_telemetry_shutdown a)))))"

definition runner_shutdown :: "'w app_env \<Rightarrow> 'w runner \<Rightarrow> shutdown_result \<times> 'w runner" where
  "runner_shutdown a r =
     (case before (on_world (ap_admin_shutdown a) r) (\<lambda>r.
           before (shutdown_registry a r) (\<lambda>r. on_world (ap_dns_shutdown a) r)) of
        (Some err, r1) \<Rightarrow> (Finished (Some err), r1)
      | (None, r1) \<Rightarrow> shutdown_rest a r1)"

end
