(* ===== verification/Admin.thy ===== *)
theory Admin
  imports App
begin

text \<open>
  The management API of \<open>src/admin/server.go\<close>: its handlers, as functions from the decoded request to
  the response and the new state. What the server depends on (the Go interfaces \<open>Registry\<close> and
  \<open>Refresher\<close>, and the xDS server for its summary) is the record \<open>'s admin_deps\<close> over the state \<open>'s\<close> of
  the agent; \<open>admin_deps_of\<close> fills it as \<open>app.New\<close> does. Decoding the request and encoding the response
  as JSON, and the routing by \<open>http.ServeMux\<close>, are the library's: a request arrives decoded, or with
  the error of its decoding.
\<close>

section \<open>Data\<close>

datatype response_body =
    BodyService local_service
  | BodyServices "local_service list"
  | BodySummary summary
  | BodyEmpty
  | BodyStatus string
  | BodyError go_error

record response =
  rs_status :: int
  rs_body :: response_body

record 's admin_deps =
  ad_register :: "register_request \<Rightarrow> 's \<Rightarrow> (go_error + local_service) \<times> 's"
  ad_drain :: "drain_request \<Rightarrow> 's \<Rightarrow> (go_error + local_service) \<times> 's"
  ad_deregister :: "deregister_request \<Rightarrow> 's \<Rightarrow> (go_error + local_service) \<times> 's"
  ad_local_services :: "'s \<Rightarrow> local_service list"
  ad_refresher :: "('s \<Rightarrow> go_error option \<times> 's) option"
  ad_summary :: "('s \<Rightarrow> summary) option"

definition write_json :: "int \<Rightarrow> response_body \<Rightarrow> response" where
  "write_json status body = \<lparr>rs_status = status, rs_body = body\<rparr>"

definition write_error :: "int \<Rightarrow> go_error \<Rightarrow> response" where
  "write_error status err = write_json status (BodyError err)"

lemma status_simps [simp]:
  "rs_status (write_error n err) = n" "rs_status (write_json n b) = n" "rs_body (write_json n b) = b"
  by (simp_all add: write_error_def write_json_def)

section \<open>Handlers\<close>

definition admin_refresh :: "'s admin_deps \<Rightarrow> 's \<Rightarrow> go_error option \<times> 's" where
  "admin_refresh d s = (case ad_refresher d of None \<Rightarrow> (None, s) | Some refresh \<Rightarrow> refresh s)"

definition handle_register :: "'s admin_deps \<Rightarrow> go_error + register_request \<Rightarrow> 's \<Rightarrow> response \<times> 's" where
  "handle_register d payload s =
     (case payload of
        Inl err \<Rightarrow> (write_error 400 err, s)
      | Inr q \<Rightarrow>
          (case ad_register d q s of
             (Inl err, s1) \<Rightarrow> (write_error 400 err, s1)
           | (Inr service, s1) \<Rightarrow>
               (case admin_refresh d s1 of
                  (Some err, s2) \<Rightarrow> (write_error 500 err, s2)
                | (None, s2) \<Rightarrow> (write_json 200 (BodyService service), s2))))"

definition handle_drain :: "'s admin_deps \<Rightarrow> go_error + drain_request \<Rightarrow> 's \<Rightarrow> response \<times> 's" where
  "handle_drain d payload s =
     (case payload of
        Inl err \<Rightarrow> (write_error 400 err, s)
      | Inr q \<Rightarrow>
          (case ad_drain d q s of
             (Inl err, s1) \<Rightarrow> (write_error 400 err, s1)
           | (Inr service, s1) \<Rightarrow>
               (case admin_refresh d s1 of
                  (Some err, s2) \<Rightarrow> (write_error 500 err, s2)
                | (None, s2) \<Rightarrow> (write_json 200 (BodyService service), s2))))"

definition handle_deregister :: "'s admin_deps \<Rightarrow> go_error + deregister_request \<Rightarrow> 's \<Rightarrow> response \<times> 's" where
  "handle_deregister d payload s =
     (case payload of
        Inl err \<Rightarrow> (write_error 400 err, s)
      | Inr q \<Rightarrow>
          (case ad_deregister d q s of
             (Inl err, s1) \<Rightarrow> (write_error 400 err, s1)
           | (Inr service, s1) \<Rightarrow>
               (case admin_refresh d s1 of
                  (Some err, s2) \<Rightarrow> (write_error 500 err, s2)
                | (None, s2) \<Rightarrow> (write_json 200 (BodyService service), s2))))"

definition handle_healthz :: response where
  "handle_healthz = write_json 200 (BodyStatus ''ok'')"

definition handle_debug_services :: "'s admin_deps \<Rightarrow> 's \<Rightarrow> response" where
  "handle_debug_services d s = write_json 200 (BodyServices (ad_local_services d s))"

definition handle_debug_xds :: "'s admin_deps \<Rightarrow> 's \<Rightarrow> response" where
  "handle_debug_xds d s =
     (case ad_summary d of
        None \<Rightarrow> write_json 200 BodyEmpty
      | Some summary \<Rightarrow> write_json 200 (BodySummary (summary s)))"

text \<open>
  \<open>/watch\<close>: what is written while the connection lasts. \<open>flushes\<close>: the writer supports flushing;
  every tick of the 5 s ticker sends a heartbeat until the request's context ends.
\<close>

datatype watch_output = WatchError response | Write string | Flush

fun watch_events :: "signal list \<Rightarrow> watch_output list" where
  "watch_events [] = []"
| "watch_events (Cancelled # signals) = []"
| "watch_events (Tick # signals) =
     Write ('': heartbeat'' @ [CHR 0x0A, CHR 0x0A]) # Flush # watch_events signals"

definition handle_watch :: "bool \<Rightarrow> signal list \<Rightarrow> watch_output list" where
  "handle_watch flushes signals =
     (if \<not> flushes then [WatchError (write_error 500 (External ''streaming is not supported''))]
      else [Write (''event: connected'' @ [CHR 0x0A]), Write (''data: ok'' @ [CHR 0x0A, CHR 0x0A]), Flush] @
        watch_events signals)"

section \<open>The routes\<close>

datatype request =
    PostRegister "go_error + register_request"
  | PostDrain "go_error + drain_request"
  | PostDeregister "go_error + deregister_request"
  | GetHealthz
  | GetDebugServices
  | GetDebugXds

fun serve :: "'s admin_deps \<Rightarrow> request \<Rightarrow> 's \<Rightarrow> response \<times> 's" where
  "serve d (PostRegister q) s = handle_register d q s"
| "serve d (PostDrain q) s = handle_drain d q s"
| "serve d (PostDeregister q) s = handle_deregister d q s"
| "serve d GetHealthz s = (handle_healthz, s)"
| "serve d GetDebugServices s = (handle_debug_services d s, s)"
| "serve d GetDebugXds s = (handle_debug_xds d s, s)"

text \<open>
  \<open>New\<close>: the patterns it registers with the \<open>http.ServeMux\<close>, in order; the last one only if telemetry
  has a handler for metrics. \<open>HandleFunc\<close> panics on a pattern that is already there.
\<close>

datatype endpoint = EndRegister | EndDrain | EndDeregister | EndHealthz | EndWatch | EndDebugServices | EndDebugXds
  | EndMetrics

definition routes :: "bool \<Rightarrow> (string \<times> endpoint) list" where
  "routes has_metrics =
     [(''POST /register'', EndRegister), (''POST /drain'', EndDrain), (''POST /deregister'', EndDeregister),
      (''GET /healthz'', EndHealthz), (''GET /watch'', EndWatch),
      (''GET /debug/services'', EndDebugServices), (''GET /debug/xds'', EndDebugXds)] @
     (if has_metrics then [(''GET /metrics'', EndMetrics)] else [])"

lemma routes_distinct: "distinct (map fst (routes has_metrics))"
  by (simp add: routes_def)

text \<open>\<open>Start\<close>, for what \<open>ListenAndServe\<close> returns: the error of an orderly shutdown is none.\<close>

definition server_closed :: go_error where
  "server_closed = External ''http: Server closed''"

definition admin_start :: "go_error option \<Rightarrow> go_error option" where
  "admin_start result = (if result = Some server_closed then None else result)"

section \<open>The agent behind the API\<close>

definition on_client :: "(client \<Rightarrow> (go_error + 'x) \<times> client) \<Rightarrow> 'w runner \<Rightarrow> (go_error + 'x) \<times> 'w runner" where
  "on_client f r =
     (case f (pl_client (rn_plane r)) of (res, c) \<Rightarrow> (res, r\<lparr>rn_plane := (rn_plane r)\<lparr>pl_client := c\<rparr>\<rparr>))"

definition admin_deps_of :: "'w app_env \<Rightarrow> 'w runner admin_deps" where
  "admin_deps_of a =
     \<lparr>ad_register = (\<lambda>q. on_client (\<lambda>c. register (ap_consul a) c q)),
      ad_drain = (\<lambda>q. on_client (\<lambda>c. drain (ap_consul a) c q)),
      ad_deregister = (\<lambda>q. on_client (\<lambda>c. deregister (ap_consul a) c q)),
      ad_local_services = (\<lambda>r. local_services_list (ap_consul a) (pl_client (rn_plane r))),
      ad_refresher = Some (runner_refresh a),
      ad_summary = Some (\<lambda>r. server_summary (pl_server (rn_plane r)))\<rparr>"

section \<open>The contract of a mutating endpoint\<close>

text \<open>What the three handlers do with a decoded request.\<close>

definition respond ::
    "('s \<Rightarrow> go_error option \<times> 's) \<Rightarrow> ('q \<Rightarrow> 's \<Rightarrow> (go_error + local_service) \<times> 's) \<Rightarrow> 'q \<Rightarrow> 's \<Rightarrow> response \<times> 's" where
  "respond refresh op q s =
     (case op q s of
        (Inl err, s1) \<Rightarrow> (write_error 400 err, s1)
      | (Inr service, s1) \<Rightarrow>
          (case refresh s1 of
             (Some err, s2) \<Rightarrow> (write_error 500 err, s2)
           | (None, s2) \<Rightarrow> (write_json 200 (BodyService service), s2)))"

lemma handle_respond:
  "handle_register d (Inr q1) s = respond (admin_refresh d) (ad_register d) q1 s"
  "handle_drain d (Inr q2) s = respond (admin_refresh d) (ad_drain d) q2 s"
  "handle_deregister d (Inr q3) s = respond (admin_refresh d) (ad_deregister d) q3 s"
  by (simp_all add: handle_register_def handle_drain_def handle_deregister_def respond_def)

text \<open>
  A lifecycle operation of the registry, as the handlers use it: it keeps the invariant; when it
  succeeds, the service it returns is the one stored under its target and satisfies \<open>outcome\<close>; when it
  fails, what \<open>frame\<close> observes is as before. A refresh keeps the invariant and the stored services.
\<close>

locale lifecycle_endpoint =
  fixes op :: "'q \<Rightarrow> 's \<Rightarrow> (go_error + local_service) \<times> 's"
    and refresh :: "'s \<Rightarrow> go_error option \<times> 's"
    and inv :: "'s \<Rightarrow> bool"
    and stored :: "'s \<Rightarrow> string \<Rightarrow> int \<Rightarrow> local_service option"
    and name_of :: "'q \<Rightarrow> string" and port_of :: "'q \<Rightarrow> int"
    and outcome :: "local_service \<Rightarrow> bool" and frame :: "'s \<Rightarrow> 'f"
  assumes op_inv: "inv s \<Longrightarrow> op q s = (r, s') \<Longrightarrow> inv s'"
    and op_stores: "inv s \<Longrightarrow> op q s = (Inr service, s') \<Longrightarrow>
      stored s' (name_of q) (port_of q) = Some service \<and> outcome service"
    and op_fails: "inv s \<Longrightarrow> op q s = (Inl err, s') \<Longrightarrow> frame s' = frame s"
    and refresh_keeps: "inv s \<Longrightarrow> refresh s = (e, s') \<Longrightarrow> inv s' \<and> stored s' = stored s"
begin

lemma respond_outcome:
  assumes "inv s" "respond refresh op q s = (resp, s')"
  shows "inv s' \<and> rs_status resp \<in> {200, 400, 500} \<and>
    (if rs_status resp = 400 then frame s' = frame s
     else \<exists>service. stored s' (name_of q) (port_of q) = Some service \<and> outcome service \<and>
       (rs_status resp = 200 \<longrightarrow> rs_body resp = BodyService service))"
proof -
  obtain res s1 where op: "op q s = (res, s1)"
    by fastforce
  show ?thesis
  proof (cases res)
    case (Inl err)
    with assms op op_inv [OF assms(1) op] op_fails [OF assms(1)] show ?thesis
      by (auto simp: respond_def)
  next
    case (Inr service)
    obtain e s2 where refresh: "refresh s1 = (e, s2)"
      by fastforce
    have "inv s2" "stored s2 (name_of q) (port_of q) = Some service \<and> outcome service"
      using op_inv [OF assms(1) op] op_stores [OF assms(1)] op Inr refresh_keeps [OF _ refresh] by simp_all
    with Inr assms(2) op refresh show ?thesis
      by (cases e) (auto simp: respond_def)
  qed
qed

end

end
