(* ===== verification/Registry_Effects.thy ===== *)
theory Registry_Effects
  imports Registry_Invariant
begin

text \<open>
  What each operation of the registry client does to the outside and to its own state, on every
  branch: the Consul calls in their order, the value returned, the state stored.
\<close>

section \<open>Equations for the effects\<close>

lemma call_Inr: "call w c a = (Inr u, c') \<longleftrightarrow>
    call_error w (history c) a = None \<and> c' = c\<lparr>history := history c @ [Called a None]\<rparr>"
  by (auto simp: call_def Let_def split: option.splits)

lemma call_Inl: "call w c a = (Inl e, c') \<longleftrightarrow>
    (\<exists>t. call_error w (history c) a = Some t \<and> e = External t \<and>
       c' = c\<lparr>history := history c @ [Called a (Some t)]\<rparr>)"
  by (auto simp: call_def Let_def split: option.splits)

lemma now_eq: "now w c = (clock w (history c), c\<lparr>history := history c @ [ClockRead]\<rparr>)"
  by (simp add: now_def)

lemma pass_lease_Inr: "pass_lease w c s = (Inr u, c') \<longleftrightarrow>
    call w c (UpdateTTL (ls_lease_check_id s) ''agent ownership is healthy'' ''passing'') = (Inr (), c')"
  by (simp add: pass_lease_def)

lemma calls_of_count [simp]: "calls_of (history (count k c)) = calls_of (history c)"
  by (simp add: count_def)

lemma count_frame [simp]:
  "cl_local_services (count k c) = cl_local_services c" "cl_settings (count k c) = cl_settings c"
  "cl_agent_id (count k c) = cl_agent_id c" "cl_agent_run_id (count k c) = cl_agent_run_id c"
  by (simp_all add: count_def)

lemma local_service_count [simp]: "find_local_service (count k c) n p = find_local_service c n p"
  by (simp add: find_local_service_def)

lemma local_service_history [simp]: "find_local_service (c\<lparr>history := h\<rparr>) n p = find_local_service c n p"
  by (simp add: find_local_service_def)

lemma local_service_quiet: "quiet c c' \<Longrightarrow> find_local_service c' n p = find_local_service c n p"
  by (simp add: find_local_service_def quiet_frame)

lemma local_service_update:
  "find_local_service (c\<lparr>cl_local_services := AList.update k s (cl_local_services c')\<rparr>) n p =
     (if local_key n p = k then Some s else map_of (cl_local_services c') (local_key n p))"
  by (simp add: find_local_service_def map_of_update)

lemma local_service_store:
  "find_local_service (store_local_service s c) n p =
     (if local_key n p = local_key (rr_name (ls_request s)) (rr_port (ls_request s))
      then Some s else find_local_service c n p)"
  by (simp add: store_local_service_def find_local_service_def map_of_update)

lemma store_frame [simp]:
  "history (store_local_service s c) = history c"
  "cl_settings (store_local_service s c) = cl_settings c"
  "cl_agent_id (store_local_service s c) = cl_agent_id c"
  "cl_agent_run_id (store_local_service s c) = cl_agent_run_id c"
  "cl_lease_running (store_local_service s c) = cl_lease_running c"
  by (simp_all add: store_local_service_def)

section \<open>Keys\<close>

definition key_of :: "local_service \<Rightarrow> string" where
  "key_of s = local_key (rr_name (ls_request s)) (rr_port (ls_request s))"

lemma local_key_inject:
  "local_key n p = local_key n' p' \<longleftrightarrow> trim_space n = trim_space n' \<and> p = p'"
  by (simp add: local_key_def append_sep_inject)

lemma build_agent_id_inject:
  assumes "\<And>x. x \<in> {st_cluster_name s, st_zone s, st_cluster_name s', st_zone s'} \<Longrightarrow> CHR '':'' \<notin> set x"
  shows "build_agent_id s = build_agent_id s' \<longleftrightarrow>
    trim_space (st_cluster_name s) = trim_space (st_cluster_name s') \<and>
    trim_space (st_zone s) = trim_space (st_zone s') \<and>
    trim_space (st_host_ip s) = trim_space (st_host_ip s')"
proof -
  have "CHR '':'' \<notin> set (trim_space x)"
    if "x \<in> {st_cluster_name s, st_zone s, st_cluster_name s', st_zone s'}" for x
    using assms [OF that] set_trim_space by blast
  then show ?thesis
    by (simp add: build_agent_id_def append_sep_inject_left)
qed

section \<open>Route documents\<close>

definition accepts_route :: "env \<Rightarrow> string option \<Rightarrow> route_document \<Rightarrow> bool" where
  "accepts_route w existing doc \<longleftrightarrow>
     (case existing of
        None \<Rightarrow> True
      | Some v \<Rightarrow> v = [] \<or> (\<exists>old. unmarshal_doc w v = Inr old \<and> route_equal old doc))"

lemma ensure_route_document_Inr:
  "ensure_route_document w c key doc = (Inr u, c') \<longleftrightarrow>
     (\<exists>payload. accepts_route w (kv_value w (history c) key) doc \<and>
        marshal_doc w (canonicalize doc) = Inr payload \<and>
        call_error w (history c) (KVGet key) = None \<and>
        call_error w (history c @ [Called (KVGet key) None]) (KVPut key payload) = None \<and>
        c' = c\<lparr>history := history c @ [Called (KVGet key) None, Called (KVPut key payload) None]\<rparr>)"
  by (auto simp: ensure_route_document_def accepts_route_def and_then_Inr call_Inr Let_def
      split: option.splits sum.splits if_splits)

lemma ensure_route_document_conflict:
  assumes "kv_value w (history c) key = Some v" "v \<noteq> []" "unmarshal_doc w v = Inr old"
    and "\<not> route_equal old doc" "call_error w (history c) (KVGet key) = None"
  shows "ensure_route_document w c key doc =
    (Inl (RouteConflict key), c\<lparr>history := history c @ [Called (KVGet key) None]\<rparr>)"
  using assms by (simp add: ensure_route_document_def call_def Let_def)

section \<open>Register\<close>

lemma new_instance_id_Inr:
  "new_instance_id w c = (Inr iid, c') \<longleftrightarrow>
     (\<exists>buffer. random_bytes w (history c) = Some buffer \<and>
        iid = instance_id buffer (unix_milli (clock w (history c @ [RandomRead]))) \<and>
        c' = c\<lparr>history := history c @ [RandomRead, ClockRead]\<rparr>)"
  by (auto simp: new_instance_id_def now_eq Let_def split: option.splits)

lemma registration_for_frame:
  "cl_settings c' = cl_settings c \<Longrightarrow> cl_started_at c' = cl_started_at c \<Longrightarrow>
     registration_for c' s = registration_for c s"
  by (simp add: registration_for_def)

definition route_key :: "client \<Rightarrow> register_request \<Rightarrow> string" where
  "route_key c r = route_config_ref (cl_settings c) (rr_env r) (rr_namespace r) (rr_name r)"

lemma new_local_service_history [simp]:
  "new_local_service (c\<lparr>history := h\<rparr>) r iid t = new_local_service c r iid t"
  by (simp add: new_local_service_def)

lemma registration_for_history [simp]:
  "registration_for (c\<lparr>history := h\<rparr>) s = registration_for c s"
  "registration_for c (s\<lparr>ls_state := st, ls_updated_at := u\<rparr>) = registration_for c s"
  by (simp_all add: registration_for_def)

lemma new_local_service_fields [simp]:
  "ls_request (new_local_service c r iid t) = r"
  "ls_instance_id (new_local_service c r iid t) = iid"
  "ls_lease_check_id (new_local_service c r iid t) = lease_check_id_for iid"
  by (simp_all add: new_local_service_def)

lemma register_fresh_Inr:
  assumes "register_fresh w c r = (Inr s, c')"
  obtains payload buffer t t' u where
    "s = (new_local_service c r (instance_id buffer (unix_milli t)) t')
      \<lparr>ls_state := StateServing, ls_updated_at := u\<rparr>"
    "accepts_route w (kv_value w (history c @ [ClockRead]) (route_key c r))
       (route_document_for r (clock w (history c)))"
    "marshal_doc w (canonicalize (route_document_for r (clock w (history c)))) = Inr payload"
    "cl_local_services c' = AList.update (local_key (rr_name r) (rr_port r)) s (cl_local_services c)"
    "calls_of (history c') = calls_of (history c) @
      [(KVGet (route_key c r), None), (KVPut (route_key c r) payload, None),
       (ServiceRegister (registration_for c s), None),
       (UpdateTTL (ls_lease_check_id s) ''agent ownership is healthy'' ''passing'', None)]"
  using assms
  by (auto simp: register_fresh_def register_instance_def and_then_Inr ensure_route_document_Inr new_instance_id_Inr
      call_Inr pass_lease_def now_eq Let_def store_local_service_def simp flip: route_key_def)

lemma register_fresh_stored:
  assumes "register_fresh w c r = (Inr s, c')"
  shows "ls_request s = r" "ls_state s = StateServing"
    "ls_lease_check_id s = lease_check_id_for (ls_instance_id s)"
    "cl_local_services c' = AList.update (local_key (rr_name r) (rr_port r)) s (cl_local_services c)"
    "find_local_service c' (rr_name r) (rr_port r) = Some s"
    "\<exists>payload t. marshal_doc w (canonicalize (route_document_for r t)) = Inr payload \<and>
       calls_of (history c') = calls_of (history c) @
         [(KVGet (route_key c r), None), (KVPut (route_key c r) payload, None),
          (ServiceRegister (registration_for c s), None),
          (UpdateTTL (ls_lease_check_id s) ''agent ownership is healthy'' ''passing'', None)]"
proof -
  from assms obtain payload buffer t t' u where
    s: "s = (new_local_service c r (instance_id buffer (unix_milli t)) t')
      \<lparr>ls_state := StateServing, ls_updated_at := u\<rparr>"
    and doc: "marshal_doc w (canonicalize (route_document_for r (clock w (history c)))) = Inr payload"
    and stored: "cl_local_services c' = AList.update (local_key (rr_name r) (rr_port r)) s (cl_local_services c)"
    and calls: "calls_of (history c') = calls_of (history c) @
      [(KVGet (route_key c r), None), (KVPut (route_key c r) payload, None),
       (ServiceRegister (registration_for c s), None),
       (UpdateTTL (ls_lease_check_id s) ''agent ownership is healthy'' ''passing'', None)]"
    by (rule register_fresh_Inr)
  show "ls_request s = r" "ls_state s = StateServing"
    "ls_lease_check_id s = lease_check_id_for (ls_instance_id s)"
    by (simp_all add: s)
  show "cl_local_services c' = AList.update (local_key (rr_name r) (rr_port r)) s (cl_local_services c)"
    by (rule stored)
  then show "find_local_service c' (rr_name r) (rr_port r) = Some s"
    by (simp add: find_local_service_def map_of_update)
  show "\<exists>payload t. marshal_doc w (canonicalize (route_document_for r t)) = Inr payload \<and>
       calls_of (history c') = calls_of (history c) @
         [(KVGet (route_key c r), None), (KVPut (route_key c r) payload, None),
          (ServiceRegister (registration_for c s), None),
          (UpdateTTL (ls_lease_check_id s) ''agent ownership is healthy'' ''passing'', None)]"
    using doc calls by blast
qed

lemma last_put_calls: "last_put h k = last_put (map (\<lambda>(a, e). Called a e) (calls_of h)) k"
  by (induction h rule: calls_of.induct) (auto split: option.split)

text \<open>The document a successful registration leaves in the store.\<close>

lemma register_fresh_put:
  assumes "register_fresh w c r = (Inr s, c')"
  shows "\<exists>payload t. marshal_doc w (canonicalize (route_document_for r t)) = Inr payload \<and>
    last_put (history c') (route_key c r) = Some payload"
proof -
  obtain payload t where doc: "marshal_doc w (canonicalize (route_document_for r t)) = Inr payload"
    and calls: "calls_of (history c') = calls_of (history c) @
      [(KVGet (route_key c r), None), (KVPut (route_key c r) payload, None),
       (ServiceRegister (registration_for c s), None),
       (UpdateTTL (ls_lease_check_id s) ''agent ownership is healthy'' ''passing'', None)]"
    using register_fresh_stored(6) [OF assms] by blast
  have "last_put (history c') (route_key c r) = Some payload"
    by (subst last_put_calls) (simp add: calls last_put_append)
  with doc show ?thesis by blast
qed

text \<open>The calls a failed registration made, and that it stored nothing.\<close>

definition routes_only :: "(consul_call \<times> string option) list \<Rightarrow> bool" where
  "routes_only cs \<longleftrightarrow> (\<forall>(a, e) \<in> set cs. \<exists>k v. a = KVGet k \<or> a = KVPut k v)"

lemma ensure_route_document_calls:
  assumes "ensure_route_document w c key doc = (res, c')"
  shows "\<exists>cs. calls_of (history c') = calls_of (history c) @ cs \<and> routes_only cs"
  using assms
  by (auto simp: ensure_route_document_def call_def Let_def routes_only_def
      split: option.splits sum.splits if_splits)

definition lease_failed :: "registration \<Rightarrow> go_error \<Rightarrow> (consul_call \<times> string option) list \<Rightarrow> bool" where
  "lease_failed g e cs \<longleftrightarrow>
     (\<exists>t pre. e = External t \<and> routes_only pre \<and> cs = pre @ [(ServiceRegister g, None),
        (UpdateTTL (lease_check_id_for (rg_id g)) ''agent ownership is healthy'' ''passing'', Some t)])"

lemma register_instance_Inl:
  assumes "register_instance w c r iid = (Inl e, c')"
  shows "quiet c c' \<and> (\<exists>g t. e = External t \<and>
    (calls_of (history c') = calls_of (history c) @ [(ServiceRegister g, Some t)] \<or>
     calls_of (history c') = calls_of (history c) @ [(ServiceRegister g, None),
        (UpdateTTL (lease_check_id_for (rg_id g)) ''agent ownership is healthy'' ''passing'', Some t)]))"
proof -
  have "rg_id (registration_for c (new_local_service c r iid t)) = iid" for t
    by (simp add: registration_for_def Let_def)
  then show ?thesis
    using assms
    by (auto simp: register_instance_def and_then_Inl now_eq Let_def pass_lease_def call_Inl call_Inr quiet_def)
qed

lemma register_fresh_Inl:
  assumes "register_fresh w c r = (Inl e, c')"
  shows "quiet c c' \<and> (\<exists>cs. calls_of (history c') = calls_of (history c) @ cs \<and>
    (\<forall>g. (ServiceRegister g, None) \<in> set cs \<longrightarrow> lease_failed g e cs))"
proof -
  let ?c0 = "c\<lparr>history := history c @ [ClockRead]\<rparr>"
  let ?doc = "route_document_for r (clock w (history c))"
  have c0: "quiet c ?c0" "calls_of (history ?c0) = calls_of (history c)"
    by (simp_all add: quietI)
  consider (doc) "ensure_route_document w ?c0 (route_key c r) ?doc = (Inl e, c')"
    | (rand) c1 where "ensure_route_document w ?c0 (route_key c r) ?doc = (Inr (), c1)"
        "new_instance_id w c1 = (Inl e, c')"
    | (later) c1 iid c2 where "ensure_route_document w ?c0 (route_key c r) ?doc = (Inr (), c1)"
        "new_instance_id w c1 = (Inr iid, c2)"
        "register_instance w c2 r iid = (Inl e, c')"
    using assms
    by (auto simp: register_fresh_def now_eq Let_def and_then_Inl simp flip: route_key_def)
  then show ?thesis
  proof cases
    case doc
    then show ?thesis
      using ensure_route_document_calls [OF doc] ensure_route_document_quiet [of ?c0 w "route_key c r" ?doc]
        quiet_trans [OF c0(1)] by (auto simp: routes_only_def)
  next
    case rand
    have "calls_of (history c') = calls_of (history c1)"
      using rand(2) by (auto simp: new_instance_id_def now_eq Let_def split: option.splits)
    then show ?thesis
      using ensure_route_document_calls [OF rand(1)] ensure_route_document_quiet [of ?c0 w "route_key c r" ?doc]
        new_instance_id_quiet [of c1 w] quiet_trans [OF c0(1)] rand
      by (auto simp: routes_only_def intro: quiet_trans)
  next
    case later
    obtain cs where cs: "calls_of (history c1) = calls_of (history c) @ cs" "routes_only cs"
      using ensure_route_document_calls [OF later(1)] by auto
    have "quiet c c2" "calls_of (history c2) = calls_of (history c1)"
      using ensure_route_document_quiet [of ?c0 w "route_key c r" ?doc] later(1)
        new_instance_id_quiet [of c1 w] later(2) quiet_trans [OF c0(1)]
      by (auto simp: new_instance_id_Inr intro: quiet_trans)
    with cs register_instance_Inl [OF later(3)] show ?thesis
      by (fastforce simp: lease_failed_def routes_only_def intro: quiet_trans)
  qed
qed

lemma register_cases:
  assumes "go_runtime w"
  shows "register w c r =
    (if \<not> valid_register r then (Inl (the (validate_register (range_fields w (history c)) r)), c)
     else case find_local_service c (rr_name r) (rr_port r) of
       None \<Rightarrow> register_fresh w c r
     | Some existing \<Rightarrow>
         if ls_state existing = StateDeregistered then register_fresh w c r
         else if same_register_request (ls_request existing) r then register_replay w c existing
         else and_then (register_retire w c existing) (\<lambda>_ c1. register_fresh w c1 r))"
  using assms validate_register_iff [of "range_fields w (history c)" r]
  by (auto simp: register_def go_runtime_def split: option.split)

lemma same_register_request_refl [simp]: "same_register_request r r"
  by (simp add: same_register_request_def)

lemma register_replay_Inr:
  "register_replay w c e = (Inr s, c') \<longleftrightarrow>
     (let a = UpdateTTL (ls_lease_check_id e) ''agent ownership is healthy'' ''passing'';
          h = history c @ [Called a None]
      in call_error w (history c) a = None \<and> s = e\<lparr>ls_updated_at := clock w h\<rparr> \<and>
         c' = store_local_service s (c\<lparr>history := h @ [ClockRead]\<rparr>))"
  by (auto simp: register_replay_def and_then_Inr pass_lease_def call_Inr now_eq Let_def)

lemma register_retire_Inr:
  "register_retire w c e = (Inr u, c') \<longleftrightarrow>
     call_error w (history c) (ServiceDeregister (ls_instance_id e)) = None \<and>
     c' = store_local_service
       (e\<lparr>ls_state := StateDeregistered,
          ls_updated_at := clock w (history c @ [Called (ServiceDeregister (ls_instance_id e)) None])\<rparr>)
       (c\<lparr>history := history c @ [Called (ServiceDeregister (ls_instance_id e)) None, ClockRead]\<rparr>)"
  by (auto simp: register_retire_def and_then_Inr call_Inr now_eq Let_def store_local_service_def)

text \<open>Where the key is free, registering is exactly \<open>register_fresh\<close> of a valid request.\<close>

lemma register_free:
  assumes "go_runtime w"
    and "map_option ls_state (find_local_service c (rr_name r) (rr_port r)) \<in> {None, Some StateDeregistered}"
  shows "register w c r = (Inr s, c') \<longleftrightarrow> valid_register r \<and> register_fresh w c r = (Inr s, c')"
  using assms by (auto simp: register_cases split: option.splits)

lemma register_retire_frame:
  assumes "register_retire w c e = (Inr u, c')"
  shows "cl_settings c' = cl_settings c" "last_put (history c') = last_put (history c)"
    "find_local_service c' (rr_name (ls_request e)) (rr_port (ls_request e)) =
       Some (e\<lparr>ls_state := StateDeregistered,
          ls_updated_at := clock w (history c @ [Called (ServiceDeregister (ls_instance_id e)) None])\<rparr>)"
  using assms
  by (auto simp: register_retire_Inr last_put_append local_service_store fun_eq_iff)

lemma register_fresh_settings:
  assumes "register_fresh w c r = (res, c')" "valid_register r"
  shows "cl_settings c' = cl_settings c"
  using register_fresh_evolves [OF assms(2), of c w] assms(1) by (simp add: evolves_def same_identity_def)

section \<open>Drain and Deregister\<close>

lemma validate_drain_grace: "validate_drain r = None \<Longrightarrow> \<exists>g. grace_period r = Inr g \<and> 0 < g"
  by (auto simp: validate_drain_def grace_period_positive split: if_splits sum.splits)

lemma drain_Inr:
  "drain w c r = (Inr s, c') \<longleftrightarrow> (\<exists>e grace. let a = EnableServiceMaintenance (ls_instance_id e) ''draining by sidecar-agent'';
       h = history c @ [Called a None] in
     validate_drain r = None \<and> grace_period r = Inr grace \<and>
     find_local_service c (dr_name r) (dr_port r) = Some e \<and> call_error w (history c) a = None \<and>
     s = e\<lparr>ls_state := StateDraining, ls_updated_at := clock w (h @ [ClockRead]),
          ls_drain_deadline := Some (clock w h + grace)\<rparr> \<and>
     c' = count DrainTotal (c\<lparr>history := h @ [ClockRead, ClockRead],
        cl_local_services := AList.update (local_key (dr_name r) (dr_port r)) s (cl_local_services c)\<rparr>))"
  by (auto simp: drain_def and_then_Inr call_Inr now_eq Let_def split: option.splits sum.splits)

lemma deregister_Inr:
  "deregister w c r = (Inr s, c') \<longleftrightarrow> (\<exists>e. let a = ServiceDeregister (ls_instance_id e);
       h = history c @ [Called a None] in
     validate_deregister r = None \<and>
     find_local_service c (de_name r) (de_port r) = Some e \<and> call_error w (history c) a = None \<and>
     s = e\<lparr>ls_state := StateDeregistered, ls_updated_at := clock w h, ls_drain_deadline := None\<rparr> \<and>
     c' = count DeregisterTotal (c\<lparr>history := h @ [ClockRead],
        cl_local_services := AList.update (local_key (de_name r) (de_port r)) s (cl_local_services c)\<rparr>))"
  by (auto simp: deregister_def and_then_Inr call_Inr now_eq Let_def split: option.splits)

lemma drain_Inl_frame: "drain w c r = (Inl e, c') \<Longrightarrow> quiet c c'"
  using call_quiet [of c w]
  by (auto simp: drain_def and_then_Inl now_eq Let_def call_Inl intro: quietI
      split: option.splits sum.splits)

lemma deregister_Inl_frame: "deregister w c r = (Inl e, c') \<Longrightarrow> quiet c c'"
  by (auto simp: deregister_def and_then_Inl now_eq Let_def call_Inl intro: quietI split: option.splits)

section \<open>Leases\<close>

lemma pass_lease_calls: "calls_of (history (snd (pass_lease w c s))) = calls_of (history c) @
    [(UpdateTTL (ls_lease_check_id s) ''agent ownership is healthy'' ''passing'',
      call_error w (history c) (UpdateTTL (ls_lease_check_id s) ''agent ownership is healthy'' ''passing''))]"
  by (simp add: pass_lease_def call_def Let_def split: option.split)

lemma renew_leases_calls:
  "\<exists>errs. length errs = length ss \<and> calls_of (history (renew_leases w c ss)) = calls_of (history c) @
     zip (map (\<lambda>s. UpdateTTL (ls_lease_check_id s) ''agent ownership is healthy'' ''passing'') ss) errs"
proof (induction ss arbitrary: c)
  case (Cons s ss)
  from Cons [of "snd (pass_lease w c s)"] obtain errs where
    "length errs = length ss \<and> calls_of (history (renew_leases w (snd (pass_lease w c s)) ss)) =
       calls_of (history (snd (pass_lease w c s))) @
       zip (map (\<lambda>s. UpdateTTL (ls_lease_check_id s) ''agent ownership is healthy'' ''passing'') ss) errs"
    by blast
  then show ?case
    by (intro exI [of _ "call_error w (history c)
        (UpdateTTL (ls_lease_check_id s) ''agent ownership is healthy'' ''passing'') # errs"])
      (simp add: pass_lease_calls)
qed simp

lemma renew_leases_each:
  assumes "s \<in> set ss"
  shows "\<exists>err. (UpdateTTL (ls_lease_check_id s) ''agent ownership is healthy'' ''passing'', err)
    \<in> set (calls_of (history (renew_leases w c ss)))"
proof -
  let ?calls = "map (\<lambda>s. UpdateTTL (ls_lease_check_id s) ''agent ownership is healthy'' ''passing'') ss"
  obtain errs where len: "length ?calls = length errs"
    and calls: "calls_of (history (renew_leases w c ss)) = calls_of (history c) @ zip ?calls errs"
    using renew_leases_calls [of ss w c] length_map by metis
  have "UpdateTTL (ls_lease_check_id s) ''agent ownership is healthy'' ''passing'' \<in> set ?calls"
    using assms by simp
  from in_set_impl_in_set_zip1 [OF len this] show ?thesis
    unfolding calls by auto
qed

section \<open>Shutdown\<close>

definition state_at :: "client \<Rightarrow> string \<Rightarrow> service_state option" where
  "state_at c k = map_option ls_state (map_of (cl_local_services c) k)"

lemma state_at_quiet: "quiet c c' \<Longrightarrow> state_at c' = state_at c"
  by (simp add: state_at_def quiet_frame fun_eq_iff)

lemma state_at_store:
  "state_at (store_local_service s c) = (state_at c)(key_of s \<mapsto> ls_state s)"
  by (auto simp: state_at_def store_local_service_def map_of_update key_of_def fun_eq_iff)

lemma key_of_update [simp]:
  "key_of (s\<lparr>ls_state := x\<rparr>) = key_of s" "key_of (s\<lparr>ls_updated_at := t\<rparr>) = key_of s"
  "key_of (s\<lparr>ls_drain_deadline := d\<rparr>) = key_of s"
  by (simp_all add: key_of_def)

lemma state_at_frame [simp]: "state_at (c\<lparr>history := h\<rparr>) = state_at c"
  "state_at (c\<lparr>cl_lease_running := b\<rparr>) = state_at c" "state_at (count k c) = state_at c"
  by (simp_all add: state_at_def fun_eq_iff)

text \<open>The services before the first failing call are gone, the rest is untouched.\<close>

lemma deregister_all_outcome:
  assumes "deregister_all w c ss = (res, c')"
  shows "\<exists>n \<le> length ss.
    calls_of (history c') = calls_of (history c) @
      map (\<lambda>s. (ServiceDeregister (ls_instance_id s), None)) (take n ss) @
      (case res of Inr _ \<Rightarrow> []
       | Inl e \<Rightarrow> [(ServiceDeregister (ls_instance_id (ss ! n)), Some (case e of External t \<Rightarrow> t | _ \<Rightarrow> []))]) \<and>
    (is_ok res \<longleftrightarrow> n = length ss) \<and>
    state_at c' = (\<lambda>k. if k \<in> key_of ` set (take n ss) then Some StateDeregistered else state_at c k) \<and>
    cl_lease_running c' = cl_lease_running c"
  using assms
proof (induction ss arbitrary: c)
  case Nil
  then show ?case by auto
next
  case (Cons s ss)
  let ?a = "ServiceDeregister (ls_instance_id s)"
  show ?case
  proof (cases "call_error w (history c) ?a")
    case (Some t)
    with Cons.prems show ?thesis
      by (intro exI [of _ 0]) (auto simp: call_def Let_def)
  next
    case None
    let ?h = "history c @ [Called ?a None]"
    let ?c = "store_local_service (s\<lparr>ls_state := StateDeregistered, ls_updated_at := clock w ?h\<rparr>)
       (c\<lparr>history := ?h @ [ClockRead]\<rparr>)"
    have "deregister_all w ?c ss = (res, c')"
      using None Cons.prems by (simp add: call_def now_eq Let_def)
    from Cons.IH [OF this] obtain n where n: "n \<le> length ss"
      "calls_of (history c') = calls_of (history ?c) @
        map (\<lambda>s. (ServiceDeregister (ls_instance_id s), None)) (take n ss) @
        (case res of Inr _ \<Rightarrow> []
         | Inl e \<Rightarrow> [(ServiceDeregister (ls_instance_id (ss ! n)), Some (case e of External t \<Rightarrow> t | _ \<Rightarrow> []))])"
      "is_ok res \<longleftrightarrow> n = length ss"
      "state_at c' = (\<lambda>k. if k \<in> key_of ` set (take n ss) then Some StateDeregistered else state_at ?c k)"
      "cl_lease_running c' = cl_lease_running ?c"
      by auto
    show ?thesis
      using n by (cases res; intro exI [of _ "Suc n"]; simp add: state_at_store fun_eq_iff)
  qed
qed

end
