(* ===== verification/Registry_Lifecycle.thy ===== *)
theory Registry_Lifecycle
  imports Registry_Effects
begin

text \<open>
  What the registry client promises, more abstractly: the life of each instance as a step relation
  \<open>lifecycle\<close> on the map from keys to (instance id, state), and the agreement of that map with
  what Consul was told. Every method refines zero or more lifecycle steps and keeps the agreement;
  \<open>tracked_operation\<close> is that contract, an extension of \<open>registry_operation\<close>.
\<close>

section \<open>The abstract lifecycle\<close>

type_synonym service_view = "string \<Rightarrow> (string \<times> service_state) option"

inductive lifecycle :: "service_view \<Rightarrow> service_view \<Rightarrow> bool" where
  enter: "map_option snd (m k) \<in> {None, Some StateDeregistered} \<Longrightarrow> lifecycle m (m(k \<mapsto> (i, StateServing)))"
| drained: "m k = Some (i, s) \<Longrightarrow> lifecycle m (m(k \<mapsto> (i, StateDraining)))"
| removed: "m k = Some (i, s) \<Longrightarrow> lifecycle m (m(k \<mapsto> (i, StateDeregistered)))"

inductive_cases lifecycleE: "lifecycle m m'"

text \<open>An instance only gives way to another at its key once it is deregistered.\<close>

lemma lifecycle_replaced:
  assumes "lifecycle m m'" "m k = Some (i, s)" "m' k = Some (j, s')" "i \<noteq> j"
  shows "s = StateDeregistered \<and> s' = StateServing"
  using assms by (elim lifecycleE) (auto split: if_splits)

lemma lifecycle_keeps_keys: "lifecycle\<^sup>*\<^sup>* m m' \<Longrightarrow> dom m \<subseteq> dom m'"
  by (induction rule: rtranclp_induct) (auto elim!: lifecycleE)

definition view :: "client \<Rightarrow> service_view" where
  "view c k = map_option (\<lambda>s. (ls_instance_id s, ls_state s)) (map_of (cl_local_services c) k)"

lemma view_update:
  "cl_local_services c' = AList.update k s (cl_local_services c) \<Longrightarrow>
     view c' = (view c)(k \<mapsto> (ls_instance_id s, ls_state s))"
  by (auto simp: view_def map_of_update fun_eq_iff)

lemma view_quiet: "quiet c c' \<Longrightarrow> view c' = view c"
  by (simp add: view_def quiet_frame fun_eq_iff)

lemma view_lease [simp]: "view (c\<lparr>cl_lease_running := b\<rparr>) = view c"
  by (simp add: view_def fun_eq_iff)

lemma view_local: "find_local_service c n p = Some s \<Longrightarrow> view c (local_key n p) = Some (ls_instance_id s, ls_state s)"
  by (simp add: view_def find_local_service_def)

section \<open>Agreement with what Consul was told\<close>

definition told :: "(consul_call \<times> string option) list \<Rightarrow> local_service \<Rightarrow> bool" where
  "told cs s \<longleftrightarrow>
     (\<exists>g. rg_id g = ls_instance_id s \<and> (ServiceRegister g, None) \<in> set cs) \<and>
     (ls_state s = StateDeregistered \<longrightarrow> (ServiceDeregister (ls_instance_id s), None) \<in> set cs) \<and>
     (ls_state s = StateDraining \<longrightarrow>
        (EnableServiceMaintenance (ls_instance_id s) ''draining by sidecar-agent'', None) \<in> set cs)"

definition tracked :: "client \<Rightarrow> bool" where
  "tracked c \<longleftrightarrow> (\<forall>(k, s) \<in> set (cl_local_services c). told (calls_of (history c)) s)"

lemma told_mono: "told cs s \<Longrightarrow> set cs \<subseteq> set cs' \<Longrightarrow> told cs' s"
  unfolding told_def by blast

lemma calls_prefix: "prefix h h' \<Longrightarrow> set (calls_of h) \<subseteq> set (calls_of h')"
  by (auto simp: prefix_def)

lemma quiet_tracked: "quiet c c' \<Longrightarrow> tracked c \<Longrightarrow> tracked c'"
  using calls_prefix [of "history c" "history c'"]
  by (auto simp: tracked_def quiet_frame intro: told_mono)

lemma update_tracked:
  assumes "tracked c" "cl_local_services c' = AList.update k s (cl_local_services c)"
    and "set (calls_of (history c)) \<subseteq> set (calls_of (history c'))" "told (calls_of (history c')) s"
  shows "tracked c'"
proof -
  have sub: "set (AList.update k s al) \<subseteq> insert (k, s) (set al)" for al :: "(string \<times> local_service) list"
    by (induction al) auto
  have "told (calls_of (history c')) s'" if "(k', s') \<in> set (cl_local_services c')" for k' s'
  proof -
    have "s' = s \<or> (k', s') \<in> set (cl_local_services c)"
      using that sub [of "cl_local_services c"] by (auto simp: assms(2))
    then show ?thesis
      using assms(1,4) told_mono [OF _ assms(3), of s'] by (auto simp: tracked_def)
  qed
  then show ?thesis
    by (auto simp: tracked_def)
qed

lemma local_told: "tracked c \<Longrightarrow> find_local_service c n p = Some s \<Longrightarrow> told (calls_of (history c)) s"
  by (auto simp: tracked_def find_local_service_def dest: map_of_SomeD)

section \<open>The operations refine the lifecycle\<close>

definition refines :: "client \<Rightarrow> client \<Rightarrow> bool" where
  "refines c c' \<longleftrightarrow> tracked c' \<and> lifecycle\<^sup>*\<^sup>* (view c) (view c')"

lemma refines_trans: "refines c d \<Longrightarrow> refines d e \<Longrightarrow> refines c e"
  unfolding refines_def by (meson rtranclp_trans)

lemma quiet_refines: "quiet c c' \<Longrightarrow> tracked c \<Longrightarrow> refines c c'"
  by (simp add: refines_def quiet_tracked view_quiet)

lemma step_refines:
  assumes "tracked c" "cl_local_services c' = AList.update k s (cl_local_services c)"
    and "set (calls_of (history c)) \<subseteq> set (calls_of (history c'))" "told (calls_of (history c')) s"
    and "lifecycle (view c) ((view c)(k \<mapsto> (ls_instance_id s, ls_state s)))"
  shows "refines c c'"
  using assms update_tracked [OF assms(1-4)] view_update [OF assms(2)] by (auto simp: refines_def)

lemma touched_refines:
  assumes "tracked c" "cl_local_services c' = AList.update k s (cl_local_services c)"
    and "set (calls_of (history c)) \<subseteq> set (calls_of (history c'))" "told (calls_of (history c')) s"
    and "view c k = Some (ls_instance_id s, ls_state s)"
  shows "refines c c'"
  using assms update_tracked [OF assms(1-4)] view_update [OF assms(2)]
  by (simp add: refines_def fun_upd_idem)

lemma fresh_refines:
  assumes "tracked c" "register_fresh w c r = (res, c')"
    and "map_option snd (view c (local_key (rr_name r) (rr_port r))) \<in> {None, Some StateDeregistered}"
  shows "refines c c'"
proof (cases res)
  case (Inl e)
  with assms show ?thesis
    using register_fresh_Inl [of w c r e c'] by (simp add: quiet_refines)
next
  case (Inr s)
  with assms(2) have fresh: "register_fresh w c r = (Inr s, c')" by simp
  note stored = register_fresh_stored [OF fresh]
  obtain cs where calls: "calls_of (history c') = calls_of (history c) @ cs"
    and reg: "(ServiceRegister (registration_for c s), None) \<in> set cs"
    using stored(6) by fastforce
  have "rg_id (registration_for c s) = ls_instance_id s"
    by (simp add: registration_for_def Let_def)
  with calls reg stored(2) have "told (calls_of (history c')) s"
    by (auto simp: told_def)
  moreover have "lifecycle (view c)
      ((view c)(local_key (rr_name r) (rr_port r) \<mapsto> (ls_instance_id s, ls_state s)))"
    unfolding stored(2) using assms(3) by (rule lifecycle.enter)
  ultimately show ?thesis
    using calls by (intro step_refines [OF assms(1) stored(4)]) auto
qed

lemma replay_refines:
  assumes "tracked c" "find_local_service c n p = Some e" "key_of e = local_key n p"
    and "register_replay w c e = (res, c')"
  shows "refines c c'"
proof (cases res)
  case (Inl x)
  with assms(4) have "quiet c c'"
    using pass_lease_quiet [of c w e] by (auto simp: register_replay_def and_then_Inl now_eq Let_def)
  then show ?thesis using assms(1) by (rule quiet_refines)
next
  case (Inr s)
  let ?a = "UpdateTTL (ls_lease_check_id e) ''agent ownership is healthy'' ''passing''"
  have s: "s = e\<lparr>ls_updated_at := ls_updated_at s\<rparr>"
    and c': "cl_local_services c' = AList.update (local_key n p) s (cl_local_services c)"
      "calls_of (history c') = calls_of (history c) @ [(?a, None)]"
    using assms(3,4) Inr by (auto simp: register_replay_Inr Let_def store_local_service_def key_of_def)
  have "told (calls_of (history c')) s"
    using told_mono [OF local_told [OF assms(1,2)], of "calls_of (history c')"] c'(2)
    by (subst s) (auto simp: told_def)
  moreover have "view c (local_key n p) = Some (ls_instance_id s, ls_state s)"
    by (subst s, subst (2) s) (simp add: view_local assms(2))
  ultimately show ?thesis
    using c'(2) by (intro touched_refines [OF assms(1) c'(1)]) auto
qed

lemma retire_refines:
  assumes "tracked c" "find_local_service c n p = Some e" "key_of e = local_key n p"
    and "register_retire w c e = (res, c')"
  shows "refines c c' \<and> (is_ok res \<longrightarrow> map_option snd (view c' (local_key n p)) = Some StateDeregistered)"
proof (cases res)
  case (Inl x)
  with assms(4) have "quiet c c'"
    using call_quiet [of c w] by (auto simp: register_retire_def and_then_Inl now_eq call_Inl quietI)
  then show ?thesis using assms(1) Inl by (simp add: quiet_refines)
next
  case (Inr u)
  let ?a = "ServiceDeregister (ls_instance_id e)"
  let ?s = "e\<lparr>ls_state := StateDeregistered, ls_updated_at := clock w (history c @ [Called ?a None])\<rparr>"
  have c': "cl_local_services c' = AList.update (local_key n p) ?s (cl_local_services c)"
      "calls_of (history c') = calls_of (history c) @ [(?a, None)]"
    using assms(3,4) Inr by (auto simp: register_retire_Inr store_local_service_def key_of_def)
  have "told (calls_of (history c')) ?s"
    using local_told [OF assms(1,2)] c'(2) by (auto simp: told_def)
  moreover have "lifecycle (view c) ((view c)(local_key n p \<mapsto> (ls_instance_id ?s, ls_state ?s)))"
    using lifecycle.removed [of "view c" "local_key n p", OF view_local [OF assms(2)]] by simp
  ultimately show ?thesis
    using c'(2) view_update [OF c'(1)] by (intro conjI step_refines [OF assms(1) c'(1)]) auto
qed

lemma register_refines:
  assumes "go_runtime w" "client_inv c" "tracked c"
  shows "refines c (snd (register w c r))"
proof (cases "valid_register r")
  case False
  then show ?thesis
    using assms by (simp add: register_cases quiet_refines)
next
  case valid: True
  let ?k = "local_key (rr_name r) (rr_port r)"
  show ?thesis
  proof (cases "find_local_service c (rr_name r) (rr_port r)")
    case None
    then have "view c ?k = None"
      by (simp add: view_def find_local_service_def)
    then show ?thesis
      using fresh_refines [OF assms(3), of w r] assms(1) valid None
      by (cases "register_fresh w c r") (simp add: register_cases)
  next
    case (Some e)
    have key: "key_of e = ?k"
      using local_service_ok [OF assms(2) Some] by (simp add: service_ok_def key_of_def Let_def)
    consider (gone) "ls_state e = StateDeregistered"
      | (same) "ls_state e \<noteq> StateDeregistered" "same_register_request (ls_request e) r"
      | (changed) "ls_state e \<noteq> StateDeregistered" "\<not> same_register_request (ls_request e) r"
      by blast
    then show ?thesis
    proof cases
      case gone
      then show ?thesis
        using fresh_refines [OF assms(3), of w r] assms(1) valid Some view_local [OF Some]
        by (cases "register_fresh w c r") (simp add: register_cases)
    next
      case same
      then show ?thesis
        using replay_refines [OF assms(3) Some key] assms(1) valid Some
        by (cases "register_replay w c e") (simp add: register_cases)
    next
      case changed
      obtain res c1 where retire: "register_retire w c e = (res, c1)"
        by (cases "register_retire w c e")
      note c1 = retire_refines [OF assms(3) Some key retire]
      have step: "register w c r = and_then (res, c1) (\<lambda>_ c1. register_fresh w c1 r)"
        using changed assms(1) valid Some retire by (simp add: register_cases)
      show ?thesis
      proof (cases res)
        case (Inr u)
        obtain res' c2 where fresh: "register_fresh w c1 r = (res', c2)"
          by (cases "register_fresh w c1 r")
        have "refines c1 c2"
          using c1 Inr by (intro fresh_refines [OF _ fresh]) (auto simp: refines_def)
        then show ?thesis
          using c1 refines_trans [of c c1 c2] by (simp add: step Inr fresh)
      qed (use c1 in \<open>simp add: step\<close>)
    qed
  qed
qed

lemma drain_refines:
  assumes "tracked c"
  shows "refines c (snd (drain w c r))"
proof (cases "drain w c r")
  case (Pair res c')
  show ?thesis
  proof (cases res)
    case (Inl x)
    with Pair show ?thesis
      using drain_Inl_frame assms by (auto intro: quiet_refines)
  next
    case (Inr s)
    let ?k = "local_key (dr_name r) (dr_port r)"
    from Pair Inr obtain e where e: "find_local_service c (dr_name r) (dr_port r) = Some e"
      and s: "ls_instance_id s = ls_instance_id e" "ls_state s = StateDraining"
      and c': "cl_local_services c' = AList.update ?k s (cl_local_services c)"
        "calls_of (history c') = calls_of (history c) @
           [(EnableServiceMaintenance (ls_instance_id e) ''draining by sidecar-agent'', None)]"
      by (auto simp: drain_Inr Let_def)
    have "told (calls_of (history c')) s"
      using local_told [OF assms e] c'(2) s by (auto simp: told_def)
    moreover have "lifecycle (view c) ((view c)(?k \<mapsto> (ls_instance_id s, ls_state s)))"
      using lifecycle.drained [of "view c" ?k, OF view_local [OF e]] s by simp
    ultimately have "refines c c'"
      using c'(2) by (intro step_refines [OF assms c'(1)]) auto
    with Pair show ?thesis by simp
  qed
qed

lemma deregister_refines:
  assumes "tracked c"
  shows "refines c (snd (deregister w c r))"
proof (cases "deregister w c r")
  case (Pair res c')
  show ?thesis
  proof (cases res)
    case (Inl x)
    with Pair show ?thesis
      using deregister_Inl_frame assms by (auto intro: quiet_refines)
  next
    case (Inr s)
    let ?k = "local_key (de_name r) (de_port r)"
    from Pair Inr obtain e where e: "find_local_service c (de_name r) (de_port r) = Some e"
      and s: "ls_instance_id s = ls_instance_id e" "ls_state s = StateDeregistered"
      and c': "cl_local_services c' = AList.update ?k s (cl_local_services c)"
        "calls_of (history c') = calls_of (history c) @ [(ServiceDeregister (ls_instance_id e), None)]"
      by (auto simp: deregister_Inr Let_def)
    have "told (calls_of (history c')) s"
      using local_told [OF assms e] c'(2) s by (auto simp: told_def)
    moreover have "lifecycle (view c) ((view c)(?k \<mapsto> (ls_instance_id s, ls_state s)))"
      using lifecycle.removed [of "view c" ?k, OF view_local [OF e]] s by simp
    ultimately have "refines c c'"
      using c'(2) by (intro step_refines [OF assms c'(1)]) auto
    with Pair show ?thesis by simp
  qed
qed

text \<open>Of the services \<open>Shutdown\<close> goes through, each is stored, and no two under one key.\<close>

lemma deregister_all_refines:
  assumes "tracked c" "distinct (map key_of ss)"
    and "\<forall>s \<in> set ss. view c (key_of s) = Some (ls_instance_id s, ls_state s) \<and> told (calls_of (history c)) s"
  shows "refines c (snd (deregister_all w c ss))"
  using assms
proof (induction ss arbitrary: c)
  case Nil
  then show ?case by (simp add: quiet_refines)
next
  case (Cons s ss)
  let ?a = "ServiceDeregister (ls_instance_id s)"
  show ?case
  proof (cases "call_error w (history c) ?a")
    case (Some t)
    then show ?thesis
      using Cons.prems(1) call_quiet [of c w ?a] by (simp add: call_def Let_def quiet_refines)
  next
    case None
    let ?h = "history c @ [Called ?a None]"
    let ?s = "s\<lparr>ls_state := StateDeregistered, ls_updated_at := clock w ?h\<rparr>"
    let ?c = "store_local_service ?s (c\<lparr>history := ?h @ [ClockRead]\<rparr>)"
    have c: "cl_local_services ?c = AList.update (key_of s) ?s (cl_local_services c)"
      "calls_of (history ?c) = calls_of (history c) @ [(?a, None)]"
      by (simp_all add: store_local_service_def key_of_def)
    have s: "view c (key_of s) = Some (ls_instance_id s, ls_state s)" "told (calls_of (history c)) s"
      using Cons.prems(3) by simp_all
    have "told (calls_of (history ?c)) ?s"
      using s(2) c(2) by (auto simp: told_def)
    moreover have "lifecycle (view c) ((view c)(key_of s \<mapsto> (ls_instance_id ?s, ls_state ?s)))"
      using lifecycle.removed [of "view c", OF s(1)] by simp
    ultimately have step: "refines c ?c"
      using c(2) by (intro step_refines [OF Cons.prems(1) c(1)]) auto
    have "refines ?c (snd (deregister_all w ?c ss))"
    proof (rule Cons.IH)
      show "\<forall>s' \<in> set ss. view ?c (key_of s') = Some (ls_instance_id s', ls_state s') \<and>
          told (calls_of (history ?c)) s'"
      proof
        fix s' assume s': "s' \<in> set ss"
        then have "key_of s' \<noteq> key_of s"
          using Cons.prems(2) by (metis distinct.simps(2) image_eqI list.simps(9) set_map)
        then show "view ?c (key_of s') = Some (ls_instance_id s', ls_state s') \<and>
            told (calls_of (history ?c)) s'"
          using Cons.prems(3) s' c(2) view_update [OF c(1)]
            told_mono [of "calls_of (history c)" s' "calls_of (history ?c)"] by auto
      qed
    qed (use step Cons.prems(2) in \<open>simp_all add: refines_def\<close>)
    then show ?thesis
      using None refines_trans [OF step] by (simp add: call_def now_eq Let_def)
  qed
qed

lemma map_fst_key_of:
  "client_inv c \<Longrightarrow> map fst (cl_local_services c) = map (\<lambda>e. key_of (snd e)) (cl_local_services c)"
  by (auto simp: client_inv_def service_ok_def key_of_def Let_def)

lemma active_distinct:
  assumes "go_runtime w" "client_inv c"
  shows "distinct (map key_of (active_local_services w c))"
proof -
  have "distinct (map (\<lambda>e. key_of (snd e)) (range_services w (history c) (cl_local_services c)))"
    using assms map_fst_key_of [OF assms(2)]
    by (simp add: client_inv_def go_runtime_def permutes_distinct_map)
  then have "distinct (map key_of (map snd (range_services w (history c) (cl_local_services c))))"
    by (simp add: comp_def)
  then show ?thesis
    unfolding active_local_services_def by (rule distinct_map_filter)
qed

lemma active_stored:
  assumes "go_runtime w" "client_inv c"
  shows "s \<in> set (active_local_services w c) \<longleftrightarrow>
    (key_of s, s) \<in> set (cl_local_services c) \<and> ls_state s \<noteq> StateDeregistered"
proof -
  have "(k, s) \<in> set (cl_local_services c) \<Longrightarrow> k = key_of s" for k
    using assms(2) by (auto simp: client_inv_def service_ok_def key_of_def Let_def)
  then show ?thesis
    using assms(1) by (auto simp: active_local_services_def go_runtime_def permutes_set image_iff)
      (metis snd_conv)
qed

lemma shutdown_refines:
  assumes "go_runtime w" "client_inv c" "tracked c"
  shows "refines c (snd (shutdown w c))"
proof -
  let ?c = "c\<lparr>cl_lease_running := False\<rparr>"
  have inv: "client_inv ?c"
    using assms(2) client_inv_cong [of c ?c] by (simp add: same_identity_def)
  have same: "tracked ?c" "view ?c = view c"
    using assms(3) by (simp_all add: tracked_def view_def fun_eq_iff)
  have "view ?c (key_of s) = Some (ls_instance_id s, ls_state s) \<and> told (calls_of (history ?c)) s"
    if "s \<in> set (active_local_services w ?c)" for s
  proof -
    have "(key_of s, s) \<in> set (cl_local_services ?c)"
      using that active_stored [OF assms(1) inv] by blast
    then show ?thesis
      using inv same(1) by (auto simp: view_def tracked_def client_inv_def)
  qed
  then have "refines ?c (snd (deregister_all w ?c (active_local_services w ?c)))"
    using active_distinct [OF assms(1) inv] same(1) by (intro deregister_all_refines) auto
  then show ?thesis
    by (simp add: shutdown_def Let_def refines_def same(2))
qed

lemma start_refines: "tracked c \<Longrightarrow> refines c (snd (start w c))"
proof -
  assume "tracked c"
  then have "refines c (snd (cleanup_previous_runs w c))"
    by (intro quiet_refines cleanup_previous_runs_quiet)
  then show ?thesis
    using \<open>tracked c\<close>
    by (cases "cleanup_previous_runs w c"; cases "fst (cleanup_previous_runs w c)")
      (auto simp: start_def refines_def tracked_def view_lease split: option.split)
qed

section \<open>The contract, extended\<close>

text \<open>A client of the registry may rely on this beyond \<open>registry_operation\<close>.\<close>

locale tracked_operation = registry_operation +
  assumes step_refines: "go_runtime w \<Longrightarrow> client_inv c \<Longrightarrow> tracked c \<Longrightarrow> refines c (step w c)"
begin

lemma keeps_tracked: "go_runtime w \<Longrightarrow> client_inv c \<Longrightarrow> tracked c \<Longrightarrow> tracked (step w c)"
  using step_refines by (simp add: refines_def)

lemma simulates:
  "go_runtime w \<Longrightarrow> client_inv c \<Longrightarrow> tracked c \<Longrightarrow> lifecycle\<^sup>*\<^sup>* (view c) (view (step w c))"
  using step_refines by (simp add: refines_def)

lemma keeps_keys:
  "go_runtime w \<Longrightarrow> client_inv c \<Longrightarrow> tracked c \<Longrightarrow> dom (view c) \<subseteq> dom (view (step w c))"
  using simulates lifecycle_keeps_keys by blast

end

interpretation start_tracked: tracked_operation "\<lambda>w c. snd (start w c)"
  by unfold_locales (rule start_refines)

interpretation register_tracked: tracked_operation "\<lambda>w c. snd (register w c r)" for r
  by unfold_locales (rule register_refines)

interpretation drain_tracked: tracked_operation "\<lambda>w c. snd (drain w c r)" for r
  by unfold_locales (rule drain_refines)

interpretation deregister_tracked: tracked_operation "\<lambda>w c. snd (deregister w c r)" for r
  by unfold_locales (rule deregister_refines)

interpretation lease_tracked: tracked_operation lease_tick
  by unfold_locales (simp add: lease_tick_def quiet_refines renew_leases_quiet)

interpretation discover_tracked: tracked_operation "\<lambda>w c. snd (discover w c)"
  by unfold_locales (simp add: quiet_refines discover_quiet)

interpretation shutdown_tracked: tracked_operation "\<lambda>w c. snd (shutdown w c)"
  by unfold_locales (rule shutdown_refines)

interpretation command_tracked: tracked_operation "\<lambda>w c. run_command w cmd c" for cmd
  by unfold_locales
    (cases cmd; simp add: start_tracked.step_refines register_tracked.step_refines
      drain_tracked.step_refines deregister_tracked.step_refines lease_tracked.step_refines
      discover_tracked.step_refines shutdown_tracked.step_refines)

interpretation run_tracked: tracked_operation "\<lambda>w c. run_commands w cmds c" for cmds
proof
  fix w c
  assume w: "go_runtime w"
  then show "client_inv c \<Longrightarrow> tracked c \<Longrightarrow> refines c (run_commands w cmds c)"
  proof (induction cmds arbitrary: c)
    case Nil
    then show ?case by (simp add: run_commands_def quiet_refines)
  next
    case (Cons cmd cmds)
    then have "refines c (run_command w cmd c)" "client_inv (run_command w cmd c)"
      by (simp_all add: command_tracked.step_refines command_op.keeps_inv)
    moreover from this have "refines (run_command w cmd c) (run_commands w cmds (run_command w cmd c))"
      using Cons.IH w by (simp add: refines_def)
    ultimately have "refines c (run_commands w cmds (run_command w cmd c))"
      by (blast intro: refines_trans)
    then show ?case
      by (simp add: run_commands_def)
  qed
qed

lemma new_with_client_tracked: "tracked (new_with_client w st m) \<and> view (new_with_client w st m) = Map.empty"
  by (simp add: new_with_client_def new_instance_id_def now_def tracked_def view_def fun_eq_iff Let_def
      split: option.split prod.split sum.split)

end
