(* ===== verification/Registry_Properties.thy ===== *)
theory Registry_Properties
  imports Registry_Lifecycle
begin

text \<open>
  The properties of the registry client: the invariant over all runs, what each operation does on
  success and on failure, and the behaviours a caller would not expect. The witnesses run the
  client against \<open>fake_env\<close>, the stub APIs of \<open>src/registry/consul_test.go\<close>.
\<close>

section \<open>The stub APIs of the tests\<close>

text \<open>
  Every call succeeds (\<open>fakeAgentAPI\<close>), the key-value store is a map that only this client writes
  (\<open>fakeKVAPI\<close>), catalog and health answer from fixed tables. The codec is a parameter that
  knows one document; clock and random source are constant.
\<close>

definition fake_env :: "string list \<Rightarrow> (string \<Rightarrow> service_entry option list) \<Rightarrow> route_document \<Rightarrow> env" where
  "fake_env names entries doc =
     \<lparr>call_error = (\<lambda>h a. None), kv_value = last_put, catalog_names = (\<lambda>h. names),
      health_entries = (\<lambda>h name passing_only. entries name), clock = (\<lambda>h. 1700000000000000000),
      random_bytes = (\<lambda>h. Some (\<lambda>i. 0)), marshal_doc = (\<lambda>d. Inr ''{}''),
      unmarshal_doc = (\<lambda>p. Inr doc), range_fields = (\<lambda>h fs. fs), range_services = (\<lambda>h ss. ss),
      sort_instances = sort_key discover_key\<rparr>"

lemma fake_env_runtime: "go_runtime (fake_env names entries doc)"
  by (simp add: go_runtime_def fake_env_def permutes_id sorts_by_sort_key)

definition demo_request :: register_request where
  "demo_request =
     \<lparr>rr_app_id = ''10001'', rr_app_name = ''auth-center'', rr_name = ''auth'',
      rr_namespace = ''default'', rr_port = 9090, rr_dns = ''auth.default.svc.cluster.local'',
      rr_env = ''prod'', rr_weight = 100, rr_protocol = ''grpc'',
      rr_kernel = \<lparr>k_language = ''go'', k_version = ''go-micro/v1.12.0''\<rparr>,
      rr_methods = [''/acme.auth.v1.AuthService/Login''], rr_version = ''v1.3.4''\<rparr>"

definition demo_settings :: settings where
  "demo_settings =
     \<lparr>st_address = [], st_scheme = [], st_datacenter = [], st_route_kv_prefix = ''routes'',
      st_request_timeout = 0, st_cluster_name = ''cluster-a'', st_zone = ''idc-a-1'',
      st_host_ip = ''127.0.0.1'', st_env = ''prod'', st_agent_lease_ttl = 10 * second,
      st_agent_lease_refresh_interval = 3 * second, st_deregister_critical_after = 30 * second\<rparr>"

definition demo_env :: env where
  "demo_env = fake_env [] (\<lambda>name. []) (route_document_for demo_request 1700000000000000000)"

definition demo_client :: client where
  "demo_client =
     \<lparr>cl_settings = demo_settings, cl_has_agent = True, cl_has_health = True, cl_has_catalog = True,
      cl_has_kv = True, cl_has_metrics = False, cl_agent_id = build_agent_id demo_settings,
      cl_agent_run_id = ''run'', cl_started_at = 0, cl_lease_running = True,
      cl_local_services = [], history = []\<rparr>"

lemma demo_env_runtime: "go_runtime demo_env"
  by (simp add: demo_env_def fake_env_runtime)

lemma demo_env_simps [simp]:
  "call_error demo_env h a = None" "kv_value demo_env h k = last_put h k"
  "clock demo_env h = 1700000000000000000" "random_bytes demo_env h = Some (\<lambda>i. 0)"
  "marshal_doc demo_env d = Inr ''{}''"
  "unmarshal_doc demo_env p = Inr (route_document_for demo_request 1700000000000000000)"
  "range_fields demo_env h = (\<lambda>fs. fs)" "range_services demo_env h = (\<lambda>ss. ss)"
  by (simp_all add: demo_env_def fake_env_def)

lemma trim_demo:
  assumes "graphic c" "graphic d"
  shows "trim_space (c # s @ [d]) = c # s @ [d]"
  using assms by (intro trim_space_trimmed) (simp add: trimmed_def)

lemma demo_request_valid: "valid_register demo_request"
  by (simp add: valid_register_def register_required_def demo_request_def has_prefix_def
      trim_space_trimmed trimmed_def graphic_def)

lemma demo_route_equal: "route_equal (route_document_for r t) (route_document_for r t')"
  by (simp add: route_equal_def route_document_for_def canonicalize_def Let_def)

text \<open>On an empty client the demonstration request is accepted.\<close>

lemma demo_register_empty:
  assumes "cl_local_services c = []"
  obtains s c' where "register demo_env c demo_request = (Inr s, c')"
proof -
  have "is_ok (fst (register demo_env c demo_request))"
    using assms
    by (simp add: register_cases demo_env_runtime demo_request_valid find_local_service_def demo_route_equal
        register_fresh_def register_instance_def ensure_route_document_def new_instance_id_def call_def
        now_eq Let_def pass_lease_def split: option.split)
  then show thesis
    using that by (metis is_ok_iff prod.collapse)
qed

lemma demo_register: obtains s c' where "register demo_env demo_client demo_request = (Inr s, c')"
  by (rule demo_register_empty [of demo_client]) (simp_all add: demo_client_def)

lemma new_with_client_empty: "cl_local_services (new_with_client w st m) = []"
  by (simp add: new_with_client_def new_instance_id_def now_def Let_def
      split: option.split prod.split sum.split)

section \<open>All runs\<close>

text \<open>
  C6. After any sequence of method calls on a new client, in any outcome of the outside, every
  stored service sits under its own key, was valid when registered, carries the derived fields of
  its request and the identity of this run of the agent, is serving, draining or deregistered, and
  has a drain deadline if it is draining and none while it serves; and the agent's identity and
  settings are those it was built with.
\<close>

theorem registry_invariant:
  assumes "go_runtime w"
  shows "client_inv (run_commands w cmds (new_with_client w st has_metrics)) \<and>
    cl_settings (run_commands w cmds (new_with_client w st has_metrics)) = st \<and>
    cl_agent_id (run_commands w cmds (new_with_client w st has_metrics)) = build_agent_id st \<and>
    cl_agent_run_id (run_commands w cmds (new_with_client w st has_metrics)) =
      cl_agent_run_id (new_with_client w st has_metrics)"
proof -
  have "cl_settings (new_with_client w st has_metrics) = st"
    "cl_agent_id (new_with_client w st has_metrics) = build_agent_id st"
    by (simp_all add: new_with_client_def new_instance_id_def now_def Let_def
        split: option.split prod.split sum.split)
  then show ?thesis
    using run_op.keeps_inv [OF assms new_with_client_inv] run_op.keeps_identity [OF assms new_with_client_inv]
    by (simp add: same_identity_def)
qed

theorem registry_invariant_witness:
  "client_inv (run_commands demo_env [CmdStart, CmdRegister demo_request, CmdLeaseTick]
     (new_with_client demo_env demo_settings False))"
  using registry_invariant [OF demo_env_runtime] by blast

section \<open>Register\<close>

text \<open>
  C14. A registration that returns a service was valid and leaves it serving under the key of its
  name and port, every other key as it was; and the calls to Consul were, in this order, reading
  and writing the route document, registering the service in the catalog and refreshing its lease.
\<close>

theorem register_success:
  assumes "go_runtime w" "register w c r = (Inr s, c')"
    and "map_option ls_state (find_local_service c (rr_name r) (rr_port r)) \<in> {None, Some StateDeregistered}"
  shows "valid_register r \<and> ls_request s = r \<and> ls_state s = StateServing \<and>
    ls_lease_check_id s = lease_check_id_for (ls_instance_id s) \<and>
    cl_local_services c' = AList.update (local_key (rr_name r) (rr_port r)) s (cl_local_services c) \<and>
    (\<exists>payload t. marshal_doc w (canonicalize (route_document_for r t)) = Inr payload \<and>
       calls_of (history c') = calls_of (history c) @
         [(KVGet (route_key c r), None), (KVPut (route_key c r) payload, None),
          (ServiceRegister (registration_for c s), None),
          (UpdateTTL (ls_lease_check_id s) ''agent ownership is healthy'' ''passing'', None)])"
proof -
  have valid: "valid_register r" and fresh: "register_fresh w c r = (Inr s, c')"
    using assms by (auto simp: register_free)
  show ?thesis
    using valid register_fresh_stored [OF fresh] by simp
qed

lemma demo_free:
  "map_option ls_state (find_local_service demo_client (rr_name demo_request) (rr_port demo_request))
     \<in> {None, Some StateDeregistered}"
  by (simp add: find_local_service_def demo_client_def)

theorem register_success_witness:
  "\<exists>s c'. register demo_env demo_client demo_request = (Inr s, c') \<and> ls_state s = StateServing"
proof -
  obtain s c' where reg: "register demo_env demo_client demo_request = (Inr s, c')"
    by (rule demo_register)
  then show ?thesis
    using register_success [OF demo_env_runtime reg demo_free] by blast
qed

text \<open>
  Registering the same service again is idempotent: it returns the instance already stored,
  with the same instance id and in the state it is in (also when that is draining), and its only
  effect on Consul is one refresh of the lease.
\<close>

theorem register_replay_idempotent:
  assumes "go_runtime w" "find_local_service c (rr_name r) (rr_port r) = Some e"
    and "ls_state e \<noteq> StateDeregistered" "same_register_request (ls_request e) r"
    and "register w c r = (Inr s, c')"
  shows "(\<exists>t. s = e\<lparr>ls_updated_at := t\<rparr>) \<and>
    calls_of (history c') = calls_of (history c) @
      [(UpdateTTL (ls_lease_check_id e) ''agent ownership is healthy'' ''passing'', None)] \<and>
    state_at c' = state_at c"
proof -
  have "register_replay w c e = (Inr s, c')"
    using assms by (simp add: register_cases split: if_splits)
  moreover have "state_at c (key_of e) = Some (ls_state e)"
    using assms(2,4) by (simp add: state_at_def find_local_service_def key_of_def same_register_request_def)
  ultimately show ?thesis
    by (auto simp: register_replay_Inr Let_def state_at_store fun_eq_iff)
qed

theorem register_replay_idempotent_witness:
  "\<exists>s c1 s' c2. register demo_env demo_client demo_request = (Inr s, c1) \<and>
     register demo_env c1 demo_request = (Inr s', c2) \<and> ls_instance_id s' = ls_instance_id s"
proof -
  obtain s c1 where reg: "register demo_env demo_client demo_request = (Inr s, c1)"
    by (rule demo_register)
  then have "register_fresh demo_env demo_client demo_request = (Inr s, c1)"
    by (simp only: register_free [OF demo_env_runtime demo_free])
  note stored = register_fresh_stored [OF this]
  have "is_ok (fst (register demo_env c1 demo_request))"
    by (simp add: register_cases demo_env_runtime demo_request_valid register_replay_def pass_lease_def
        call_def now_eq Let_def stored)
  then obtain s' c2 where again: "register demo_env c1 demo_request = (Inr s', c2)"
    by (metis is_ok_iff prod.collapse)
  have "\<exists>t. s' = s\<lparr>ls_updated_at := t\<rparr>"
    using register_replay_idempotent [OF demo_env_runtime stored(5) _ _ again] by (simp add: stored)
  then show ?thesis
    using reg again by fastforce
qed

text \<open>
  C24. A registration with a changed version loses the service. With nobody else writing the
  key-value store and no failing call, registering \<open>r\<close> and then the same service with another
  version first removes the old instance from Consul and then fails, since the route document of
  the old version is still stored and differs: the error is a route conflict, the service is
  deregistered and nothing replaces it.
\<close>

theorem register_changed_version_loses_service:
  assumes "go_runtime w" "kv_faithful w" "\<And>t. codec_keeps w (route_document_for r t)"
    and ok: "\<And>h a. call_error w h a = None"
    and free: "map_option ls_state (find_local_service c (rr_name r) (rr_port r)) \<in> {None, Some StateDeregistered}"
    and reg: "register w c r = (Inr s, c1)"
    and "valid_register r'" and same: "rr_name r' = rr_name r" "rr_port r' = rr_port r"
      "rr_env r' = rr_env r" "rr_namespace r' = rr_namespace r"
    and changed: "rr_version r' \<noteq> rr_version r"
  shows "\<exists>c2. register w c1 r' = (Inl (RouteConflict (route_key c r)), c2) \<and>
    state_at c2 (local_key (rr_name r) (rr_port r)) = Some StateDeregistered \<and>
    calls_of (history c2) = calls_of (history c1) @
      [(ServiceDeregister (ls_instance_id s), None), (KVGet (route_key c r), None)]"
proof -
  have fresh: "register_fresh w c r = (Inr s, c1)" and valid: "valid_register r"
    using reg register_free [OF assms(1) free] by simp_all
  note stored = register_fresh_stored [OF fresh]
  obtain payload t where "marshal_doc w (canonicalize (route_document_for r t)) = Inr payload"
    and put: "last_put (history c1) (route_key c r) = Some payload"
    using register_fresh_put [OF fresh] by blast
  then obtain d where d: "payload \<noteq> []" "unmarshal_doc w payload = Inr d"
    and eq: "route_equal d (route_document_for r t)"
    using assms(3) [of t] by (auto simp: codec_keeps_def)
  from ok obtain c2 where retire: "register_retire w c1 s = (Inr (), c2)"
    by (simp add: register_retire_Inr)
  note c2 = register_retire_frame [OF retire]
  have key: "route_key c2 r' = route_key c r"
    using c2(1) register_fresh_settings [OF fresh valid] same by (simp add: route_key_def)
  have "\<not> route_equal d (route_document_for r' t')" for t'
    using eq changed by (auto simp: route_equal_def route_document_for_def canonicalize_def Let_def)
  then have conflict: "register_fresh w c2 r' = (Inl (RouteConflict (route_key c r)),
      c2\<lparr>history := history c2 @ [ClockRead, Called (KVGet (route_key c r)) None]\<rparr>)"
    using d put c2(2) assms(2) ok
    by (simp add: register_fresh_def now_eq ensure_route_document_def call_def Let_def kv_faithful_def
        last_put_append key [unfolded route_key_def [of c2]])
  have "\<not> same_register_request r r'"
    using changed by (simp add: same_register_request_def)
  then have "register w c1 r' = and_then (register_retire w c1 s) (\<lambda>_ c2. register_fresh w c2 r')"
    using assms(1,7) stored same by (simp add: register_cases)
  then have "register w c1 r' = (Inl (RouteConflict (route_key c r)),
      c2\<lparr>history := history c2 @ [ClockRead, Called (KVGet (route_key c r)) None]\<rparr>)"
    by (simp add: retire conflict)
  moreover have "state_at c2 (local_key (rr_name r) (rr_port r)) = Some StateDeregistered"
    using c2(3) by (simp add: state_at_def find_local_service_def stored)
  moreover have "calls_of (history c2) = calls_of (history c1) @ [(ServiceDeregister (ls_instance_id s), None)]"
    using retire by (auto simp: register_retire_Inr)
  ultimately show ?thesis by simp
qed

definition demo_request_v2 :: register_request where
  "demo_request_v2 = demo_request\<lparr>rr_version := ''v1.4.0''\<rparr>"

lemma demo_codec: "codec_keeps demo_env (route_document_for demo_request t)"
  by (simp add: codec_keeps_def route_equal_def route_document_for_def canonicalize_def Let_def)

lemma demo_kv: "kv_faithful demo_env"
  by (simp add: kv_faithful_def)

theorem register_changed_version_loses_service_witness:
  "\<exists>s c1 c2. register demo_env demo_client demo_request = (Inr s, c1) \<and>
     register demo_env c1 demo_request_v2 = (Inl (RouteConflict ''routes/prod/default/auth/current''), c2)"
proof -
  obtain s c1 where reg: "register demo_env demo_client demo_request = (Inr s, c1)"
    by (rule demo_register)
  have "valid_register demo_request_v2"
    by (simp add: demo_request_v2_def valid_register_def register_required_def demo_request_def
        has_prefix_def trim_space_trimmed trimmed_def graphic_def)
  moreover have "route_key demo_client demo_request = ''routes/prod/default/auth/current''"
    by (simp add: route_key_def route_config_ref_def demo_client_def demo_settings_def demo_request_def
        trim_byte_def trim_space_trimmed trimmed_def graphic_def)
  ultimately show ?thesis
    using register_changed_version_loses_service [OF demo_env_runtime demo_kv demo_codec _ demo_free reg,
        of demo_request_v2] reg
    by (auto simp: demo_request_v2_def demo_request_def)
qed

text \<open>
  C25. A registration that fails although Consul accepted the service leaves an orphan: the failed
  call is the lease refresh after it, the service is not deregistered again, and no key of the
  client changes, so that the instance is not tracked.
\<close>

theorem register_failure_orphan:
  assumes "go_runtime w" and "register w c r = (Inl e, c')"
    and "map_option ls_state (find_local_service c (rr_name r) (rr_port r)) \<in> {None, Some StateDeregistered}"
    and "calls_of (history c') = calls_of (history c) @ cs" "(ServiceRegister g, None) \<in> set cs"
  shows "cl_local_services c' = cl_local_services c \<and>
    (\<exists>t pre. e = External t \<and> routes_only pre \<and> cs = pre @ [(ServiceRegister g, None),
       (UpdateTTL (lease_check_id_for (rg_id g)) ''agent ownership is healthy'' ''passing'', Some t)])"
proof -
  have "register_fresh w c r = (Inl e, c') \<or> c' = c"
    using assms(1-3) by (auto simp: register_cases split: if_splits option.splits)
  then show ?thesis
    using register_fresh_Inl [of w c r e c'] assms(4,5) by (auto simp: lease_failed_def quiet_frame)
qed

text \<open>The outside of \<open>demo_env\<close>, with a Consul agent that refuses every lease refresh.\<close>

definition lease_refusing_env :: env where
  "lease_refusing_env = demo_env\<lparr>call_error := (\<lambda>h a. case a of UpdateTTL i n s \<Rightarrow> Some ''500'' | _ \<Rightarrow> None)\<rparr>"

lemma lease_refusing_simps [simp]:
  "call_error lease_refusing_env h a = (case a of UpdateTTL i n s \<Rightarrow> Some ''500'' | _ \<Rightarrow> None)"
  "kv_value lease_refusing_env h k = last_put h k" "clock lease_refusing_env h = 1700000000000000000"
  "random_bytes lease_refusing_env h = Some (\<lambda>i. 0)" "marshal_doc lease_refusing_env d = Inr ''{}''"
  by (simp_all add: lease_refusing_env_def)

lemma lease_refusing_runtime: "go_runtime lease_refusing_env"
  using demo_env_runtime by (simp add: go_runtime_def lease_refusing_env_def)

theorem register_failure_orphan_witness:
  "\<exists>c' g. register lease_refusing_env demo_client demo_request = (Inl (External ''500''), c') \<and>
     (ServiceRegister g, None) \<in> set (calls_of (history c')) \<and> cl_local_services c' = []"
proof -
  define c' where "c' = snd (register lease_refusing_env demo_client demo_request)"
  have "fst (register lease_refusing_env demo_client demo_request) = Inl (External ''500'') \<and>
      (\<exists>g. (ServiceRegister g, None) \<in> set (calls_of (history c')))"
    unfolding c'_def
    by (simp add: register_cases lease_refusing_runtime demo_request_valid find_local_service_def
        demo_client_def register_fresh_def register_instance_def ensure_route_document_def
        new_instance_id_def call_def now_eq Let_def pass_lease_def)
  then obtain g where g: "(ServiceRegister g, None) \<in> set (calls_of (history c'))"
    and err: "fst (register lease_refusing_env demo_client demo_request) = Inl (External ''500'')"
    by blast
  have reg: "register lease_refusing_env demo_client demo_request = (Inl (External ''500''), c')"
    unfolding c'_def err [symmetric] by simp
  have "calls_of (history c') = calls_of (history demo_client) @ calls_of (history c')"
    by (simp add: demo_client_def)
  then have "cl_local_services c' = cl_local_services demo_client"
    using register_failure_orphan [OF lease_refusing_runtime reg demo_free _ g] by blast
  with reg g show ?thesis
    by (auto simp: demo_client_def)
qed

section \<open>Lifecycle\<close>



text \<open>
  C7. The local state never claims more than Consul confirmed. After any run, each stored instance
  was accepted by a service registration under its id; a deregistered one was also removed by a
  successful call for its id, and a draining one was put into maintenance.
\<close>

theorem registry_agrees_with_consul:
  assumes "go_runtime w"
    and "map_of (cl_local_services (run_commands w cmds (new_with_client w st has_metrics))) k = Some s"
    and "cs = calls_of (history (run_commands w cmds (new_with_client w st has_metrics)))"
  shows "(\<exists>g. rg_id g = ls_instance_id s \<and> (ServiceRegister g, None) \<in> set cs) \<and>
    (ls_state s = StateDeregistered \<longrightarrow> (ServiceDeregister (ls_instance_id s), None) \<in> set cs) \<and>
    (ls_state s = StateDraining \<longrightarrow>
       (EnableServiceMaintenance (ls_instance_id s) ''draining by sidecar-agent'', None) \<in> set cs)"
proof -
  have "tracked (run_commands w cmds (new_with_client w st has_metrics))"
    using run_tracked.keeps_tracked [OF assms(1) new_with_client_inv] new_with_client_tracked by blast
  then show ?thesis
    using assms(2,3) by (auto simp: tracked_def told_def dest!: map_of_SomeD)
qed

theorem registry_agrees_with_consul_witness:
  "\<exists>s. map_of (cl_local_services (run_commands demo_env [CmdRegister demo_request]
       (new_with_client demo_env demo_settings False))) (local_key ''auth'' 9090) = Some s \<and>
     (\<exists>g. rg_id g = ls_instance_id s \<and>
       (ServiceRegister g, None) \<in> set (calls_of (history (run_commands demo_env
          [CmdRegister demo_request] (new_with_client demo_env demo_settings False)))))"
proof -
  let ?c = "new_with_client demo_env demo_settings False"
  obtain s c' where reg: "register demo_env ?c demo_request = (Inr s, c')"
    using new_with_client_empty by (rule demo_register_empty)
  then have "register_fresh demo_env ?c demo_request = (Inr s, c')"
    using register_free [OF demo_env_runtime] by (simp add: find_local_service_def new_with_client_empty)
  from register_fresh_stored(5) [OF this] have "find_local_service c' ''auth'' 9090 = Some s"
    by (simp add: demo_request_def)
  with reg have stored: "map_of (cl_local_services (run_commands demo_env [CmdRegister demo_request] ?c))
      (local_key ''auth'' 9090) = Some s"
    by (simp add: run_commands_def find_local_service_def)
  show ?thesis
    by (rule exI [of _ s], rule conjI [OF stored])
      (rule conjunct1 [OF registry_agrees_with_consul [OF demo_env_runtime stored refl]])
qed

section \<open>Drain, deregister, shutdown and leases\<close>

text \<open>The client after the demonstration registration, used by the witnesses below.\<close>

definition served_client :: client where
  "served_client = snd (register demo_env demo_client demo_request)"

lemma served:
  obtains s where "register_fresh demo_env demo_client demo_request = (Inr s, served_client)"
    "find_local_service served_client ''auth'' 9090 = Some s" "ls_state s = StateServing" "client_inv served_client"
proof -
  obtain s c' where "register demo_env demo_client demo_request = (Inr s, c')"
    by (rule demo_register)
  then have c': "register demo_env demo_client demo_request = (Inr s, served_client)"
    by (simp add: served_client_def)
  then have fresh: "register_fresh demo_env demo_client demo_request = (Inr s, served_client)"
    by (simp only: register_free [OF demo_env_runtime demo_free])
  have "client_inv demo_client"
    by (simp add: client_inv_def demo_client_def)
  then have "client_inv served_client"
    using register_op.keeps_inv [OF demo_env_runtime] by (simp add: served_client_def)
  with fresh register_fresh_stored [OF fresh] that show thesis
    by (simp add: demo_request_def)
qed

text \<open>
  \<open>Drain\<close> either fails and leaves every stored service as it was, or it put the stored instance
  into maintenance in Consul (its only call), and stores it at the same key as draining, with a
  deadline a positive grace period after the clock, all its other fields as they were.
\<close>

theorem drain_outcome:
  assumes "drain w c r = (res, c')"
  shows "case res of
      Inl e \<Rightarrow> cl_local_services c' = cl_local_services c
    | Inr s \<Rightarrow> (\<exists>e t u grace. find_local_service c (dr_name r) (dr_port r) = Some e \<and>
        grace_period r = Inr grace \<and> 0 < grace \<and>
        s = e\<lparr>ls_state := StateDraining, ls_updated_at := u, ls_drain_deadline := Some (t + grace)\<rparr> \<and>
        cl_local_services c' =
          AList.update (local_key (dr_name r) (dr_port r)) s (cl_local_services c) \<and>
        calls_of (history c') = calls_of (history c) @
          [(EnableServiceMaintenance (ls_instance_id e) ''draining by sidecar-agent'', None)])"
proof (cases res)
  case (Inl e)
  with assms show ?thesis
    using drain_Inl_frame by (auto simp: quiet_frame)
next
  case (Inr s)
  let ?h = "\<lambda>e. history c @
    [Called (EnableServiceMaintenance (ls_instance_id e) ''draining by sidecar-agent'') None]"
  from Inr assms obtain e grace where "find_local_service c (dr_name r) (dr_port r) = Some e"
    and grace: "grace_period r = Inr grace"
    and "s = e\<lparr>ls_state := StateDraining, ls_updated_at := clock w (?h e @ [ClockRead]),
        ls_drain_deadline := Some (clock w (?h e) + grace)\<rparr>"
    and "cl_local_services c' = AList.update (local_key (dr_name r) (dr_port r)) s (cl_local_services c)"
      "calls_of (history c') = calls_of (history c) @
         [(EnableServiceMaintenance (ls_instance_id e) ''draining by sidecar-agent'', None)]"
    by (auto simp: drain_Inr Let_def)
  moreover have "0 < grace"
    using grace_period_positive [OF grace] by simp
  ultimately show ?thesis
    unfolding Inr sum.case by blast
qed

definition auth_drain :: drain_request where
  "auth_drain = \<lparr>dr_name = ''auth'', dr_port = 9090, dr_grace_period_raw = []\<rparr>"

lemma auth_drain_simps [simp]:
  "dr_name auth_drain = ''auth''" "dr_port auth_drain = 9090" "grace_period auth_drain = Inr (20 * second)"
  "validate_drain auth_drain = None"
  by (simp_all add: auth_drain_def validate_drain_def grace_period_def port_invalid_def
      trim_space_trimmed trimmed_def graphic_def)

lemma auth_drain_ok:
  assumes "find_local_service c ''auth'' 9090 = Some e"
  obtains s c' where "drain demo_env c auth_drain = (Inr s, c')"
proof -
  have "is_ok (fst (drain demo_env c auth_drain))"
    using assms by (simp add: drain_def call_def now_eq Let_def)
  then show thesis
    using that by (metis is_ok_iff prod.collapse)
qed

theorem drain_outcome_witness:
  "\<exists>s c' t. drain demo_env served_client auth_drain = (Inr s, c') \<and> ls_state s = StateDraining \<and>
     ls_drain_deadline s = Some (t + 20 * second)"
proof -
  obtain e where "find_local_service served_client ''auth'' 9090 = Some e"
    by (rule served)
  then obtain s c' where drain: "drain demo_env served_client auth_drain = (Inr s, c')"
    by (rule auth_drain_ok)
  with drain_outcome [OF drain] show ?thesis by auto
qed

text \<open>
  \<open>Deregister\<close> either fails and leaves every stored service as it was, or it removed the stored
  instance from Consul (its only call) and stores it at the same key as deregistered, with no drain
  deadline, all its other fields as they were.
\<close>

theorem deregister_outcome:
  assumes "deregister w c r = (res, c')"
  shows "case res of
      Inl e \<Rightarrow> cl_local_services c' = cl_local_services c
    | Inr s \<Rightarrow> (\<exists>e u. find_local_service c (de_name r) (de_port r) = Some e \<and>
        s = e\<lparr>ls_state := StateDeregistered, ls_updated_at := u, ls_drain_deadline := None\<rparr> \<and>
        cl_local_services c' =
          AList.update (local_key (de_name r) (de_port r)) s (cl_local_services c) \<and>
        calls_of (history c') = calls_of (history c) @ [(ServiceDeregister (ls_instance_id e), None)])"
proof (cases res)
  case (Inl e)
  with assms show ?thesis
    using deregister_Inl_frame by (auto simp: quiet_frame)
next
  case (Inr s)
  with assms obtain e where "find_local_service c (de_name r) (de_port r) = Some e"
    and s: "s = e\<lparr>ls_state := StateDeregistered, ls_updated_at :=
        clock w (history c @ [Called (ServiceDeregister (ls_instance_id e)) None]), ls_drain_deadline := None\<rparr>"
    and "cl_local_services c' = AList.update (local_key (de_name r) (de_port r)) s (cl_local_services c)"
      "calls_of (history c') = calls_of (history c) @ [(ServiceDeregister (ls_instance_id e), None)]"
    by (auto simp: deregister_Inr Let_def)
  then show ?thesis
    unfolding Inr sum.case by blast
qed

definition auth_deregister :: deregister_request where
  "auth_deregister = \<lparr>de_name = ''auth'', de_port = 9090\<rparr>"

theorem deregister_outcome_witness:
  "\<exists>s c'. deregister demo_env served_client auth_deregister = (Inr s, c') \<and> ls_state s = StateDeregistered"
proof -
  obtain e where "find_local_service served_client ''auth'' 9090 = Some e"
    by (rule served)
  then have "is_ok (fst (deregister demo_env served_client auth_deregister))"
    by (simp add: deregister_def auth_deregister_def validate_deregister_def port_invalid_def
        trim_space_trimmed trimmed_def graphic_def call_def now_eq Let_def)
  then obtain s c' where dereg: "deregister demo_env served_client auth_deregister = (Inr s, c')"
    by (metis is_ok_iff prod.collapse)
  with deregister_outcome [OF dereg] show ?thesis by auto
qed



lemma inactive_deregistered:
  assumes "go_runtime w" "client_inv c" "k \<notin> key_of ` set (active_local_services w c)"
    and "state_at c k = Some x"
  shows "x = StateDeregistered"
proof -
  obtain s where s: "(k, s) \<in> set (cl_local_services c)" "ls_state s = x"
    using assms(4) by (auto simp: state_at_def dest: map_of_SomeD)
  then have "k = key_of s"
    using assms(2) by (auto simp: client_inv_def service_ok_def key_of_def Let_def)
  with s assms(3) show ?thesis
    using active_stored [OF assms(1,2), of s] by blast
qed

lemma shutdown_result:
  assumes "go_runtime w" "client_inv c" "shutdown w c = (res, c')"
  shows "\<exists>order n. distinct order \<and> n \<le> length order \<and> (is_ok res \<longleftrightarrow> n = length order) \<and>
    set order = {s. (key_of s, s) \<in> set (cl_local_services c) \<and> ls_state s \<noteq> StateDeregistered} \<and>
    (\<exists>failed. length failed = (if is_ok res then 0 else 1) \<and> (\<forall>e \<in> set failed. snd e \<noteq> None) \<and>
       calls_of (history c') = calls_of (history c) @
         map (\<lambda>s. (ServiceDeregister (ls_instance_id s), None)) (take n order) @ failed) \<and>
    state_at c' = (\<lambda>k. if k \<in> key_of ` set (take n order) then Some StateDeregistered else state_at c k) \<and>
    (is_ok res \<longrightarrow> ran (state_at c') \<subseteq> {StateDeregistered}) \<and> \<not> cl_lease_running c'"
proof -
  let ?c = "c\<lparr>cl_lease_running := False\<rparr>"
  let ?order = "active_local_services w ?c"
  have inv: "client_inv ?c"
    using assms(2) client_inv_cong [of c ?c] by (simp add: same_identity_def)
  have set: "set ?order = {s. (key_of s, s) \<in> set (cl_local_services c) \<and> ls_state s \<noteq> StateDeregistered}"
    using active_stored [OF assms(1) inv] by auto
  have frame: "history ?c = history c" "state_at ?c = state_at c"
    by simp_all
  have dist: "distinct ?order"
    using active_distinct [OF assms(1) inv] by (simp add: distinct_map)
  have "deregister_all w ?c ?order = (res, c')"
    using assms(3) by (simp add: shutdown_def Let_def)
  from deregister_all_outcome [OF this] obtain n where n: "n \<le> length ?order" "is_ok res \<longleftrightarrow> n = length ?order"
    and calls: "calls_of (history c') = calls_of (history c) @
      map (\<lambda>s. (ServiceDeregister (ls_instance_id s), None)) (take n ?order) @
      (case res of Inr _ \<Rightarrow> []
       | Inl e \<Rightarrow> [(ServiceDeregister (ls_instance_id (?order ! n)), Some (case e of External t \<Rightarrow> t | _ \<Rightarrow> []))])"
    and states: "state_at c' = (\<lambda>k. if k \<in> key_of ` set (take n ?order) then Some StateDeregistered else state_at c k)"
    and lease: "cl_lease_running c' = cl_lease_running ?c"
    unfolding frame by blast
  have "x = StateDeregistered" if "is_ok res" "state_at c' k = Some x" for k x
  proof (cases "k \<in> key_of ` set ?order")
    case False
    then show ?thesis
      using inactive_deregistered [OF assms(1) inv False] that n(2) states by (simp add: frame)
  qed (use that n(2) states in simp)
  then have "is_ok res \<longrightarrow> ran (state_at c') \<subseteq> {StateDeregistered}"
    by (auto simp: ran_def)
  moreover have "\<exists>failed. length failed = (if is_ok res then 0 else 1) \<and> (\<forall>e \<in> set failed. snd e \<noteq> None) \<and>
       calls_of (history c') = calls_of (history c) @
         map (\<lambda>s. (ServiceDeregister (ls_instance_id s), None)) (take n ?order) @ failed"
    using calls by (cases res) auto
  ultimately show ?thesis
    using n set dist states lease by (intro exI [of _ ?order] exI [of _ n]) simp
qed

text \<open>
  C26. \<open>Shutdown\<close> goes through the services that are not deregistered, each once and in an order the
  runtime chooses, and removes them from Consul one by one. It stops at the first call that fails:
  the services before it are deregistered, all others keep their state. When it returns no error,
  every stored service is deregistered. The lease loop is stopped in either case.
\<close>

theorem shutdown_outcome:
  assumes "go_runtime w" "client_inv c" "shutdown w c = (res, c')"
  shows "\<exists>order n. distinct order \<and> n \<le> length order \<and> (is_ok res \<longleftrightarrow> n = length order) \<and>
    set order = {s. (key_of s, s) \<in> set (cl_local_services c) \<and> ls_state s \<noteq> StateDeregistered} \<and>
    (\<exists>failed. length failed = (if is_ok res then 0 else 1) \<and> (\<forall>e \<in> set failed. snd e \<noteq> None) \<and>
       calls_of (history c') = calls_of (history c) @
         map (\<lambda>s. (ServiceDeregister (ls_instance_id s), None)) (take n order) @ failed) \<and>
    state_at c' = (\<lambda>k. if k \<in> key_of ` set (take n order) then Some StateDeregistered else state_at c k) \<and>
    (is_ok res \<longrightarrow> ran (state_at c') \<subseteq> {StateDeregistered}) \<and> \<not> cl_lease_running c'"
  by (rule shutdown_result [OF assms])

lemma demo_shutdown_ok:
  obtains c' where "shutdown demo_env c = (Inr (), c')"
proof -
  have "is_ok (fst (deregister_all demo_env c ss))" for c ss
    by (induction ss arbitrary: c) (simp_all add: call_def now_eq Let_def)
  then have "is_ok (fst (shutdown demo_env c))"
    by (simp add: shutdown_def Let_def)
  with that show thesis
    by (cases "shutdown demo_env c") (auto simp: is_ok_iff)
qed

theorem shutdown_outcome_witness:
  "\<exists>c'. shutdown demo_env served_client = (Inr (), c') \<and> ran (state_at c') \<subseteq> {StateDeregistered}"
proof -
  have inv: "client_inv served_client" by (rule served)
  obtain c' where c': "shutdown demo_env served_client = (Inr (), c')"
    by (rule demo_shutdown_ok)
  show ?thesis
    using shutdown_outcome [OF demo_env_runtime inv c'] c' by auto
qed

end
