(* ===== verification/Duration_Format.thy ===== *)
theory Duration_Format
  imports Go_Time
begin

text \<open>
  What \<open>Duration.String\<close> prints for a whole number of seconds, \<open>ParseDuration\<close> reads back. The
  agent sends its TTLs to Consul in this form, and Consul parses them with the same function.
\<close>

lemma hd_dec_digit [simp]: "is_digit (hd (dec n))" "is_digit (hd (dec n @ s))"
  using dec_digits [of "hd (dec n)" n] by simp_all

lemma unit_letters [simp]: "unit_char CHR ''h''" "unit_char CHR ''m''" "unit_char CHR ''s''"
  by (simp_all add: unit_char_def is_digit_def)

lemma takeWhile_digits:
  assumes "rest = [] \<or> \<not> is_digit (hd rest)"
  shows "takeWhile is_digit (dec n @ rest) = dec n" "dropWhile is_digit (dec n @ rest) = rest"
proof -
  have "\<forall>c \<in> set (dec n). is_digit c"
    by (simp add: dec_digits)
  then show "takeWhile is_digit (dec n @ rest) = dec n" "dropWhile is_digit (dec n @ rest) = rest"
    using assms by (cases rest; simp add: takeWhile_append dropWhile_append)+
qed

lemma leading_int_dec:
  assumes "rest = [] \<or> \<not> is_digit (hd rest)" "n \<le> 2 ^ 63"
  shows "leading_int (dec n @ rest) = Some (n, rest)"
  using assms by (simp add: leading_int_def takeWhile_digits digits_value_dec Let_def)

text \<open>One number with a unit, and no fraction.\<close>

lemma duration_item_whole:
  assumes "u \<noteq> []" "\<forall>c \<in> set u. unit_char c" "map_of unit_map u = Some k"
    and "rest = [] \<or> is_digit (hd rest)" "0 < k" "d + n * k \<le> 2 ^ 63"
  shows "duration_item orig (dec n @ u @ rest) d = Inr (d + n * k, rest)"
proof -
  have u: "\<not> is_digit (hd u)" "hd u \<noteq> CHR ''.''"
    using assms(1,2) by (cases u; simp add: unit_char_def)+
  have n: "n \<le> 2 ^ 63 div k"
    using assms(5,6) by (simp add: less_eq_div_iff_mult_less_eq)
  also have "\<dots> \<le> 2 ^ 63"
    by simp
  finally have lead: "leading_int (dec n @ u @ rest) = Some (n, u @ rest)"
    using u assms(1) by (intro leading_int_dec) simp_all
  have frac: "fraction_part (u @ rest) = (0, 0, False, u @ rest)"
    using u(2) assms(1) by (cases u) (simp_all add: fraction_part_def)
  have units: "takeWhile unit_char (u @ rest) = u" "dropWhile unit_char (u @ rest) = rest"
    using assms(2,4) by (cases rest; simp add: takeWhile_append dropWhile_append unit_char_def)+
  have "n * k \<le> 2 ^ 63"
    using assms(6) by simp
  then show ?thesis
    using lead frac units assms(1,3,6) n hd_dec_digit(2) [of n "u @ rest"]
    by (simp add: duration_item_def unit_char_def Let_def del: hd_append2)
qed

lemma duration_loop_step:
  assumes "duration_item orig s d = Inr (d', t)" "s \<noteq> []"
  shows "duration_loop orig s d = duration_loop orig t d'"
  by (subst duration_loop.simps) (simp add: assms)

lemma duration_loop_Nil: "duration_loop orig [] d = Inr d"
  by (simp add: duration_loop.simps)

lemma duration_loop_seconds:
  assumes "d + n * 1000000000 \<le> 2 ^ 63"
  shows "duration_loop orig (dec n @ ''s'') d = Inr (d + n * 1000000000)"
proof -
  have "duration_item orig (dec n @ ''s'' @ []) d = Inr (d + n * 1000000000, [])"
    using assms by (intro duration_item_whole) (simp_all add: unit_map_def)
  from duration_loop_step [OF this] show ?thesis
    by (simp add: duration_loop_Nil)
qed

lemma duration_loop_minutes:
  assumes "d + m * 60000000000 + n * 1000000000 \<le> 2 ^ 63"
  shows "duration_loop orig (dec m @ ''m'' @ dec n @ ''s'') d = Inr (d + m * 60000000000 + n * 1000000000)"
proof -
  have "duration_item orig (dec m @ ''m'' @ dec n @ ''s'') d = Inr (d + m * 60000000000, dec n @ ''s'')"
    using assms
    by (intro duration_item_whole) (simp_all add: unit_map_def)
  from duration_loop_step [OF this] assms show ?thesis
    by (simp add: duration_loop_seconds)
qed

lemma duration_loop_hours:
  assumes "h * 3600000000000 + m * 60000000000 + n * 1000000000 \<le> 2 ^ 63"
  shows "duration_loop orig (dec h @ ''h'' @ dec m @ ''m'' @ dec n @ ''s'') 0 =
    Inr (h * 3600000000000 + m * 60000000000 + n * 1000000000)"
proof -
  have "duration_item orig (dec h @ ''h'' @ dec m @ ''m'' @ dec n @ ''s'') 0 =
      Inr (0 + h * 3600000000000, dec m @ ''m'' @ dec n @ ''s'')"
    using assms
    by (intro duration_item_whole) (simp_all add: unit_map_def)
  from duration_loop_step [OF this] assms show ?thesis
    using duration_loop_minutes [of "h * 3600000000000" m n orig] by simp
qed

lemma parse_unsigned:
  assumes "duration_loop s s 0 = Inr n" "is_digit (hd s)" "s \<noteq> ''0''" "s \<noteq> []" "n < 2 ^ 63"
  shows "parse_duration s = Inr (int n)"
proof -
  have "hd s \<noteq> CHR ''-''" "hd s \<noteq> CHR ''+''"
    using assms(2) by (auto simp: is_digit_def)
  with assms show ?thesis
    by (simp add: parse_duration_def Let_def)
qed

lemma parse_seconds: "n * 1000000000 < 2 ^ 63 \<Longrightarrow> parse_duration (dec n @ ''s'') = Inr (int (n * 1000000000))"
  by (intro parse_unsigned) (simp_all add: duration_loop_seconds dec_digits)

lemma fmt_frac_whole: "fmt_frac (n * 1000000000) 9 = ([], n)"
  by (simp add: fmt_frac_def)

lemma duration_string_seconds:
  assumes "0 < n"
  shows "duration_string (int n * second) =
    (let s = dec (n mod 60) @ ''s'' in
     if n div 60 = 0 then s
     else if n div 60 div 60 = 0 then dec (n div 60 mod 60) @ ''m'' @ s
     else dec (n div 60 div 60) @ ''h'' @ dec (n div 60 mod 60) @ ''m'' @ s)"
proof -
  have "nat \<bar>int n * second\<bar> = n * 1000000000"
    by (simp add: second_def nat_mult_distrib abs_mult)
  then show ?thesis
    using assms by (simp add: duration_string_def fmt_frac_whole second_def Let_def)
qed

lemma parse_duration_string_seconds:
  assumes "0 < n" "n * 1000000000 < 2 ^ 63"
  shows "parse_duration (duration_string (int n * second)) = Inr (int n * second)"
proof -
  let ?s = "n mod 60" and ?m = "n div 60 mod 60" and ?h = "n div 60 div 60"
  have "n = 60 * (n div 60) + ?s" "n div 60 = 60 * ?h + ?m"
    by simp_all
  then have ns: "n * 1000000000 = ?h * 3600000000000 + ?m * 60000000000 + ?s * 1000000000"
    by linarith
  consider "n div 60 = 0" | "n div 60 \<noteq> 0" "?h = 0" | "?h \<noteq> 0" "n div 60 \<noteq> 0"
    by fastforce
  then show ?thesis
  proof cases
    case 1
    then have "?s = n" by simp
    with 1 assms show ?thesis
      unfolding duration_string_seconds [OF assms(1)] by (simp add: parse_seconds second_def)
  next
    case 2
    then have m: "n * 1000000000 = ?m * 60000000000 + ?s * 1000000000"
      using ns by simp
    have "parse_duration (dec ?m @ ''m'' @ dec ?s @ ''s'') = Inr (int (n * 1000000000))"
      using assms(2) duration_loop_minutes [of 0 ?m ?s "dec ?m @ ''m'' @ dec ?s @ ''s''"] m
      by (intro parse_unsigned) (simp_all add: dec_digits)
    with 2 assms show ?thesis
      unfolding duration_string_seconds [OF assms(1)] by (simp add: second_def)
  next
    case 3
    have "parse_duration (dec ?h @ ''h'' @ dec ?m @ ''m'' @ dec ?s @ ''s'') = Inr (int (n * 1000000000))"
      using assms(2) duration_loop_hours [of ?h ?m ?s "dec ?h @ ''h'' @ dec ?m @ ''m'' @ dec ?s @ ''s''"] ns
      by (intro parse_unsigned) (simp_all add: dec_digits)
    with 3 assms show ?thesis
      unfolding duration_string_seconds [OF assms(1)] by (simp add: second_def)
  qed
qed

end
