(* ===== verification/Registry_Discovery.thy ===== *)
theory Registry_Discovery
  imports Registry_Properties Duration_Format
begin

text \<open>
  Reading Consul back: the clean-up of earlier runs in \<open>Start\<close>, \<open>Discover\<close> and \<open>LocalServices\<close>,
  and the round trip from the registration of a local service to the instance another agent
  discovers. A catalog that answers the same at every moment is the hypothesis \<open>steady\<close>.
\<close>

definition steady :: "env \<Rightarrow> string list \<Rightarrow> (string \<Rightarrow> bool \<Rightarrow> service_entry option list) \<Rightarrow> bool" where
  "steady w names entries \<longleftrightarrow>
     (\<forall>h. catalog_names w h = names \<and> (\<forall>name passing_only. health_entries w h name passing_only = entries name passing_only))"

lemma mset_concat_map: "mset (concat (map f xs)) = (\<Sum>x \<in># mset xs. mset (f x))"
  by (induction xs) simp_all

section \<open>Clean-up\<close>


lemma stale_entry_history [simp]: "stale_entry (c\<lparr>history := h\<rparr>) = stale_entry c"
  by (simp add: stale_entry_def fun_eq_iff split: option.split)

lemma map_filter_simps [simp]:
  "List.map_filter f [] = []"
  "List.map_filter f (x # xs) = (case f x of None \<Rightarrow> List.map_filter f xs | Some y \<Rightarrow> y # List.map_filter f xs)"
  by (simp_all add: map_filter_def split: option.split)

lemma map_filter_append: "List.map_filter f (xs @ ys) = List.map_filter f xs @ List.map_filter f ys"
  by (induction xs) (auto split: option.split)

lemma set_map_filter: "set (List.map_filter f xs) = {y. \<exists>x \<in> set xs. f x = Some y}"
  by (induction xs) (auto split: option.splits)



section \<open>Discovery\<close>

lemma visible_instance_history [simp]: "visible_instance (c\<lparr>history := h\<rparr>) = visible_instance c"
  by (simp add: visible_instance_def fun_eq_iff split: option.split)

lemma discover_names_result:
  assumes "steady w all entries" "discover_names w c acc ns = (Inr res, c')"
  shows "res = acc @ concat (map (\<lambda>n. List.map_filter (visible_instance c) (entries n True)) ns) \<and>
    calls_of (history c') = calls_of (history c) @ map (\<lambda>n. (HealthService n True, None)) ns"
  using assms(2)
proof (induction ns arbitrary: c acc)
  case (Cons n ns)
  let ?c = "c\<lparr>history := history c @ [Called (HealthService n True) None]\<rparr>"
  have "discover_names w ?c (acc @ List.map_filter (visible_instance ?c) (entries n True)) ns = (Inr res, c')"
    using Cons.prems assms(1) by (auto simp: Let_def and_then_Inr call_Inr steady_def)
  from Cons.IH [OF this] show ?case
    by simp
qed simp

definition seen :: "client \<Rightarrow> (string \<Rightarrow> bool \<Rightarrow> service_entry option list) \<Rightarrow> string list \<Rightarrow> service_instance list" where
  "seen c entries names = concat (map (\<lambda>n. List.map_filter (visible_instance c) (entries n True)) names)"

lemma discover_Inr:
  assumes "steady w names entries" "discover w c = (Inr res, c')"
  shows "res = sort_instances w (seen c entries names) \<and>
    calls_of (history c') = calls_of (history c) @
      (CatalogServices, None) # map (\<lambda>n. (HealthService n True, None)) names"
proof -
  let ?c = "c\<lparr>history := history c @ [Called CatalogServices None]\<rparr>"
  obtain found where "discover_names w ?c [] names = (Inr found, c')" "res = sort_instances w found"
    using assms by (auto simp: discover_def Let_def and_then_Inr call_Inr steady_def)
  with discover_names_result [OF assms(1) this(1)] show ?thesis
    by (simp add: seen_def)
qed

lemma set_seen:
  "i \<in> set (seen c entries names) \<longleftrightarrow>
     (\<exists>n \<in> set names. \<exists>e \<in> set (entries n True). service_instance_from_entry e = Some i \<and>
        trim_space (si_env i) = trim_space (st_env (cl_settings c)))"
proof -
  have "visible_instance c e = Some i \<longleftrightarrow> service_instance_from_entry e = Some i \<and>
      trim_space (si_env i) = trim_space (st_env (cl_settings c))" for e
    by (auto simp: visible_instance_def split: option.splits)
  then show ?thesis
    by (auto simp: seen_def set_map_filter)
qed

section \<open>The registration as another agent reads it\<close>

lemma space_runes_char: "w \<in> set space_runes \<Longrightarrow> c \<in> set w \<Longrightarrow> \<not> graphic c"
  unfolding space_runes_def graphic_def by auto

text \<open>A visible prefix keeps its distance from trimming: only the text after it is trimmed.\<close>

lemma trim_space_prefixed:
  assumes "p \<noteq> []" "\<forall>c \<in> set p. graphic c"
  shows "trim_space (p @ trim_space x) = p @ trim_space x"
proof -
  let ?y = "trim_space x" and ?ws = "map rev space_runes"
  have "leading ?ws (rev ?y) = None"
    by (simp add: trim_space_def trim_right_def leading_trim_with)
  have "\<not> prefix w (rev ?y @ rev p)" if w: "w \<in> set ?ws" "w \<noteq> []" for w
  proof
    assume pre: "prefix w (rev ?y @ rev p)"
    have "\<not> prefix w (rev ?y)"
      using \<open>leading ?ws (rev ?y) = None\<close> w unfolding leading_None by blast
    with pre obtain us where us: "w = rev ?y @ us" "prefix us (rev p)" "us \<noteq> []"
      by (auto simp: prefix_append)
    then have "hd us \<in> set p" "hd us \<in> set w"
      using set_mono_prefix [OF us(2)] by auto
    then show False
      using assms(2) w(1) space_runes_char [of "rev w"] by auto
  qed
  then have "leading ?ws (rev (p @ ?y)) = None"
    by (simp add: leading_None)
  then have right: "trim_right (p @ ?y) = p @ ?y"
    by (simp add: trim_right_def trim_with_id)
  have "trim_left (p @ ?y) = p @ ?y"
    unfolding trim_left_def by (intro trim_with_id leading_graphic) (use assms in \<open>auto simp: hd_append\<close>)
  with right show ?thesis
    by (simp add: trim_space_def)
qed

text \<open>The health entry Consul returns for a registration: the registered fields, at some node.\<close>

definition entry_of :: "registration \<Rightarrow> string option \<Rightarrow> service_entry" where
  "entry_of g node =
     \<lparr>se_service = Some \<lparr>as_id = rg_id g, as_service = rg_name g, as_address = rg_address g,
        as_port = rg_port g, as_tags = rg_tags g, as_meta = rg_meta g\<rparr>, se_node_address = node\<rparr>"

lemma cluster_tag: "cluster_from_tags [''cluster='' @ trim_space c] = trim_space c"
proof -
  have "trim_space (''cluster='' @ trim_space c) = ''cluster='' @ trim_space c"
    by (rule trim_space_prefixed) (simp_all add: graphic_def)
  then show ?thesis
    by (simp add: cluster_from_tags_def has_prefix_def trim_prefix_def)
qed

lemma prefixes_round_trip:
  assumes "\<forall>p \<in> set (extract_route_prefixes ms). CHR '','' \<notin> set p"
  shows "unique_sorted_strings (split_on CHR '','' (join '','' (extract_route_prefixes ms))) =
    extract_route_prefixes ms"
proof (cases "extract_route_prefixes ms = []")
  case True
  then show ?thesis
    by (simp add: unique_sorted_strings_def trimmed_values_def)
next
  case False
  then show ?thesis
    using assms by (simp add: split_on_join extract_route_prefixes_def)
qed

lemma route_prefix_chars: "route_prefix m = Some p \<Longrightarrow> set p \<subseteq> set m"
  using route_prefix_Some [of m p] set_trim_space [of m] by auto

lemma extract_route_prefixes_chars:
  assumes "\<forall>m \<in> set ms. c \<notin> set m" "p \<in> set (extract_route_prefixes ms)"
  shows "c \<notin> set p"
proof -
  obtain m q where "m \<in> set ms" "route_prefix m = Some q" "p = trim_space q"
    using assms(2) by (auto simp: extract_route_prefixes_def set_map_filter)
  then show ?thesis
    using assms(1) route_prefix_chars [of m q] set_trim_space [of q] by blast
qed

lemma weight_round_trip: "0 < v \<Longrightarrow> v < 2 ^ 63 \<Longrightarrow> parse_positive_int (fmt_d v) d = v"
  by (simp add: parse_positive_int_def scan_d_fmt_d)

section \<open>Properties\<close>


text \<open>The catalog of the test \<open>TestStartCleansPreviousRunServices\<close>.\<close>

definition stale_service :: "string \<Rightarrow> string \<Rightarrow> string \<Rightarrow> service_entry option" where
  "stale_service i agent run =
     Some \<lparr>se_service = Some \<lparr>as_id = i, as_service = ''auth'', as_address = ''127.0.0.1'', as_port = 9090,
       as_tags = [], as_meta = [(''agent_id'', agent), (''agent_run_id'', run), (''env'', ''prod'')]\<rparr>,
       se_node_address = None\<rparr>"

definition stale_env :: env where
  "stale_env = fake_env [''auth'', ''other'']
     (\<lambda>name. if name = ''auth'' then
        [stale_service ''old-instance'' ''cluster-a:idc-a-1:127.0.0.1'' ''old-run'',
         stale_service ''other-instance'' ''cluster-a:idc-a-1:127.0.0.2'' ''other-run''] else [])
     (route_document_for demo_request 0)"

definition stale_entries :: "string \<Rightarrow> bool \<Rightarrow> service_entry option list" where
  "stale_entries name passing_only = (if name = ''auth'' then
        [stale_service ''old-instance'' ''cluster-a:idc-a-1:127.0.0.1'' ''old-run'',
         stale_service ''other-instance'' ''cluster-a:idc-a-1:127.0.0.2'' ''other-run''] else [])"

lemma stale_env_steady: "steady stale_env [''auth'', ''other''] stale_entries"
  by (simp add: steady_def stale_env_def fake_env_def stale_entries_def fun_eq_iff)

lemma stale_env_call [simp]: "call_error stale_env h a = None"
  by (simp add: stale_env_def fake_env_def)





lemma discover_result:
  assumes "go_runtime w" "steady w names entries" "discover w c = (Inr res, c')"
  shows "sorted (map discover_key res) \<and>
    set res = {i. \<exists>n \<in> set names. \<exists>e \<in> set (entries n True).
      service_instance_from_entry e = Some i \<and> trim_space (si_env i) = trim_space (st_env (cl_settings c))}"
proof -
  have res: "res = sort_instances w (seen c entries names)"
    using discover_Inr [OF assms(2,3)] by simp
  have srt: "sorts_by discover_key (sort_instances w)"
    using assms(1) by (simp add: go_runtime_def)
  have "set res = set (seen c entries names)"
    unfolding res using srt by (rule sorts_by_set)
  moreover have "sorted (map discover_key res)"
    using srt by (simp add: res sorts_by_def)
  moreover have "set (seen c entries names) = {i. \<exists>n \<in> set names. \<exists>e \<in> set (entries n True).
      service_instance_from_entry e = Some i \<and> trim_space (si_env i) = trim_space (st_env (cl_settings c))}"
    by (rule set_eqI) (simp only: set_seen mem_Collect_eq)
  ultimately show ?thesis by simp
qed

text \<open>
  \<open>Discover\<close> against a catalog that answers steadily returns the healthy entries of all services
  that convert to an instance and belong to this agent's environment, no other, sorted by the key
  of name, namespace, address and port.
\<close>

theorem discover_sound_complete:
  assumes "go_runtime w" "steady w names entries" "discover w c = (Inr res, c')"
  shows "sorted (map discover_key res) \<and>
    set res = {i. \<exists>n \<in> set names. \<exists>e \<in> set (entries n True).
      service_instance_from_entry e = Some i \<and> trim_space (si_env i) = trim_space (st_env (cl_settings c))}"
  by (rule discover_result [OF assms])

lemma stale_env_runtime: "go_runtime stale_env"
  by (simp add: stale_env_def fake_env_runtime)

lemma discover_names_ok: "is_ok (fst (discover_names stale_env c acc ns))"
  by (induction ns arbitrary: c acc) (simp_all add: call_def Let_def)

lemma stale_discover: obtains res c' where "discover stale_env c = (Inr res, c')"
proof -
  obtain r c1 where "discover_names stale_env (c\<lparr>history := history c @ [Called CatalogServices None]\<rparr>) []
      (catalog_names stale_env (history c)) = (r, c1)" and "is_ok r"
    using discover_names_ok by (metis prod.collapse)
  then show thesis
    using that by (auto simp: discover_def call_def Let_def is_ok_iff)
qed

theorem discover_sound_complete_witness:
  "\<exists>res c' i. discover stale_env demo_client = (Inr res, c') \<and> i \<in> set res \<and> si_address i = ''127.0.0.1''"
proof -
  obtain res c' where res: "discover stale_env demo_client = (Inr res, c')"
    by (rule stale_discover)
  let ?e = "stale_service ''old-instance'' ''cluster-a:idc-a-1:127.0.0.1'' ''old-run''"
  obtain i where i: "service_instance_from_entry ?e = Some i" "si_address i = ''127.0.0.1''" "si_env i = ''prod''"
    by (auto simp: service_instance_from_entry_def stale_service_def Let_def meta_get_def
        trim_space_trimmed trimmed_def graphic_def)
  moreover have "?e \<in> set (stale_entries ''auth'' True)" "st_env (cl_settings demo_client) = ''prod''"
    by (simp_all add: stale_entries_def demo_client_def demo_settings_def)
  ultimately have "i \<in> set res"
    using discover_sound_complete [OF stale_env_runtime stale_env_steady res] by auto
  with res i show ?thesis by blast
qed

text \<open>
  The order in which the runtime ranges over the service index does not matter: where instances
  have different sort keys, two discoveries over the same entries give the same list.
\<close>

theorem discover_order_independent:
  assumes "go_runtime w" "go_runtime w'" "steady w names entries" "steady w' names' entries"
    and "mset names' = mset names" "discover w c = (Inr res, c1)" "discover w' c = (Inr res', c2)"
    and "distinct (map discover_key res)"
  shows "res' = res"
proof -
  have res: "res = sort_instances w (seen c entries names)" "res' = sort_instances w' (seen c entries names')"
    using discover_Inr [OF assms(3,6)] discover_Inr [OF assms(4,7)] by simp_all
  have srt: "sorts_by discover_key (sort_instances w)" "sorts_by discover_key (sort_instances w')"
    using assms(1,2) by (simp_all add: go_runtime_def)
  have "mset (seen c entries names') = mset (seen c entries names)"
    unfolding seen_def by (simp add: mset_concat_map assms(5))
  then have same: "mset res' = mset res"
    using srt by (simp add: res sorts_by_def)
  have "sorted (map discover_key res')" "sorted (map discover_key res)"
    using srt by (simp_all add: res sorts_by_def)
  then show ?thesis
    using sorted_key_unique [OF same] perm_distinct_map [OF same, of discover_key] assms(8) by blast
qed


text \<open>The catalog of \<open>stale_env\<close> with one healthy instance, and its service index the other way round.\<close>

definition one_entry :: "string \<Rightarrow> bool \<Rightarrow> service_entry option list" where
  "one_entry name passing_only = (if name = ''auth'' then [stale_service ''i'' ''a'' ''r''] else [])"

definition one_env :: "string list \<Rightarrow> env" where
  "one_env names = stale_env\<lparr>catalog_names := (\<lambda>h. names), health_entries := (\<lambda>h. one_entry)\<rparr>"

lemma one_env_facts:
  "go_runtime (one_env names)" "steady (one_env names) names one_entry"
  using stale_env_runtime by (simp_all add: go_runtime_def steady_def one_env_def)

lemma one_names_ok: "is_ok (fst (discover_names (one_env ns) c acc names))"
  by (induction names arbitrary: c acc) (simp_all add: call_def Let_def one_env_def)

lemma one_discover: obtains res c' where "discover (one_env names) c = (Inr res, c')"
proof -
  obtain r c1 where "discover_names (one_env names) (c\<lparr>history := history c @ [Called CatalogServices None]\<rparr>) []
      (catalog_names (one_env names) (history c)) = (r, c1)" and "is_ok r"
    using one_names_ok by (metis prod.collapse)
  moreover have "call_error (one_env names) h a = None" for h a
    by (simp add: one_env_def)
  ultimately show thesis
    using that by (auto simp: discover_def call_def Let_def is_ok_iff)
qed

theorem discover_order_independent_witness:
  "\<exists>res c1 c2. discover (one_env [''auth'', ''other'']) demo_client = (Inr res, c1) \<and>
     discover (one_env [''other'', ''auth'']) demo_client = (Inr res, c2)"
proof -
  obtain res c1 where res: "discover (one_env [''auth'', ''other'']) demo_client = (Inr res, c1)"
    by (rule one_discover)
  obtain res' c2 where res': "discover (one_env [''other'', ''auth'']) demo_client = (Inr res', c2)"
    by (rule one_discover)
  have "length (seen demo_client one_entry [''auth'', ''other'']) \<le> 1"
    by (simp add: seen_def one_entry_def split: option.split)
  moreover have "mset res = mset (seen demo_client one_entry [''auth'', ''other''])"
    using discover_Inr [OF one_env_facts(2) res] one_env_facts(1) [of "[''auth'', ''other'']"]
    by (simp add: go_runtime_def sorts_by_def)
  ultimately have "length res \<le> 1"
    by (metis size_mset)
  then have "distinct (map discover_key res)"
    by (cases res) auto
  then have "res' = res"
    using discover_order_independent [OF one_env_facts(1) one_env_facts(1) one_env_facts(2)
        one_env_facts(2) _ res res'] by simp
  with res res' show ?thesis by blast
qed

text \<open>
  C29. Round trip: what another agent discovers of a registered service is what was registered. For a
  stored service of this agent (with a host address, a weight below 2^63 and no comma in its
  methods), the health entry of its registration converts to an instance with the same id, name,
  address, port, weight, metadata and route prefixes, and the agent's cluster.
\<close>

theorem registration_round_trip:
  assumes "service_ok c k s" "trim_space (st_host_ip (cl_settings c)) \<noteq> []"
    and "rr_weight (ls_request s) < 2 ^ 63" "\<forall>m \<in> set (rr_methods (ls_request s)). CHR '','' \<notin> set m"
  shows "service_instance_from_entry (Some (entry_of (registration_for c s) node)) =
    Some \<lparr>si_instance_id = ls_instance_id s, si_name = rr_name (ls_request s),
      si_namespace = rr_namespace (ls_request s), si_dns = rr_dns (ls_request s),
      si_env = rr_env (ls_request s), si_zone = ls_zone s, si_version = rr_version (ls_request s),
      si_protocol = rr_protocol (ls_request s), si_address = ls_address s,
      si_port = rr_port (ls_request s), si_weight = rr_weight (ls_request s),
      si_cluster = trim_space (st_cluster_name (cl_settings c)),
      si_route_config_ref = ls_route_config_ref s, si_route_prefixes = ls_route_prefixes s\<rparr>"
proof -
  have valid: "0 < rr_port (ls_request s)" "0 < rr_weight (ls_request s)"
    and s: "ls_address s = trim_space (st_host_ip (cl_settings c))"
      "ls_route_prefixes s = extract_route_prefixes (rr_methods (ls_request s))"
    using assms(1) by (simp_all add: service_ok_def valid_register_def Let_def)
  have "\<forall>p \<in> set (extract_route_prefixes (rr_methods (ls_request s))). CHR '','' \<notin> set p"
    using extract_route_prefixes_chars [OF assms(4)] by blast
  from prefixes_round_trip [OF this] weight_round_trip [OF valid(2) assms(3)] show ?thesis
    using valid assms(2) s
    by (simp add: service_instance_from_entry_def entry_of_def registration_for_def Let_def meta_get_def
        cluster_tag [simplified])
qed

theorem registration_round_trip_witness:
  "\<exists>s i. find_local_service served_client ''auth'' 9090 = Some s \<and>
     service_instance_from_entry (Some (entry_of (registration_for served_client s) None)) = Some i \<and>
     si_weight i = 100 \<and> si_cluster i = ''cluster-a''"
proof -
  obtain s where fresh: "register_fresh demo_env demo_client demo_request = (Inr s, served_client)"
    and s: "find_local_service served_client ''auth'' 9090 = Some s" "client_inv served_client"
    by (rule served)
  have req: "ls_request s = demo_request"
    using register_fresh_stored(1) [OF fresh] .
  have st: "cl_settings served_client = demo_settings"
    using register_fresh_settings [OF fresh demo_request_valid] by (simp add: demo_client_def)
  have ok: "service_ok served_client (local_key ''auth'' 9090) s"
    using s by (intro local_service_ok)
  have host: "trim_space (st_host_ip (cl_settings served_client)) \<noteq> []"
    by (simp add: st demo_settings_def trim_space_trimmed trimmed_def graphic_def)
  have trim: "trim_space ''cluster-a'' = ''cluster-a''"
    by (rule trim_space_trimmed) (simp add: trimmed_def graphic_def)
  show ?thesis
    using registration_round_trip [OF ok host, of None] s(1) trim
    by (simp add: req st demo_request_def demo_settings_def)
qed

text \<open>
  Two requests share a slot of the client exactly when their trimmed names and their ports are
  the same: \<open>localKey\<close> separates all others, whatever characters a name has.
\<close>

theorem local_key_identifies:
  "local_key name port = local_key name' port' \<longleftrightarrow> trim_space name = trim_space name' \<and> port = port'"
  by (rule local_key_inject)

lemma distinct_singleton: "distinct xs \<Longrightarrow> set xs = {x} \<Longrightarrow> xs = [x]"
  by (cases xs) (auto, metis empty_iff insert_iff list.set_intros(1) list.exhaust subset_singletonD)

text \<open>
  \<open>LocalServices\<close> returns every stored service once, strictly ordered by name and port, the same
  list in whatever order the runtime ranges over the map.
\<close>

theorem local_services_list_canonical:
  assumes "go_runtime w" "go_runtime w'" "client_inv c"
  shows "sorted_wrt (\<lambda>s t. service_order s < service_order t) (local_services_list w c) \<and>
    set (local_services_list w c) = snd ` set (cl_local_services c) \<and>
    local_services_list w' c = local_services_list w c"
proof -
  let ?ranged = "\<lambda>w. map snd (range_services w (history c) (cl_local_services c))"
  have same: "mset (?ranged w') = mset (?ranged w)" "mset (?ranged w) = mset (map snd (cl_local_services c))"
    using assms(1,2) by (simp_all add: go_runtime_def permutes_lists_def)
  have "distinct (map key_of (map snd (cl_local_services c)))"
    using assms(3) map_fst_key_of [OF assms(3)] by (simp add: client_inv_def comp_def)
  then have "distinct (map service_order (map snd (cl_local_services c)))"
    by (rule distinct_map_coarser) (simp add: service_order_def key_of_def)
  then have dist: "distinct (map service_order (?ranged w))"
    using perm_distinct_map [OF same(2)] by blast
  then have "sorted_wrt (<) (map service_order (local_services_list w c))"
    unfolding local_services_list_def
    by (intro distinct_sorted_less) (simp_all add: perm_distinct_map [of "sort_key service_order (?ranged w)" "?ranged w"])
  moreover have "local_services_list w' c = local_services_list w c"
    unfolding local_services_list_def
    using dist perm_distinct_map [OF same(1), of service_order] by (intro sort_key_perm_eq [OF same(1)]) blast
  moreover have "set (?ranged w) = set (map snd (cl_local_services c))"
    using same(2) by (rule mset_eq_setD)
  then have "set (local_services_list w c) = snd ` set (cl_local_services c)"
    by (simp add: local_services_list_def)
  ultimately show ?thesis
    by (simp add: sorted_wrt_map)
qed

theorem local_services_list_canonical_witness:
  "\<exists>s. local_services_list demo_env served_client = [s] \<and> ls_state s = StateServing"
proof -
  obtain s where s: "register_fresh demo_env demo_client demo_request = (Inr s, served_client)"
    "ls_state s = StateServing" "client_inv served_client"
    by (rule served)
  have "snd ` set (cl_local_services served_client) = {s}"
    using register_fresh_stored(4) [OF s(1)] by (simp add: demo_client_def)
  then have "sorted_wrt (\<lambda>s t. service_order s < service_order t) (local_services_list demo_env served_client)"
    "set (local_services_list demo_env served_client) = {s}"
    using local_services_list_canonical [OF demo_env_runtime demo_env_runtime s(3)] by auto
  moreover from this have "distinct (local_services_list demo_env served_client)"
    by (metis distinct_map sorted_wrt_map strict_sorted_iff)
  ultimately have "local_services_list demo_env served_client = [s]"
    by (intro distinct_singleton)
  with s(2) show ?thesis by blast
qed

text \<open>
  The checks of a registration carry the durations of the settings: with a lease TTL and a
  clean-up delay of a positive whole number of seconds, what Consul parses from the second check is
  exactly the TTL and the delay configured.
\<close>

theorem registration_ttl_round_trip:
  assumes "0 < n" "n * 1000000000 < 2 ^ 63" "st_agent_lease_ttl (cl_settings c) = int n * second"
    and "0 < m" "m * 1000000000 < 2 ^ 63" "st_deregister_critical_after (cl_settings c) = int m * second"
  shows "map (\<lambda>k. (parse_duration (ck_ttl k), parse_duration (ck_deregister_after k)))
      (tl (rg_checks (registration_for c s))) = [(Inr (int n * second), Inr (int m * second))]"
  using parse_duration_string_seconds [OF assms(1,2)] parse_duration_string_seconds [OF assms(4,5)] assms(3,6)
  by (simp add: registration_for_def Let_def)

theorem registration_ttl_round_trip_witness:
  "\<forall>s. map (\<lambda>k. (parse_duration (ck_ttl k), parse_duration (ck_deregister_after k)))
      (tl (rg_checks (registration_for demo_client s))) = [(Inr (10 * second), Inr (30 * second))]"
  using registration_ttl_round_trip [of 10 demo_client 30] by (simp add: demo_client_def demo_settings_def)

end
