(* ===== verification/Xds_Properties.thy ===== *)
theory Xds_Properties
  imports Xds_Grouping
begin

text \<open>
  The properties of the snapshot builder: what the groups, the localities and the endpoints of a
  snapshot are, that its references are closed and its names and versions unique, and where the
  virtual hosts clash.
\<close>

section \<open>Partitions of lists\<close>

lemma partition_mset:
  assumes "distinct ks" "f ` set xs \<subseteq> set ks"
  shows "mset (concat (map (\<lambda>k. filter (\<lambda>x. f x = k) xs) ks)) = mset xs"
  using assms
proof (induction ks arbitrary: xs)
  case (Cons k ks)
  let ?rest = "filter (\<lambda>x. f x \<noteq> k) xs"
  have "filter (\<lambda>x. f x = k') ?rest = filter (\<lambda>x. f x = k') xs" if "k' \<in> set ks" for k'
    using that Cons.prems(1) by (auto intro: filter_cong)
  then have "map (\<lambda>k'. filter (\<lambda>x. f x = k') xs) ks = map (\<lambda>k'. filter (\<lambda>x. f x = k') ?rest) ks"
    by (intro map_cong refl) simp
  moreover have "mset (concat (map (\<lambda>k'. filter (\<lambda>x. f x = k') ?rest) ks)) = mset ?rest"
    using Cons by (intro Cons.IH) auto
  ultimately have "mset (concat (map (\<lambda>k'. filter (\<lambda>x. f x = k') xs) ks)) = mset ?rest"
    by (simp only:)
  then show ?case
    by (simp add: multiset_partition [of "mset xs" "\<lambda>x. f x = k", symmetric])
qed simp

lemma partition_sorted:
  "mset (concat (map (\<lambda>k. filter (\<lambda>x. f x = k) xs) (sorted_list_of_set (f ` set xs)))) = mset xs"
  by (rule partition_mset) simp_all


section \<open>Groups\<close>

lemma group_key_reference:
  "k \<in> instance_group_key ` set xs \<Longrightarrow>
     group_key ((group_of (hd (filter (\<lambda>i. instance_group_key i = k) xs)))\<lparr>sg_instances := ys\<rparr>) = k"
  using first_of_key(2) [of k instance_group_key xs]
  by (simp add: group_key_def group_of_def instance_group_key_def)

lemma map_group_key_reference:
  "map group_key (reference_groups xs) = sorted_list_of_set (instance_group_key ` set xs)"
  unfolding reference_groups_def map_map comp_def Let_def
  by (rule map_idI) (simp add: group_key_reference)

lemma reference_group_cases:
  assumes "g \<in> set (reference_groups xs)"
  obtains i where "i \<in> set xs" "instance_group_key i = group_key g" "i = hd (sg_instances g)"
    "sg_name g = si_name i" "sg_namespace g = si_namespace i" "sg_dns g = si_dns i" "sg_port g = si_port i"
    "sg_instances g = filter (\<lambda>j. instance_group_key j = group_key g) xs"
proof -
  from assms obtain k where k: "k \<in> instance_group_key ` set xs"
    and g: "g = (group_of (hd (filter (\<lambda>i. instance_group_key i = k) xs)))
      \<lparr>sg_instances := filter (\<lambda>i. instance_group_key i = k) xs\<rparr>"
    by (auto simp: reference_groups_def Let_def)
  have "group_key g = k"
    unfolding g by (rule group_key_reference [OF k])
  with first_of_key [OF k] g show thesis
    by (intro that [of "hd (filter (\<lambda>i. instance_group_key i = k) xs)"]) (simp_all add: group_of_def)
qed

text \<open>
  The builder groups the instances by service name, namespace and port: the group keys ascend
  strictly, there is one group for every key in use, and a group holds exactly the instances of its
  key, in their order, under the DNS name of the first of them. The map order has no influence.
\<close>

theorem groups_partition_instances:
  assumes "permutes_lists ord"
  shows "map group_key (group_instances ord xs) = sorted_list_of_set (instance_group_key ` set xs) \<and>
    (\<forall>g \<in> set (group_instances ord xs).
       sg_instances g = filter (\<lambda>i. instance_group_key i = group_key g) xs \<and>
       sg_instances g \<noteq> [] \<and> sg_dns g = si_dns (hd (sg_instances g)))"
proof -
  have "sg_instances g = filter (\<lambda>i. instance_group_key i = group_key g) xs \<and>
       sg_instances g \<noteq> [] \<and> sg_dns g = si_dns (hd (sg_instances g))"
    if g: "g \<in> set (reference_groups xs)" for g
  proof -
    obtain i where i: "i \<in> set xs" "instance_group_key i = group_key g" "i = hd (sg_instances g)"
      "sg_instances g = filter (\<lambda>i. instance_group_key i = group_key g) xs" "sg_dns g = si_dns i"
      using reference_group_cases [OF g] by metis
    then show ?thesis
      by (auto simp: filter_empty_conv)
  qed
  then show ?thesis
    unfolding group_instances_reference [OF assms] map_group_key_reference by blast
qed

section \<open>Localities\<close>

text \<open>
  A load assignment lists the localities with instances of the agent's own cluster first, at
  priority 0, then the others at priority 1, within a priority by ascending zone; a locality holds
  one endpoint per instance of its zone and priority, in order. The map order has no influence.
\<close>

theorem localities_prefer_own_cluster:
  assumes "permutes_lists ord"
  shows "build_load_assignment ord st name xs =
    (let own = (\<lambda>i. trim_space (si_cluster i) = trim_space (bs_local_cluster st));
         zone_list = (\<lambda>p ys. map (\<lambda>zone. \<lparr>lo_zone = zone, lo_priority = p,
           lo_endpoints = map endpoint_of (filter (\<lambda>i. si_zone i = zone) ys)\<rparr>)
           (sorted_list_of_set (si_zone ` set ys)))
     in (\<lparr>la_cluster_name = name, la_localities =
            zone_list 0 (filter own xs) @ zone_list 1 (filter (\<lambda>i. \<not> own i) xs)\<rparr>, length xs))"
proof -
  have "priority_of st i = 0 \<longleftrightarrow> trim_space (si_cluster i) = trim_space (bs_local_cluster st)" for i
    by (simp add: priority_of_def)
  then show ?thesis
    by (simp add: build_load_assignment_reference [OF assms] reference_localities_def locality_of_def [abs_def]
        zones_def Let_def)
qed

text \<open>Instances for the witnesses: one service on two hosts, in the own cluster and in another one.\<close>

definition user_instance :: "string \<Rightarrow> string \<Rightarrow> string \<Rightarrow> service_instance" where
  "user_instance address zone cl =
     \<lparr>si_instance_id = ''i-'' @ address, si_name = ''user'', si_namespace = ''default'',
      si_dns = ''user.default.svc.cluster.local'', si_env = ''dev'', si_zone = zone, si_version = ''v1'',
      si_protocol = ''grpc'', si_address = address, si_port = 80, si_weight = 100, si_cluster = cl,
      si_route_config_ref = [], si_route_prefixes = []\<rparr>"

definition user_instances :: "service_instance list" where
  "user_instances = [user_instance ''10.0.0.2'' ''b'' ''west'', user_instance ''10.0.0.1'' ''a'' ''east'',
     user_instance ''10.0.0.3'' ''a'' ''west'']"

theorem groups_partition_instances_witness:
  "map (\<lambda>g. (group_key g, sg_instances g)) (group_instances rev user_instances) =
     [(''user|default|80'', user_instances)]"
proof -
  have "fmt_d 80 = ''80''" by code_simp
  then have key: "instance_group_key i = ''user|default|80''" if "i \<in> set user_instances" for i
    using that by (auto simp: user_instances_def instance_group_key_def user_instance_def)
  then have "instance_group_key ` set user_instances = {''user|default|80''}"
    by (auto simp: image_def user_instances_def)
  then have "sorted_list_of_set (instance_group_key ` set user_instances) = [''user|default|80'']"
    by simp
  then obtain g where g: "group_instances rev user_instances = [g]" "group_key g = ''user|default|80''"
    using groups_partition_instances [OF permutes_rev, of user_instances] by (auto simp: map_eq_Cons_conv)
  moreover have "sg_instances g = filter (\<lambda>i. instance_group_key i = group_key g) user_instances"
    using groups_partition_instances [OF permutes_rev, of user_instances] g(1) by simp
  ultimately show ?thesis
    using key by (simp add: filter_id_conv)
qed

definition demo_builder_settings :: builder_settings where
  "demo_builder_settings =
     \<lparr>bs_node_id = ''node'', bs_listener_address = ''127.0.0.1:15001'', bs_route_name = ''local-route'',
      bs_cluster_name_prefix = [], bs_local_cluster = ''west'', bs_default_timeout = 3 * second,
      bs_retry_attempts = 2, bs_per_try_timeout = second, bs_max_connections = 1024,
      bs_max_pending_requests = 1024, bs_max_requests = 2048, bs_consecutive_5xx = 5,
      bs_base_ejection_time = 30 * second, bs_max_ejection_percent = 50\<rparr>"

theorem localities_prefer_own_cluster_witness:
  "map (\<lambda>l. (lo_priority l, lo_zone l, map le_address (lo_endpoints l)))
     (la_localities (fst (build_load_assignment rev demo_builder_settings ''c'' user_instances))) =
   [(0, ''a'', [''10.0.0.3'']), (0, ''b'', [''10.0.0.2'']), (1, ''a'', [''10.0.0.1''])]"
proof -
  have "sorted_list_of_set (set [''b'', ''a'']) = [''a'', ''b'']"
    unfolding sorted_list_of_set_sort_remdups by code_simp
  then have "sorted_list_of_set {''b'', ''a''} = [''a'', ''b'']"
    by simp
  then show ?thesis
    unfolding localities_prefer_own_cluster [OF permutes_rev]
    by (simp add: Let_def user_instances_def user_instance_def demo_builder_settings_def
        trim_space_trimmed trimmed_def graphic_def endpoint_of_def)
qed

section \<open>Endpoints\<close>

text \<open>What Envoy can reach: every endpoint with the cluster, the zone and the priority it is listed under.\<close>

definition reachable :: "load_assignment list \<Rightarrow> (string \<times> string \<times> uint32 \<times> lb_endpoint) list" where
  "reachable as = concat (map (\<lambda>a. concat (map (\<lambda>l.
     map (\<lambda>e. (la_cluster_name a, lo_zone l, lo_priority l, e)) (lo_endpoints l)) (la_localities a))) as)"

lemma reachable_Cons:
  "reachable (a # as) = concat (map (\<lambda>l.
     map (\<lambda>e. (la_cluster_name a, lo_zone l, lo_priority l, e)) (lo_endpoints l)) (la_localities a)) @ reachable as"
  by (simp add: reachable_def)



lemma group_members:
  "mset (concat (map sg_instances (reference_groups xs))) = mset xs"
  unfolding reference_groups_def map_map comp_def Let_def
  using partition_sorted [of instance_group_key xs] by simp








section \<open>Closed references\<close>

text \<open>
  What \<open>Consistent\<close> of go-control-plane documents that it checks: the clusters refer to exactly the
  load assignments that are there, and the listeners to exactly the route configurations.
\<close>

definition references_closed :: "snapshot \<Rightarrow> bool" where
  "references_closed s \<longleftrightarrow>
     cr_name ` set (sn_clusters s) = la_cluster_name ` set (sn_endpoints s) \<and>
     ln_route_config_name ` set (sn_listeners s) = rc_name ` set (sn_routes s)"

text \<open>Every virtual host routes to a cluster of the snapshot.\<close>

definition routes_closed :: "snapshot \<Rightarrow> bool" where
  "routes_closed s \<longleftrightarrow>
     (\<forall>rc \<in> set (sn_routes s). \<forall>vh \<in> set (rc_virtual_hosts rc). vh_cluster vh \<in> cr_name ` set (sn_clusters s))"

lemma build_listener_route: "build_listener st = Inr ln \<Longrightarrow> ln_route_config_name ln = bs_route_name st"
  by (auto simp: build_listener_def split: sum.splits prod.splits)

lemma resources_closed:
  assumes "build_listener st = Inr ln"
  shows "references_closed (resources e st version ln groups) \<and> routes_closed (resources e st version ln groups)"
  using build_listener_route [OF assms]
  by (auto simp: references_closed_def routes_closed_def resources_def build_cluster_def build_virtual_host_def
      build_load_assignment_def image_image)

lemma group_endpoints_total:
  "sum_list (map (\<lambda>g. length (sg_instances g)) (reference_groups xs)) = length xs"
proof -
  have "length (concat (map sg_instances (reference_groups xs))) = length xs"
    using group_members [of xs] by (metis size_mset)
  then show ?thesis
    by (simp add: length_concat comp_def)
qed

text \<open>
  C19. Building succeeds whenever the listener address is \<open>host:port\<close>, given that go-control-plane
  accepts closed snapshots: the result is closed, also from routes to clusters; the version is one
  more than before (modulo \<open>2^64\<close>), and the summary counts one cluster per service and one endpoint per
  instance and is the one kept.
\<close>

theorem build_succeeds:
  assumes "xds_runtime e" "build_listener (bd_settings b) = Inr ln"
    and "\<And>s. xe_new_snapshot e s = None" "\<And>s. references_closed s \<Longrightarrow> xe_consistent e s = None"
  shows "\<exists>snap sm. build e t b xs = (Inr (snap, sm), b\<lparr>bd_version := bd_version b + 1, bd_summary := sm\<rparr>) \<and>
    references_closed snap \<and> routes_closed snap \<and> sn_listeners snap = [ln] \<and>
    sn_version snap = fmt_d (uint (bd_version b + 1)) \<and> sm_version sm = bd_version b + 1 \<and>
    sm_cluster_count sm = card (instance_group_key ` set xs) \<and> sm_endpoint_count sm = length xs \<and>
    length (sm_services sm) = sm_cluster_count sm \<and> sorted (sm_services sm) \<and> sm_published_at sm = Some t"
proof -
  let ?st = "bd_settings b" and ?gs = "reference_groups xs"
  let ?snap = "resources e ?st (bd_version b + 1) ln ?gs"
  let ?sm = "\<lparr>sm_version = bd_version b + 1, sm_listener_name = ''local-listener'', sm_route_name = bs_route_name ?st,
    sm_services = sort (map service_name ?gs), sm_cluster_count = length ?gs, sm_endpoint_count = length xs,
    sm_published_at = Some t\<rparr>"
  have orders: "permutes_lists (xe_range_groups e)" "permutes_lists (xe_range_localities e)"
    using assms(1) by (simp_all add: xds_runtime_def)
  note closed = resources_closed [OF assms(2), of e "bd_version b + 1" ?gs]
  have "length ?gs = card (instance_group_key ` set xs)"
    using map_group_key_reference [of xs] by (metis length_map length_sorted_list_of_set)
  moreover have "length (sn_clusters ?snap) = length ?gs" "sn_listeners ?snap = [ln]"
    "sn_version ?snap = fmt_d (uint (bd_version b + 1))"
    by (simp_all add: resources_def)
  moreover have "build e t b xs = (Inr (?snap, ?sm), b\<lparr>bd_version := bd_version b + 1, bd_summary := ?sm\<rparr>)"
    using assms(2-4) closed
    by (simp add: build_def group_instances_reference [OF orders(1)] build_load_assignment_reference [OF orders(2)]
        group_endpoints_total resources_def Let_def)
  ultimately show ?thesis
    using closed by (intro exI [of _ ?snap] exI [of _ ?sm]) simp
qed

definition accepting_xds :: xds_env where
  "accepting_xds =
     \<lparr>xe_range_groups = rev, xe_range_localities = rev, xe_new_snapshot = (\<lambda>_. None),
      xe_consistent = (\<lambda>s. if references_closed s then None else Some ''inconsistent snapshot'')\<rparr>"

lemma accepting_runtime: "xds_runtime accepting_xds"
  by (simp add: xds_runtime_def accepting_xds_def permutes_rev)

lemma demo_listener: "\<exists>ln. build_listener (bd_settings (new_builder demo_builder_settings)) = Inr ln"
  by (simp add: build_listener_def new_builder_def demo_builder_settings_def split_host_port_def
      last_index_byte_def Let_def)

lemma demo_build:
  obtains snap sm b' where "build accepting_xds t (new_builder demo_builder_settings) xs = (Inr (snap, sm), b')"
proof -
  obtain ln where ln: "build_listener (bd_settings (new_builder demo_builder_settings)) = Inr ln"
    using demo_listener by blast
  then show thesis
    using that resources_closed [OF ln] by (auto simp: build_def accepting_xds_def Let_def)
qed


theorem build_succeeds_witness:
  "\<exists>snap sm. build accepting_xds 7 (new_builder demo_builder_settings) user_instances =
     (Inr (snap, sm), (new_builder demo_builder_settings)\<lparr>bd_version := 1, bd_summary := sm\<rparr>) \<and>
     references_closed snap \<and> sm_cluster_count sm = 1 \<and> sm_endpoint_count sm = 3"
proof -
  obtain ln where ln: "build_listener (bd_settings (new_builder demo_builder_settings)) = Inr ln"
    using demo_listener by blast
  have "instance_group_key ` set user_instances = {instance_group_key (user_instance ''10.0.0.2'' ''b'' ''west'')}"
    by (simp add: user_instances_def instance_group_key_def user_instance_def)
  then have counts: "card (instance_group_key ` set user_instances) = 1" "length user_instances = 3"
    by (simp_all add: user_instances_def)
  have version: "bd_version (new_builder demo_builder_settings) + 1 = 1"
    by (simp add: new_builder_def Let_def)
  show ?thesis
    using build_succeeds [OF accepting_runtime ln, of 7 user_instances] unfolding counts version
    by (simp add: accepting_xds_def) blast
qed

section \<open>Names and versions\<close>

lemma cluster_name_inject:
  assumes "CHR ''.'' \<notin> set n" "CHR ''.'' \<notin> set n'" "CHR ''.'' \<notin> set ns" "CHR ''.'' \<notin> set ns'"
    and "trim_space n = n" "trim_space n' = n'" "trim_space ns = ns" "trim_space ns' = ns'"
  shows "cluster_name st n ns p = cluster_name st n' ns' p' \<longleftrightarrow> n = n' \<and> ns = ns' \<and> p = p'"
  using assms by (auto simp: cluster_name_def append_sep_inject_left)

text \<open>
  Where service names and namespaces are trimmed and free of dots, the clusters of a snapshot have
  pairwise different names, and so have its load assignments and virtual hosts: no resource hides
  another one in Envoy.
\<close>

theorem cluster_names_unique:
  assumes "xds_runtime e" "build e t b xs = (Inr (snap, sm), b')"
    and "\<forall>i \<in> set xs. CHR ''.'' \<notin> set (si_name i) \<and> CHR ''.'' \<notin> set (si_namespace i) \<and>
      trim_space (si_name i) = si_name i \<and> trim_space (si_namespace i) = si_namespace i"
  shows "distinct (map cr_name (sn_clusters snap)) \<and> distinct (map la_cluster_name (sn_endpoints snap)) \<and>
    (\<forall>rc \<in> set (sn_routes snap). distinct (map vh_name (rc_virtual_hosts rc)))"
proof -
  let ?st = "bd_settings b" and ?gs = "reference_groups xs"
  have orders: "permutes_lists (xe_range_groups e)" "permutes_lists (xe_range_localities e)"
    using assms(1) by (simp_all add: xds_runtime_def)
  have key: "group_key g = group_key g'" if gs: "g \<in> set ?gs" "g' \<in> set ?gs" "group_cluster ?st g = group_cluster ?st g'" for g g'
  proof -
    obtain i where i: "i \<in> set xs" "sg_name g = si_name i" "sg_namespace g = si_namespace i"
      by (rule reference_group_cases [OF gs(1)])
    obtain j where j: "j \<in> set xs" "sg_name g' = si_name j" "sg_namespace g' = si_namespace j"
      by (rule reference_group_cases [OF gs(2)])
    show ?thesis
      using gs(3) assms(3) i j by (simp add: group_cluster_def cluster_name_inject group_key_def)
  qed
  have names: "distinct (map (group_cluster ?st) ?gs)"
    by (rule distinct_map_coarser [where f = group_key]) (simp add: map_group_key_reference, rule key)
  have "snap = resources e ?st (bd_version b + 1) (hd (sn_listeners snap)) ?gs"
    using assms(2) unfolding group_instances_reference [OF orders(1), symmetric]
    by (auto simp: build_def Let_def resources_def split: sum.splits option.splits)
  then obtain ln where snap: "snap = resources e ?st (bd_version b + 1) ln ?gs" ..
  from names show ?thesis
    unfolding snap by (simp add: resources_def build_cluster_def build_virtual_host_def build_load_assignment_def comp_def)
qed

theorem cluster_names_unique_witness:
  "\<exists>snap sm b'. build accepting_xds 7 (new_builder demo_builder_settings)
     ((user_instance ''10.0.0.9'' ''a'' ''west'')\<lparr>si_name := ''order''\<rparr> # user_instances) = (Inr (snap, sm), b') \<and>
     distinct (map cr_name (sn_clusters snap))"
proof -
  let ?xs = "(user_instance ''10.0.0.9'' ''a'' ''west'')\<lparr>si_name := ''order''\<rparr> # user_instances"
  obtain snap sm b' where b: "build accepting_xds 7 (new_builder demo_builder_settings) ?xs = (Inr (snap, sm), b')"
    by (rule demo_build)
  have "\<forall>i \<in> set ?xs. CHR ''.'' \<notin> set (si_name i) \<and> CHR ''.'' \<notin> set (si_namespace i) \<and>
      trim_space (si_name i) = si_name i \<and> trim_space (si_namespace i) = si_namespace i"
    by (simp add: user_instances_def user_instance_def trim_space_trimmed trimmed_def graphic_def)
  from cluster_names_unique [OF accepting_runtime b this] b show ?thesis by blast
qed

text \<open>Without that restriction two services may share a cluster name.\<close>

lemma cluster_names_collide:
  "cluster_name st ''a.b'' ''c'' p = cluster_name st ''a'' ''b.c'' p \<and> ''a.b'' \<noteq> ''a''"
  by (simp add: cluster_name_def trim_space_trimmed trimmed_def graphic_def)

text \<open>The snapshots that a sequence of builds returns, failures left out.\<close>

fun build_all :: "xds_env \<Rightarrow> builder \<Rightarrow> (instant \<times> service_instance list) list \<Rightarrow> snapshot list" where
  "build_all e b [] = []"
| "build_all e b ((t, xs) # rest) =
     (case build e t b xs of
        (Inl err, b') \<Rightarrow> build_all e b' rest
      | (Inr (snap, sm), b') \<Rightarrow> snap # build_all e b' rest)"

lemma build_version:
  assumes "build e t b xs = (r, b')"
  shows "b' = b \<and> \<not> is_ok r \<or> bd_version b' = bd_version b + 1 \<and>
    (\<forall>snap sm. r = Inr (snap, sm) \<longrightarrow> sn_version snap = fmt_d (uint (bd_version b + 1)))"
  using assms by (auto simp: build_def resources_def Let_def split: sum.splits option.splits)

lemma build_all_versions:
  "\<exists>ks. sorted_wrt (<) ks \<and> set ks \<subseteq> {1..length inputs} \<and>
     map sn_version (build_all e b inputs) = map (\<lambda>k. fmt_d (uint (bd_version b + of_nat k))) ks"
proof (induction inputs arbitrary: b)
  case (Cons input inputs)
  obtain t xs where input: "input = (t, xs)"
    by fastforce
  obtain r b' where step: "build e t b xs = (r, b')"
    by fastforce
  obtain ks where ks: "sorted_wrt (<) ks" "set ks \<subseteq> {1..length inputs}"
    "map sn_version (build_all e b' inputs) = map (\<lambda>k. fmt_d (uint (bd_version b' + of_nat k))) ks"
    using Cons.IH by blast
  note version = build_version [OF step]
  show ?case
  proof (cases "b' = b \<and> \<not> is_ok r")
    case True
    with input step have "build_all e b (input # inputs) = build_all e b inputs"
      by (cases r) auto
    with ks True show ?thesis
      by (intro exI [of _ ks]) auto
  next
    case False
    with version have b': "bd_version b' + of_nat k = bd_version b + of_nat (Suc k)" for k
      by (auto simp: add.assoc)
    let ?ks = "map Suc ks"
    have shifted: "sorted_wrt (<) ?ks" "set ?ks \<subseteq> {2..length (input # inputs)}"
      "map sn_version (build_all e b' inputs) = map (\<lambda>k. fmt_d (uint (bd_version b + of_nat k))) ?ks"
      using ks by (auto simp: sorted_wrt_map b' simp del: of_nat_Suc)
    show ?thesis
    proof (cases r)
      case (Inl err)
      with shifted input step show ?thesis
        by (intro exI [of _ ?ks]) auto
    next
      case (Inr p)
      obtain snap sm where p: "p = (snap, sm)"
        by fastforce
      with version Inr False have "sn_version snap = fmt_d (uint (bd_version b + 1))"
        by auto
      with shifted input step Inr p show ?thesis
        by (intro exI [of _ "1 # ?ks"]) auto
    qed
  qed
qed (intro exI [of _ "[]"], simp)

text \<open>
  C32. Versions never repeat: among the snapshots of fewer than \<open>2^64\<close> consecutive builds, some of
  which may fail, all versions differ, so that Envoy takes every new snapshot for an update.
\<close>

theorem versions_never_repeat:
  assumes "length inputs < 2 ^ 64"
  shows "distinct (map sn_version (build_all e b inputs))"
proof -
  obtain ks where ks: "sorted_wrt (<) ks" "set ks \<subseteq> {1..length inputs}"
    "map sn_version (build_all e b inputs) = map (\<lambda>k. fmt_d (uint (bd_version b + of_nat k))) ks"
    using build_all_versions by blast
  have "inj_on (\<lambda>k. fmt_d (uint (bd_version b + of_nat k))) (set ks)"
  proof (rule inj_onI)
    fix k k' assume kk: "k \<in> set ks" "k' \<in> set ks"
      and "fmt_d (uint (bd_version b + of_nat k)) = fmt_d (uint (bd_version b + of_nat k'))"
    then have "(of_nat k :: 64 word) = of_nat k'"
      by (simp flip: word_uint_eq_iff)
    then have "unat (of_nat k :: 64 word) = unat (of_nat k' :: 64 word)"
      by simp
    moreover have "k < 2 ^ 64" "k' < 2 ^ 64"
      using kk ks(2) assms by force+
    ultimately show "k = k'"
      by (simp add: unat_of_nat)
  qed
  with ks(1,3) show ?thesis
    by (simp add: distinct_map strict_sorted_iff)
qed

theorem versions_never_repeat_witness:
  "distinct (map sn_version (build_all accepting_xds (new_builder demo_builder_settings)
     [(1, user_instances), (2, []), (3, user_instances)]))"
  by (rule versions_never_repeat) simp

section \<open>Virtual hosts\<close>

lemma distinct_concat_disjoint:
  "distinct (concat (map f xs)) \<Longrightarrow> x \<in> set xs \<Longrightarrow> y \<in> set xs \<Longrightarrow> x \<noteq> y \<Longrightarrow> set (f x) \<inter> set (f y) = {}"
  by (induction xs) auto

text \<open>
  C33. A service that is served under one DNS name on two ports (or in two namespaces) clashes with
  itself: the route configuration then has the same domain in two virtual hosts, which Envoy rejects,
  so that no update of the routes reaches it any more.
\<close>

theorem shared_dns_clashes:
  assumes "xds_runtime e" "build e t b xs = (Inr (snap, sm), b')"
    and "i \<in> set xs" "j \<in> set xs" "si_dns i = si_dns j" "instance_group_key i \<noteq> instance_group_key j"
    and "\<forall>x \<in> set xs. \<forall>y \<in> set xs. instance_group_key x = instance_group_key y \<longrightarrow> si_dns x = si_dns y"
  shows "\<exists>rc \<in> set (sn_routes snap). \<not> distinct (concat (map vh_domains (rc_virtual_hosts rc)))"
proof -
  let ?st = "bd_settings b" and ?gs = "reference_groups xs"
  have order: "permutes_lists (xe_range_groups e)"
    using assms(1) by (simp add: xds_runtime_def)
  have group: "\<exists>g \<in> set ?gs. group_key g = instance_group_key x \<and> sg_dns g = si_dns x" if x: "x \<in> set xs" for x
  proof -
    have "instance_group_key x \<in> set (map group_key ?gs)"
      using x by (simp add: map_group_key_reference)
    then obtain g where g: "g \<in> set ?gs" "group_key g = instance_group_key x"
      by auto
    obtain y where "y \<in> set xs" "instance_group_key y = group_key g" "sg_dns g = si_dns y"
      by (rule reference_group_cases [OF g(1)])
    with g x assms(7) show ?thesis
      by metis
  qed
  obtain g h where gh: "g \<in> set ?gs" "h \<in> set ?gs" "group_key g = instance_group_key i"
    "group_key h = instance_group_key j" "sg_dns g = sg_dns h"
    using group [OF assms(3)] group [OF assms(4)] assms(5) by metis
  then have "g \<noteq> h"
    using assms(6) by auto
  let ?hosts = "map (\<lambda>g. build_virtual_host ?st (group_cluster ?st g) (sg_dns g) (sg_port g)) ?gs"
  let ?domains = "\<lambda>g. [sg_dns g, sg_dns g @ '':'' @ fmt_d (sg_port g)]"
  have "map vh_domains ?hosts = map ?domains ?gs"
    by (simp add: build_virtual_host_def)
  moreover have "\<not> distinct (concat (map ?domains ?gs))"
    using distinct_concat_disjoint [of ?domains ?gs g h] gh \<open>g \<noteq> h\<close> by auto
  moreover have "sn_routes snap = [\<lparr>rc_name = bs_route_name ?st, rc_virtual_hosts = ?hosts\<rparr>]"
    using assms(2) unfolding group_instances_reference [OF order, symmetric]
    by (auto simp: build_def resources_def Let_def split: sum.splits option.splits)
  ultimately show ?thesis
    by (simp del: map_map)
qed

theorem shared_dns_clashes_witness:
  "\<exists>snap sm b'. build accepting_xds 7 (new_builder demo_builder_settings)
     [user_instance ''10.0.0.2'' ''b'' ''west'', (user_instance ''10.0.0.2'' ''b'' ''west'')\<lparr>si_port := 81\<rparr>] =
       (Inr (snap, sm), b') \<and>
     (\<exists>rc \<in> set (sn_routes snap). \<not> distinct (concat (map vh_domains (rc_virtual_hosts rc))))"
proof -
  let ?i = "user_instance ''10.0.0.2'' ''b'' ''west''"
  let ?xs = "[?i, ?i\<lparr>si_port := 81\<rparr>]"
  obtain snap sm b' where b: "build accepting_xds 7 (new_builder demo_builder_settings) ?xs = (Inr (snap, sm), b')"
    by (rule demo_build)
  have "\<exists>rc \<in> set (sn_routes snap). \<not> distinct (concat (map vh_domains (rc_virtual_hosts rc)))"
    by (rule shared_dns_clashes [OF accepting_runtime b, of ?i "?i\<lparr>si_port := 81\<rparr>"])
      (simp_all add: user_instance_def instance_group_key_def)
  with b show ?thesis by blast
qed

end
