(* ===== verification/Config_Properties.thy ===== *)
theory Config_Properties
  imports Config Duration_Format
begin

text \<open>
  The properties of the configuration: \<open>Validate\<close> decides validity in whatever order the maps are
  ranged over and never panics, the defaults are valid, what \<open>Load\<close> returns, and the non-positive
  intervals that pass.
\<close>

lemma dec_literals:
  "dec 0 = ''0''" "dec (Suc 0) = ''1''" "dec 3 = ''3''" "dec 5 = ''5''" "dec 10 = ''10''" "dec 20 = ''20''"
  "dec 30 = ''30''"
  by code_simp+

lemma seconds_literals:
  "parse_duration ''0s'' = Inr 0" "parse_duration ''1s'' = Inr 1000000000"
  "parse_duration ''3s'' = Inr 3000000000" "parse_duration ''5s'' = Inr 5000000000"
  "parse_duration ''10s'' = Inr 10000000000" "parse_duration ''20s'' = Inr 20000000000"
  "parse_duration ''30s'' = Inr 30000000000"
  using parse_seconds [of 0] parse_seconds [of 1] parse_seconds [of 3] parse_seconds [of 5]
    parse_seconds [of 10] parse_seconds [of 20] parse_seconds [of 30]
  by (simp_all add: dec_literals)

lemma default_addresses:
  "address_ok ''127.0.0.1:15353''" "address_ok ''127.0.0.1:15010''" "address_ok ''127.0.0.1:15011''"
  "address_ok ''127.0.0.1:15001''" "address_ok ''127.0.0.1:19000''" "address_ok ''8.8.8.8:53''"
  "address_ok ''127.0.0.1:8500''"
  by (simp_all add: address_ok_def trim_space_trimmed trimmed_def graphic_def split_host_port_def
      last_index_byte_def Let_def)

lemma default_durations:
  "must_duration ''0s'' = Some 0" "must_duration ''1s'' = Some 1000000000"
  "must_duration ''3s'' = Some 3000000000" "must_duration ''5s'' = Some 5000000000"
  "must_duration ''10s'' = Some 10000000000" "must_duration ''20s'' = Some 20000000000"
  "must_duration ''30s'' = Some 30000000000"
  by (simp_all add: must_duration_def trim_space_trimmed trimmed_def graphic_def seconds_literals)

lemma default_host: "parse_ip ''127.0.0.1''"
  by (simp add: parse_ip_def is_digit_def digit_value_def)

lemma default_valid: "valid_config default_config"
proof -
  have "list_all (\<lambda>(f, v). address_ok v) (address_fields default_config)"
    by (simp add: address_fields_def default_config_def default_addresses)
  moreover have "list_all (\<lambda>(f, v). duration_ok v) (duration_fields default_config)"
    by (simp add: duration_fields_def default_config_def duration_ok_def default_durations)
  moreover have "list_all (\<lambda>(f, v). trim_space v \<noteq> []) (required_fields default_config)"
    by (simp add: required_fields_def default_config_def trim_space_trimmed trimmed_def graphic_def)
  ultimately show ?thesis
    unfolding valid_config_def list_all_iff
    by (simp add: default_config_def default_host default_addresses default_durations exporter_ok_def
        trim_space_trimmed trimmed_def graphic_def)
qed



text \<open>
  The intervals of a valid configuration need not be positive: the defaults with a refresh
  interval and a lease refresh interval of zero seconds are accepted, and both parse to 0, on which
  \<open>time.NewTicker\<close> panics.
\<close>

definition zero_interval_config :: config where
  "zero_interval_config = default_config
     \<lparr>cf_discovery := \<lparr>dcc_refresh_interval = ''0s'', dcc_debounce_interval = ''1s''\<rparr>,
      cf_consul := (cf_consul default_config)\<lparr>ccc_agent_lease_refresh_interval := ''0s''\<rparr>\<rparr>"

theorem config_accepts_zero_interval:
  "valid_config zero_interval_config \<and>
   must_duration (dcc_refresh_interval (cf_discovery zero_interval_config)) = Some 0 \<and>
   must_duration (ccc_agent_lease_refresh_interval (cf_consul zero_interval_config)) = Some 0"
proof -
  have "list_all (\<lambda>(f, v). address_ok v) (address_fields zero_interval_config)"
    by (simp add: address_fields_def zero_interval_config_def default_config_def default_addresses)
  moreover have "list_all (\<lambda>(f, v). duration_ok v) (duration_fields zero_interval_config)"
    by (simp add: duration_fields_def zero_interval_config_def default_config_def duration_ok_def
        default_durations)
  moreover have "list_all (\<lambda>(f, v). trim_space v \<noteq> []) (required_fields zero_interval_config)"
    by (simp add: required_fields_def zero_interval_config_def default_config_def trim_space_trimmed
        trimmed_def graphic_def)
  ultimately have "valid_config zero_interval_config"
    unfolding valid_config_def list_all_iff
    by (simp add: zero_interval_config_def default_config_def default_host default_addresses
        default_durations exporter_ok_def trim_space_trimmed trimmed_def graphic_def)
  then show ?thesis
    by (simp add: zero_interval_config_def default_config_def default_durations)
qed

text \<open>
  What \<open>Load\<close> returns is valid, whatever the file and its decoding are; and if the file is given
  by an absolute path, the Envoy bootstrap path of the result is blank or absolute. (With a relative
  path it stays relative to the working directory.)
\<close>

theorem load_valid_and_rebased:
  assumes "permutes_lists ord1" "permutes_lists ord2" "permutes_lists ord3"
    and "load (validate ord1 ord2 ord3) read_file decode path = Some (Inr c)"
  shows "valid_config c \<and> (is_abs path \<longrightarrow> trim_space path \<noteq> [] \<longrightarrow>
     trim_space (ec_bootstrap_path (cf_envoy c)) = [] \<or> is_abs (ec_bootstrap_path (cf_envoy c)))"
proof (cases "trim_space path = []")
  case True
  with assms(4) validate_decides [OF assms(1-3)] show ?thesis
    by (auto simp: load_def Let_def split: checked.splits option.splits)
next
  case False
  with assms(4) obtain c0 where c: "c = rebase_bootstrap path c0" "validate ord1 ord2 ord3 c = Returns None"
    by (auto simp: load_def Let_def split: checked.splits option.splits sum.splits)
  have "is_abs path \<Longrightarrow>
      trim_space (ec_bootstrap_path (cf_envoy c)) = [] \<or> is_abs (ec_bootstrap_path (cf_envoy c))"
    unfolding c(1) rebase_bootstrap_def by (simp add: path_join_abs path_dir_abs)
  with validate_decides [OF assms(1-3)] c(2) show ?thesis by blast
qed

theorem load_valid_and_rebased_witness:
  "\<exists>c. load (validate rev rev rev) (\<lambda>p. Inr []) (\<lambda>d c. Inr c) ''/etc/agent.yaml'' = Some (Inr c) \<and>
     is_abs (ec_bootstrap_path (cf_envoy c))"
proof -
  let ?check = "validate rev rev rev"
  let ?path = "''/etc/agent.yaml''"
  note ok = validate_decides [OF permutes_rev permutes_rev permutes_rev]
  have path: "trim_space ?path \<noteq> []" "is_abs ?path"
    by (simp_all add: trim_space_trimmed trimmed_def graphic_def)
  let ?c = "rebase_bootstrap ?path default_config"
  have boot: "ec_bootstrap_path (cf_envoy ?c) = path_join (path_dir ?path) ''./.tmp/envoy-bootstrap.yaml''"
    by (simp add: rebase_bootstrap_def default_config_def is_abs_def has_prefix_def trim_space_trimmed
        trimmed_def graphic_def)
  have "valid_config ?c"
    using default_valid
    by (simp add: valid_config_def rebase_bootstrap_def address_fields_def required_fields_def
        duration_fields_def Let_def default_config_def)
  then have "?check ?c = Returns None"
    using ok by blast
  then have load: "load ?check (\<lambda>p. Inr []) (\<lambda>d c. Inr c) ?path = Some (Inr ?c)"
    using path(1) by (simp add: load_def Let_def)
  have "trim_space (ec_bootstrap_path (cf_envoy ?c)) = [] \<or> is_abs (ec_bootstrap_path (cf_envoy ?c))"
    using load_valid_and_rebased [OF permutes_rev permutes_rev permutes_rev load] path by blast
  moreover have "is_abs (ec_bootstrap_path (cf_envoy ?c))"
    unfolding boot by (intro path_join_abs path_dir_abs path)
  ultimately show ?thesis
    using load by blast
qed

end
