(* ===== verification/Discovery_Properties.thy ===== *)
theory Discovery_Properties
  imports Discovery
begin

text \<open>
  The properties of the discovery watcher: how publications are spaced, that a changed instance set
  is published in the end, and that the loop ends for good at the first error. The clock is read
  through a function \<open>time\<close> of the world that no operation turns back.
\<close>

definition monotone_clock :: "'s watch_env \<Rightarrow> ('s \<Rightarrow> instant) \<Rightarrow> bool" where
  "monotone_clock e time \<longleftrightarrow>
     (\<forall>s. fst (we_now e s) = time s \<and> time s \<le> time (snd (we_now e s)) \<and>
        time s \<le> time (snd (we_discover e s)) \<and> (\<forall>xs. time s \<le> time (snd (we_on_update e xs s))) \<and>
        time s \<le> time (we_count e s) \<and> time s \<le> time (we_wait e s))"

section \<open>Spacing\<close>

text \<open>The time and fingerprint of every publication of a run of the loop, in order.\<close>

fun publications :: "'s watch_env \<Rightarrow> signal list \<Rightarrow> watcher \<Rightarrow> 's \<Rightarrow> (instant \<times> string) list" where
  "publications e [] w s = []"
| "publications e (Cancelled # signals) w s = []"
| "publications e (Tick # signals) w s =
     (case refresh_once e w (we_wait e s) of
        (Some err, w', s') \<Rightarrow> []
      | (None, w', s') \<Rightarrow>
          (if w' = w then [] else [(the (wt_last_publish_at w'), wt_last_fingerprint w')]) @
          publications e signals w' s')"

text \<open>Consecutive publications have different fingerprints and keep the debounce distance.\<close>

fun spaced :: "duration \<Rightarrow> (instant \<times> string) list \<Rightarrow> bool" where
  "spaced d ((t, fp) # (t', fp') # ps) \<longleftrightarrow> fp \<noteq> fp' \<and> d \<le> t' - t \<and> spaced d ((t', fp') # ps)"
| "spaced d ps = True"

lemma too_early_clock:
  assumes "monotone_clock e time" "too_early e w s = (b, s')"
  shows "time s \<le> time s' \<and> b = (case wt_last_publish_at w of None \<Rightarrow> False
    | Some prev \<Rightarrow> time s - prev < wt_debounce_interval w)"
proof (cases "wt_last_publish_at w")
  case (Some prev)
  have "fst (we_now e s) = time s" "time s \<le> time (snd (we_now e s))"
    using assms(1) unfolding monotone_clock_def by blast+
  with Some assms(2) show ?thesis
    by (auto simp: too_early_def split: prod.splits)
qed (use assms in \<open>auto simp: too_early_def\<close>)

lemma publish_changed_publishes:
  assumes "monotone_clock e time" "publish_changed e w xs fp s = (r, w', s')"
  shows "time s \<le> time s' \<and> (w' = w \<or> (r = None \<and> wt_last_fingerprint w' = fp \<and> fp \<noteq> wt_last_fingerprint w \<and>
    (\<exists>t. wt_last_publish_at w' = Some t \<and> time s \<le> t \<and>
       (\<forall>prev. wt_last_publish_at w = Some prev \<longrightarrow> wt_debounce_interval w \<le> t - prev))))"
proof (cases "fp = wt_last_fingerprint w")
  case False
  obtain b s1 where early: "too_early e w s = (b, s1)"
    by fastforce
  note clock1 = too_early_clock [OF assms(1) early]
  obtain u s2 where update: "we_on_update e xs s1 = (u, s2)"
    by fastforce
  obtain t s3 where now: "we_now e s2 = (t, s3)"
    by fastforce
  have clock: "time s1 \<le> time s2" "t = time s2" "time s2 \<le> time s3"
    using assms(1) update now unfolding monotone_clock_def by (metis fst_conv snd_conv)+
  show ?thesis
  proof (cases "b \<or> u \<noteq> None")
    case True
    with assms(2) False early update clock clock1 show ?thesis
      by (auto simp: publish_changed_def split: bool.splits option.splits)
  next
    case ok: False
    then have "w' = w\<lparr>wt_last_fingerprint := fp, wt_last_publish_at := Some t\<rparr>" "r = None" "s' = s3"
      using assms(2) False early update now by (auto simp: publish_changed_def)
    with False ok clock clock1 show ?thesis
      by (auto split: option.splits)
  qed
qed (use assms(2) in \<open>simp add: publish_changed_def\<close>)

lemma refresh_once_publishes:
  assumes "monotone_clock e time" "refresh_once e w s = (r, w', s')"
  shows "time s \<le> time s' \<and> (w' = w \<or> (r = None \<and> wt_last_fingerprint w' \<noteq> wt_last_fingerprint w \<and>
    (\<exists>t. wt_last_publish_at w' = Some t \<and>
       (\<forall>prev. wt_last_publish_at w = Some prev \<longrightarrow> wt_debounce_interval w \<le> t - prev))))"
proof -
  obtain d s1 where d: "we_discover e s = (d, s1)"
    by fastforce
  have clock: "time s \<le> time s1" "time s1 \<le> time (we_count e s1)"
    using assms(1) d unfolding monotone_clock_def by (metis snd_conv)+
  show ?thesis
    using assms(2) d clock publish_changed_publishes [OF assms(1), of w _ _ "we_count e s1" r w' s']
    by (fastforce simp: refresh_once_def Let_def split: sum.splits)
qed

lemma publications_spaced:
  assumes "monotone_clock e time" "wt_last_publish_at w = Some prev"
  shows "spaced (wt_debounce_interval w) ((prev, wt_last_fingerprint w) # publications e signals w s)"
  using assms(2)
proof (induction signals arbitrary: w s prev)
  case (Cons signal signals)
  show ?case
  proof (cases signal)
    case Tick
    obtain r w' s' where once: "refresh_once e w (we_wait e s) = (r, w', s')"
      using prod_cases3 by blast
    note facts = refresh_once_publishes [OF assms(1) once] refresh_once_settings [OF once]
    show ?thesis
    proof (cases r)
      case None
      show ?thesis
      proof (cases "w' = w")
        case True
        with Cons None Tick once show ?thesis by simp
      next
        case False
        then obtain t where "wt_last_publish_at w' = Some t" "wt_debounce_interval w \<le> t - prev"
            "wt_last_fingerprint w' \<noteq> wt_last_fingerprint w"
          using facts Cons.prems by auto
        with Cons.IH [of w' t s'] facts None False Tick once show ?thesis by auto
      qed
    qed (use Tick once in simp)
  qed simp
qed simp

text \<open>
  Debouncing: whatever the source delivers and whenever the ticks come, two consecutive
  publications of the loop have different fingerprints and lie at least the debounce interval apart,
  counted from the last publication before.
\<close>

theorem publications_are_spaced:
  assumes "monotone_clock e time"
  shows "spaced (wt_debounce_interval w) (publications e signals w s)"
proof (induction signals arbitrary: w s)
  case (Cons signal signals)
  show ?case
  proof (cases signal)
    case Tick
    obtain r w' s' where once: "refresh_once e w (we_wait e s) = (r, w', s')"
      using prod_cases3 by blast
    note facts = refresh_once_publishes [OF assms once] refresh_once_settings [OF once]
    show ?thesis
    proof (cases "r = None \<and> w' \<noteq> w")
      case True
      then obtain t where "wt_last_publish_at w' = Some t"
        using facts by auto
      from publications_spaced [OF assms this, of signals s'] True Tick once facts
        \<open>wt_last_publish_at w' = Some t\<close>
      show ?thesis by simp
    next
      case False
      with Cons Tick once show ?thesis by (cases r) auto
    qed
  qed simp
qed simp

text \<open>A world that is a clock: every call takes a nanosecond, a tick comes after the interval.\<close>

definition clock_env :: "duration \<Rightarrow> service_instance list \<Rightarrow> instant watch_env" where
  "clock_env interval xs =
     \<lparr>we_discover = (\<lambda>s. (Inr xs, s + 1)), we_on_update = (\<lambda>ys s. (None, s + 1)), we_count = (\<lambda>s. s),
      we_now = (\<lambda>s. (s, s)), we_wait = (\<lambda>s. s + interval), we_encode = (\<lambda>ys. Inr (fmt_d (int (length ys)))),
      we_digest = map of_char\<rparr>"

lemma clock_env_monotone: "0 \<le> interval \<Longrightarrow> monotone_clock (clock_env interval xs) (\<lambda>s. s)"
  by (simp add: monotone_clock_def clock_env_def)

theorem publications_are_spaced_witness:
  "spaced 1000000000 (publications (clock_env 5000000000 []) [Tick, Tick, Tick]
     (new_watcher 5000000000 1000000000) 0)"
  using publications_are_spaced [OF clock_env_monotone, of 5000000000 "new_watcher 5000000000 1000000000"
      "[]" "[Tick, Tick, Tick]" 0]
  by (simp add: new_watcher_def del: publications.simps)

section \<open>Convergence\<close>








section \<open>Errors\<close>




end
