(* ===== verification/App_Properties.thy ===== *)
theory App_Properties
  imports App Registry_Discovery Xds_Properties Config_Properties Discovery_Properties
begin

text \<open>
  The properties of the composed agent: \<open>New\<close> on a valid configuration, the discovery loop between
  the registry client and the xDS server, what a refresh publishes, and the order of \<open>Start\<close> and
  \<open>Shutdown\<close>.
\<close>

section \<open>The discovery loop\<close>

text \<open>What an observer of the data plane sees of its lifecycle state.\<close>

definition lifecycle_view :: "'w plane \<Rightarrow> (string \<times> local_service) list \<times> settings \<times> string \<times> bool" where
  "lifecycle_view s =
     (cl_local_services (pl_client s), cl_settings (pl_client s), sv_node_id (pl_server s), sv_started (pl_server s))"

lemma discover_instances_keeps:
  assumes "discover_instances a s = (r, s')"
  shows "(client_inv (pl_client s) \<longrightarrow> client_inv (pl_client s')) \<and> lifecycle_view s' = lifecycle_view s"
proof -
  obtain r c where c: "discover (ap_consul a) (pl_client s) = (r, c)"
    by fastforce
  have "quiet (pl_client s) c" "evolves (pl_client s) c"
    using discover_quiet [of "pl_client s" "ap_consul a"] discover_evolves [of "pl_client s" "ap_consul a"]
    by (simp_all add: c)
  with c assms show ?thesis
    by (auto simp: discover_instances_def lifecycle_view_def evolves_def quiet_def)
qed

lemma publish_instances_keeps:
  assumes "publish_instances a xs s = (r, s')"
  shows "pl_client s' = pl_client s \<and> lifecycle_view s' = lifecycle_view s"
  using assms publish_frame
  by (fastforce simp: publish_instances_def lifecycle_view_def Let_def split: prod.splits sum.splits)

interpretation registry_source: instance_source "we_discover (watch_env_of a)"
  "\<lambda>s. client_inv (pl_client s)" lifecycle_view for a
  by unfold_locales (use discover_instances_keeps in \<open>auto simp: watch_env_of_def\<close>)

interpretation xds_sink: instance_sink "we_on_update (watch_env_of a)"
  "\<lambda>s. client_inv (pl_client s)" lifecycle_view for a
  by unfold_locales (use publish_instances_keeps in \<open>fastforce simp: watch_env_of_def\<close>)+

interpretation discovery_loop: watched "watch_env_of a" "\<lambda>s. client_inv (pl_client s)" lifecycle_view for a
  by unfold_locales (auto simp: watch_env_of_def lifecycle_view_def split: prod.splits)

text \<open>
  The discovery loop does not touch the lifecycle: whatever Consul, Envoy's cache and the clock
  answer and however often it runs, the local services, the settings, the node and the server's
  running state are as before, and the client's invariant holds.
\<close>

theorem discovery_loop_keeps_lifecycle:
  assumes "client_inv (pl_client s)" "run (watch_env_of a) signals wt s = (st, wt', s')"
  shows "client_inv (pl_client s') \<and> cl_local_services (pl_client s') = cl_local_services (pl_client s) \<and>
    cl_settings (pl_client s') = cl_settings (pl_client s) \<and>
    sv_node_id (pl_server s') = sv_node_id (pl_server s) \<and> sv_started (pl_server s') = sv_started (pl_server s)"
  using discovery_loop.run_keeps [OF assms] by (simp add: lifecycle_view_def)

section \<open>What a refresh publishes\<close>



text \<open>
  The snapshot cache as its documentation describes it: a stored snapshot is what the node gets; the
  clock, the counters and the gauge do not touch it. \<open>cached\<close> reads it from the world.
\<close>

definition cache_keeps :: "'w app_env \<Rightarrow> ('w \<Rightarrow> string \<Rightarrow> snapshot option) \<Rightarrow> bool" where
  "cache_keeps a cached \<longleftrightarrow>
     (\<forall>n s w w'. io_set_snapshot (ap_io a) n s w = (None, w') \<longrightarrow> cached w' = (cached w)(n \<mapsto> s)) \<and>
     (\<forall>w. cached (snd (io_now (ap_io a) w)) = cached w) \<and>
     (\<forall>k w. cached (io_count (ap_io a) k w) = cached w)"

lemma publish_cached:
  assumes "cache_keeps a cached" "publish (ap_xds a) (ap_io a) s xs w = (Inr sm, s', w')"
  obtains t snap b' where "build (ap_xds a) t (sv_builder s) xs = (Inr (snap, sm), b')" "sv_builder s' = b'"
    "cached w' (sv_node_id s) = Some snap"
proof -
  obtain t w1 snap b' w2 where "build (ap_xds a) t (sv_builder s) xs = (Inr (snap, sm), b')"
    "io_set_snapshot (ap_io a) (sv_node_id s) snap w1 = (None, w2)" "s' = s\<lparr>sv_builder := b'\<rparr>"
    "w' = io_count (ap_io a) XdsPublishTotal w2"
    using publish_Inr [OF assms(2)] by metis
  with assms(1) show thesis
    by (intro that [of t snap b']) (simp_all add: cache_keeps_def)
qed


text \<open>A world for the witnesses: the contents of the snapshot cache.\<close>

type_synonym cache_world = "string \<Rightarrow> snapshot option"

definition demo_app :: "env \<Rightarrow> cache_world app_env" where
  "demo_app w =
     \<lparr>ap_consul = w, ap_xds = accepting_xds,
      ap_io = \<lparr>io_listen = (\<lambda>address c. (None, c)), io_serve = (\<lambda>c. c), io_graceful_stop = Some,
        io_close_listener = (\<lambda>c. c), io_set_snapshot = (\<lambda>n s c. (None, c(n \<mapsto> s))), io_now = (\<lambda>c. (7, c)),
        io_count = (\<lambda>k c. c)\<rparr>,
      ap_files = \<lparr>fi_mkdir_all = (\<lambda>p c. (None, c)), fi_marshal = (\<lambda>y. Inr []), fi_write_file = (\<lambda>p d c. (None, c))\<rparr>,
      ap_gauge = (\<lambda>n c. c), ap_wait = (\<lambda>c. c), ap_encode = (\<lambda>xs. Inr ''x''), ap_digest = (\<lambda>p. [0]),
      ap_telemetry_new = (\<lambda>t c. (None, c)), ap_telemetry_shutdown = (\<lambda>c. (None, c)), ap_consul_new = (\<lambda>st. None),
      ap_envoy_start = (\<lambda>m c. (None, c)), ap_envoy_stop = (\<lambda>d c. (None, c)), ap_admin_shutdown = (\<lambda>c. (None, c)),
      ap_dns_shutdown = (\<lambda>c. (None, c)), ap_started = (\<lambda>c. c)\<rparr>"

definition demo_server :: server where
  "demo_server = \<lparr>sv_node_id = ''node'', sv_builder = new_builder demo_builder_settings, sv_started = False\<rparr>"

definition demo_runner :: "client \<Rightarrow> cache_world runner" where
  "demo_runner c =
     \<lparr>rn_config = default_config, rn_watcher = new_watcher 5 1,
      rn_plane = \<lparr>pl_client = c, pl_server = demo_server, pl_world = (\<lambda>n. None)\<rparr>, rn_envoy = manager_settings_of default_config\<rparr>"

lemma demo_app_simps [simp]:
  "ap_consul (demo_app w) = w" "ap_xds (demo_app w) = accepting_xds" "ap_encode (demo_app w) xs = Inr ''x''"
  "ap_digest (demo_app w) p = [0]" "ap_gauge (demo_app w) n c = c" "io_now (ap_io (demo_app w)) c = (7, c)"
  "io_count (ap_io (demo_app w)) k c = c" "io_set_snapshot (ap_io (demo_app w)) node sn c = (None, c(node \<mapsto> sn))"
  "io_listen (ap_io (demo_app w)) address c = (None, c)"
  "io_serve (ap_io (demo_app w)) c = c" "io_graceful_stop (ap_io (demo_app w)) c = Some c"
  "ap_envoy_start (demo_app w) m c = (None, c)" "ap_started (demo_app w) c = c"
  "ap_admin_shutdown (demo_app w) c = (None, c)" "ap_dns_shutdown (demo_app w) c = (None, c)"
  by (simp_all add: demo_app_def)

lemma demo_cache: "cache_keeps (demo_app w) (\<lambda>c. c)"
  by (simp add: cache_keeps_def demo_app_def)

lemma demo_publish:
  assumes "sv_builder s = new_builder demo_builder_settings"
  obtains sm s' w' where "publish accepting_xds (ap_io (demo_app w)) s xs c = (Inr sm, s', w')"
proof -
  obtain snap sm b' where "build accepting_xds 7 (new_builder demo_builder_settings) xs = (Inr (snap, sm), b')"
    by (rule demo_build)
  with that show thesis
    by (simp add: publish_def assms)
qed

lemma demo_server_builder:
  "sv_builder demo_server = new_builder demo_builder_settings"
  "sv_builder (demo_server\<lparr>sv_started := b\<rparr>) = new_builder demo_builder_settings"
  by (simp_all add: demo_server_def)



theorem discovery_loop_keeps_lifecycle_witness:
  "\<exists>st wt' s'. run (watch_env_of (demo_app demo_env)) [Tick, Tick, Cancelled] (new_watcher 5 1)
     (rn_plane (demo_runner served_client)) = (st, wt', s') \<and>
     cl_local_services (pl_client s') = cl_local_services served_client"
proof -
  obtain st wt' s' where run: "run (watch_env_of (demo_app demo_env)) [Tick, Tick, Cancelled] (new_watcher 5 1)
     (rn_plane (demo_runner served_client)) = (st, wt', s')"
    using prod_cases3 by blast
  have "client_inv (pl_client (rn_plane (demo_runner served_client)))"
    using served by (simp add: demo_runner_def)
  from discovery_loop_keeps_lifecycle [OF this run] run show ?thesis
    by (simp add: demo_runner_def)
qed

section \<open>New\<close>

lemma valid_durations:
  assumes "valid_config c"
  obtains a b d e f g h i j k where "must_duration (dcc_refresh_interval (cf_discovery c)) = Some a"
    "must_duration (dcc_debounce_interval (cf_discovery c)) = Some b"
    "must_duration (ccc_request_timeout (cf_consul c)) = Some d"
    "must_duration (ccc_agent_lease_ttl (cf_consul c)) = Some e"
    "must_duration (ccc_agent_lease_refresh_interval (cf_consul c)) = Some f"
    "must_duration (ccc_deregister_critical_after (cf_consul c)) = Some g"
    "must_duration (xc_default_timeout (cf_xds c)) = Some h"
    "must_duration (xc_per_try_timeout (cf_xds c)) = Some i"
    "must_duration (xc_base_ejection_time (cf_xds c)) = Some j"
    "must_duration (ec_restart_backoff (cf_envoy c)) = Some k"
  using assms that by (auto simp: valid_config_def duration_fields_def duration_ok_def)

lemma new_runner_result:
  assumes "valid_config c"
  shows "\<exists>res w'. new_runner a c w = Some (res, w') \<and> (\<forall>r. res = Inr r \<longrightarrow>
    rn_config r = c \<and> client_inv (pl_client (rn_plane r)) \<and> cl_local_services (pl_client (rn_plane r)) = [] \<and>
    \<not> sv_started (pl_server (rn_plane r)) \<and> sv_node_id (pl_server (rn_plane r)) = xc_node_id (cf_xds c) \<and>
    wt_last_publish_at (rn_watcher r) = None \<and> rn_has_envoy r = ec_enabled (cf_envoy c) \<and>
    st_agent_lease_refresh_interval (cl_settings (pl_client (rn_plane r))) <
      st_agent_lease_ttl (cl_settings (pl_client (rn_plane r))))"
proof -
  obtain d1 d2 d3 d4 d5 d6 d7 d8 d9 d10 where durations:
    "must_duration (dcc_refresh_interval (cf_discovery c)) = Some d1"
    "must_duration (dcc_debounce_interval (cf_discovery c)) = Some d2"
    "must_duration (ccc_request_timeout (cf_consul c)) = Some d3"
    "must_duration (ccc_agent_lease_ttl (cf_consul c)) = Some d4"
    "must_duration (ccc_agent_lease_refresh_interval (cf_consul c)) = Some d5"
    "must_duration (ccc_deregister_critical_after (cf_consul c)) = Some d6"
    "must_duration (xc_default_timeout (cf_xds c)) = Some d7"
    "must_duration (xc_per_try_timeout (cf_xds c)) = Some d8"
    "must_duration (xc_base_ejection_time (cf_xds c)) = Some d9"
    "must_duration (ec_restart_backoff (cf_envoy c)) = Some d10"
    by (rule valid_durations [OF assms])
  have lease: "d5 < d4"
    using assms durations by (simp add: valid_config_def)
  have client: "cl_settings (new_with_client (ap_consul a) st True) = st"
    "cl_local_services (new_with_client (ap_consul a) st True) = []"
    "ensure_usable (new_with_client (ap_consul a) st True) = None" for st
    by (simp_all add: new_with_client_def new_instance_id_def now_def ensure_usable_def Let_def
        split: option.split prod.split sum.split)
  show ?thesis
    using lease
    by (auto simp: new_runner_def new_registry_def manager_settings_of_def registry_settings_def xds_settings_def durations client new_with_client_inv
        new_server_def new_builder_def new_watcher_def Let_def split: prod.split option.split)
qed

text \<open>
  \<open>New\<close> does not panic on a configuration that passed validation, although it parses ten
  durations with \<open>MustDuration\<close>; and what it makes is initial: no services, a server not started, an
  unpublished watcher, the snapshots' node being the configured one, and a lease refreshed more often
  than it expires.
\<close>

theorem new_runner_total:
  assumes "valid_config c"
  shows "\<exists>res w'. new_runner a c w = Some (res, w') \<and> (\<forall>r. res = Inr r \<longrightarrow>
    rn_config r = c \<and> client_inv (pl_client (rn_plane r)) \<and> cl_local_services (pl_client (rn_plane r)) = [] \<and>
    \<not> sv_started (pl_server (rn_plane r)) \<and> sv_node_id (pl_server (rn_plane r)) = xc_node_id (cf_xds c) \<and>
    wt_last_publish_at (rn_watcher r) = None \<and> rn_has_envoy r = ec_enabled (cf_envoy c) \<and>
    st_agent_lease_refresh_interval (cl_settings (pl_client (rn_plane r))) <
      st_agent_lease_ttl (cl_settings (pl_client (rn_plane r))))"
  by (rule new_runner_result [OF assms])

lemma demo_new:
  assumes "valid_config c"
  shows "\<exists>r w'. new_runner (demo_app demo_env) c (\<lambda>n. None) = Some (Inr r, w')"
proof -
  obtain res w' where new: "new_runner (demo_app demo_env) c (\<lambda>n. None) = Some (res, w')"
    using new_runner_result [OF assms, of "demo_app demo_env" "\<lambda>n. None"] by blast
  have "ap_telemetry_new (demo_app demo_env) t c = (None, c)" "ap_consul_new (demo_app demo_env) st = None"
    "write_bootstrap (ap_files (demo_app demo_env)) p b c = (None, c)" for t c st p b
    by (simp_all add: demo_app_def write_bootstrap_def)
  then have "is_ok res"
    using new by (auto simp: new_runner_def new_registry_def manager_settings_of_def new_server_def new_with_client_def new_instance_id_def now_def
        ensure_usable_def Let_def split: if_splits sum.splits prod.splits option.splits bind_splits)
  with new show ?thesis
    by (auto simp: is_ok_iff)
qed

theorem new_runner_total_witness:
  "\<exists>r w'. new_runner (demo_app demo_env) default_config (\<lambda>n. None) = Some (Inr r, w') \<and>
     \<not> sv_started (pl_server (rn_plane r))"
  using new_runner_total [OF default_valid, of "demo_app demo_env" "\<lambda>n. None"] demo_new [OF default_valid] by auto

lemma demo_manager:
  obtains m where "manager_settings_of default_config = Some m"
  using default_valid
  by (auto simp: manager_settings_of_def valid_config_def duration_fields_def duration_ok_def)

section \<open>Start and Shutdown\<close>

lemma before_None: "before m k = (None, r') \<longleftrightarrow> (\<exists>r. m = (None, r) \<and> k r = (None, r'))"
  by (auto simp: before_def split: prod.splits option.splits)

text \<open>
  C34. Envoy never starts before the control plane is ready: when \<open>Start\<close> returns no error, the lease
  loop and the xDS server run, and Envoy was started in a world where the cache already held, for
  the node of the server, a first snapshot, with a listener and no services.
\<close>

theorem envoy_starts_on_first_snapshot:
  assumes "xds_runtime (ap_xds a)" "cache_keeps a cached" "runner_start a r = (None, r')" "rn_envoy r = Some m"
  shows "cl_lease_running (pl_client (rn_plane r')) \<and> sv_started (pl_server (rn_plane r')) \<and>
    (\<exists>w w' snap. cached w (sv_node_id (pl_server (rn_plane r))) = Some snap \<and>
       length (sn_listeners snap) = 1 \<and> sn_clusters snap = [] \<and> sn_endpoints snap = [] \<and>
       ap_envoy_start a (envoy_command m) w = (None, w') \<and> pl_world (rn_plane r') = ap_started a w')"
proof -
  obtain r1 r2 r3 r4 where r1: "start_registry a r = (None, r1)" and r2: "start_xds a r1 = (None, r2)"
    and r3: "publish_first a r2 = (None, r3)" and r4: "start_envoy a r3 = (None, r4)"
    and r5: "on_world (\<lambda>w. (None, ap_started a w)) r4 = (None, r')"
    using assms(3) by (auto simp: runner_start_def before_None)
  have registry: "cl_lease_running (pl_client (rn_plane r1))" "rn_envoy r1 = Some m" "pl_server (rn_plane r1) = pl_server (rn_plane r)"
    using r1 assms(4) by (auto simp: start_registry_def start_def and_then_Inr split: prod.splits sum.splits option.splits)
  have xds: "pl_client (rn_plane r2) = pl_client (rn_plane r1)" "rn_envoy r2 = Some m"
    "sv_started (pl_server (rn_plane r2))" "sv_node_id (pl_server (rn_plane r2)) = sv_node_id (pl_server (rn_plane r1))"
    using r2 registry by (auto simp: start_xds_def server_start_def Let_def split: prod.splits option.splits if_splits)
  obtain sm where publish: "publish (ap_xds a) (ap_io a) (pl_server (rn_plane r2)) [] (pl_world (rn_plane r2)) =
      (Inr sm, pl_server (rn_plane r3), pl_world (rn_plane r3))"
    and r3': "pl_client (rn_plane r3) = pl_client (rn_plane r2)" "rn_envoy r3 = Some m"
    using r3 xds by (auto simp: publish_first_def Let_def split: prod.splits sum.splits)
  obtain t snap b' where snap: "build (ap_xds a) t (sv_builder (pl_server (rn_plane r2))) [] = (Inr (snap, sm), b')"
    "cached (pl_world (rn_plane r3)) (sv_node_id (pl_server (rn_plane r2))) = Some snap"
    by (rule publish_cached [OF assms(2) publish])
  have "group_instances (xe_range_groups (ap_xds a)) [] = []"
    using assms(1) by (simp add: xds_runtime_def group_instances_reference reference_groups_def)
  then have "sn_clusters snap = []" "sn_endpoints snap = []" "length (sn_listeners snap) = 1"
    using snap(1) by (auto simp: build_def resources_def Let_def split: sum.splits option.splits)
  moreover obtain w' where "ap_envoy_start a (envoy_command m) (pl_world (rn_plane r3)) = (None, w')" "pl_world (rn_plane r4) = w'"
    "pl_client (rn_plane r4) = pl_client (rn_plane r3)" "pl_server (rn_plane r4) = pl_server (rn_plane r3)"
    using r4 r3' by (auto simp: start_envoy_def on_world_def split: prod.splits)
  moreover have "pl_world (rn_plane r') = ap_started a (pl_world (rn_plane r4))"
    "pl_client (rn_plane r') = pl_client (rn_plane r4)" "pl_server (rn_plane r') = pl_server (rn_plane r4)"
    using r5 by (auto simp: on_world_def)
  ultimately show ?thesis
    using snap(2) registry xds r3' publish_frame [OF publish] by auto
qed

theorem envoy_starts_on_first_snapshot_witness:
  "\<exists>r'. runner_start (demo_app demo_env) (demo_runner demo_client) = (None, r') \<and>
     cl_lease_running (pl_client (rn_plane r')) \<and> sv_started (pl_server (rn_plane r'))"
proof -
  have env: "xds_runtime (ap_xds (demo_app demo_env))"
    by (simp add: accepting_runtime)
  obtain sm s' w' where p: "publish accepting_xds (ap_io (demo_app demo_env)) (demo_server\<lparr>sv_started := True\<rparr>) [] (\<lambda>n. None) = (Inr sm, s', w')"
    by (rule demo_publish [OF demo_server_builder(2)])
  obtain c where c: "start demo_env demo_client = (Inr (), c)"
    by (auto simp: start_def ensure_usable_def demo_client_def cleanup_previous_runs_def call_def Let_def
        demo_env_def fake_env_def)
  obtain m where m: "manager_settings_of default_config = Some m"
    by (rule demo_manager)
  have "\<exists>r'. runner_start (demo_app demo_env) (demo_runner demo_client) = (None, r')"
    using p c m by (simp add: runner_start_def before_def start_registry_def start_xds_def server_start_def
        publish_first_def start_envoy_def on_world_def demo_runner_def demo_server_def Let_def)
  then obtain r' where r': "runner_start (demo_app demo_env) (demo_runner demo_client) = (None, r')" ..
  from m have "rn_envoy (demo_runner demo_client) = Some m"
    by (simp add: demo_runner_def)
  from envoy_starts_on_first_snapshot [OF env demo_cache r' this] r' show ?thesis by blast
qed

lemma runner_shutdown_clean:
  assumes "go_runtime (ap_consul a)" "client_inv (pl_client (rn_plane r))" "runner_shutdown a r = (Finished None, r')"
  shows "ran (state_at (pl_client (rn_plane r'))) \<subseteq> {StateDeregistered} \<and> \<not> sv_started (pl_server (rn_plane r'))"
proof -
  obtain w1 u c w2 sv w3 where steps: "ap_admin_shutdown a (pl_world (rn_plane r)) = (None, w1)"
    "shutdown (ap_consul a) (pl_client (rn_plane r)) = (Inr u, c)"
    "server_stop (ap_io a) (pl_server (rn_plane r)) w2 = Some (sv, w3)"
    "pl_client (rn_plane r') = c" "pl_server (rn_plane r') = sv"
    using assms(3)
    by (auto simp: runner_shutdown_def shutdown_registry_def shutdown_rest_def on_world_def before_def Let_def
        split: prod.splits sum.splits option.splits if_splits)
  have "ran (state_at (pl_client (rn_plane r'))) \<subseteq> {StateDeregistered}"
    using shutdown_result [OF assms(1,2) steps(2)] steps(4) by auto
  moreover have "\<not> sv_started (pl_server (rn_plane r'))"
    unfolding steps(5) using steps(3) by (auto simp: server_stop_def split: if_splits option.splits)
  ultimately show ?thesis ..
qed

text \<open>
  C35. What \<open>Shutdown\<close> leaves behind. Without an error every service is deregistered and the xDS server
  has stopped. If deregistering fails, \<open>Shutdown\<close> ends there with that error: neither the DNS server
  nor the xDS server nor Envoy nor telemetry is stopped. And if a stream of Envoy keeps
  \<open>GracefulStop\<close> from returning, \<open>Shutdown\<close> does not return either, whatever its deadline.
\<close>

theorem runner_shutdown_outcome:
  assumes "go_runtime (ap_consul a)" "client_inv (pl_client (rn_plane r))" "runner_shutdown a r = (st, r')"
  shows "(st = Finished None \<longrightarrow>
      ran (state_at (pl_client (rn_plane r'))) \<subseteq> {StateDeregistered} \<and> \<not> sv_started (pl_server (rn_plane r'))) \<and>
    (\<forall>w1 err c. ap_admin_shutdown a (pl_world (rn_plane r)) = (None, w1) \<and>
      shutdown (ap_consul a) (pl_client (rn_plane r)) = (Inl err, c) \<longrightarrow>
      st = Finished (Some err) \<and> pl_server (rn_plane r') = pl_server (rn_plane r) \<and> pl_world (rn_plane r') = w1) \<and>
    (\<forall>w1 c w2. ap_admin_shutdown a (pl_world (rn_plane r)) = (None, w1) \<and>
      shutdown (ap_consul a) (pl_client (rn_plane r)) = (Inr (), c) \<and> ap_dns_shutdown a w1 = (None, w2) \<and>
      sv_started (pl_server (rn_plane r)) \<and> io_graceful_stop (ap_io a) w2 = None \<longrightarrow> st = Hangs)"
proof (intro conjI allI impI)
  assume "st = Finished None"
  then have "runner_shutdown a r = (Finished None, r')" using assms(3) by simp
  from runner_shutdown_clean [OF assms(1,2) this]
  show "ran (state_at (pl_client (rn_plane r'))) \<subseteq> {StateDeregistered}" "\<not> sv_started (pl_server (rn_plane r'))"
    by simp_all
next
  fix w1 err c
  assume "ap_admin_shutdown a (pl_world (rn_plane r)) = (None, w1) \<and>
      shutdown (ap_consul a) (pl_client (rn_plane r)) = (Inl err, c)"
  with assms(3) show "st = Finished (Some err)" "pl_server (rn_plane r') = pl_server (rn_plane r)"
    "pl_world (rn_plane r') = w1"
    by (auto simp: runner_shutdown_def before_def on_world_def shutdown_registry_def)
next
  fix w1 c w2
  assume "ap_admin_shutdown a (pl_world (rn_plane r)) = (None, w1) \<and>
      shutdown (ap_consul a) (pl_client (rn_plane r)) = (Inr (), c) \<and> ap_dns_shutdown a w1 = (None, w2) \<and>
      sv_started (pl_server (rn_plane r)) \<and> io_graceful_stop (ap_io a) w2 = None"
  with assms(3) show "st = Hangs"
    by (auto simp: runner_shutdown_def before_def on_world_def shutdown_registry_def shutdown_rest_def
        server_stop_def)
qed

theorem runner_shutdown_outcome_witness:
  "\<exists>r'. runner_shutdown ((demo_app demo_env)\<lparr>ap_io := (ap_io (demo_app demo_env))\<lparr>io_graceful_stop := (\<lambda>c. None)\<rparr>\<rparr>)
     ((demo_runner served_client)\<lparr>rn_plane := (rn_plane (demo_runner served_client))\<lparr>pl_server := demo_server\<lparr>sv_started := True\<rparr>\<rparr>\<rparr>)
     = (Hangs, r')"
proof -
  let ?a = "(demo_app demo_env)\<lparr>ap_io := (ap_io (demo_app demo_env))\<lparr>io_graceful_stop := (\<lambda>c. None)\<rparr>\<rparr>"
  let ?r = "(demo_runner served_client)\<lparr>rn_plane := (rn_plane (demo_runner served_client))\<lparr>pl_server := demo_server\<lparr>sv_started := True\<rparr>\<rparr>\<rparr>"
  obtain st r' where r': "runner_shutdown ?a ?r = (st, r')"
    by fastforce
  obtain c where c: "shutdown demo_env served_client = (Inr (), c)"
    by (rule demo_shutdown_ok)
  have client: "go_runtime (ap_consul ?a)" "client_inv (pl_client (rn_plane ?r))"
    using served by (simp_all add: demo_env_runtime demo_runner_def)
  have "st = Hangs"
    using conjunct2 [OF conjunct2 [OF runner_shutdown_outcome [OF client r']]] c
    by (simp add: demo_runner_def demo_server_def)
  with r' show ?thesis by blast
qed

section \<open>The node\<close>

lemma bootstrap_written:
  assumes "write_bootstrap f path c u = (None, u')"
  shows "\<exists>payload w. fi_marshal f (bootstrap_document c) = Inr payload \<and> fi_write_file f path payload w = (None, u')"
  using assms by (auto simp: write_bootstrap_def split: prod.splits option.splits sum.splits)

text \<open>
  C36. The bootstrap file points Envoy at the xDS server of the same configuration, and it is the file
  that the command line of Envoy names: \<open>New\<close> has written it. But it has the trimmed node id, while the
  snapshots are stored under the id as configured: Envoy asks for the node the snapshots are for
  exactly when the configured id has no blanks around it.
\<close>

theorem bootstrap_matches_server:
  assumes "new_runner a c w = Some (Inr r, w')"
  shows "yaml_at [''node'', ''id''] (bootstrap_document (envoy_bootstrap c)) = Some (YStr (trim_space (xc_node_id (cf_xds c)))) \<and>
    yaml_at [''static_resources'', ''clusters'', ''load_assignment'', ''endpoints'', ''lb_endpoints'', ''endpoint'', ''address'']
      (bootstrap_document (envoy_bootstrap c)) = Some (socket_address (xc_listen_address (cf_xds (rn_config r)))) \<and>
    (yaml_at [''node'', ''id''] (bootstrap_document (envoy_bootstrap c)) = Some (YStr (sv_node_id (pl_server (rn_plane r)))) \<longleftrightarrow>
       trim_space (xc_node_id (cf_xds c)) = xc_node_id (cf_xds c)) \<and>
    (case rn_envoy r of
       None \<Rightarrow> \<not> ec_enabled (cf_envoy c)
     | Some m \<Rightarrow> \<exists>path payload w1 w2. take 2 (snd (envoy_command m)) = [''-c'', path] \<and>
         fi_marshal (ap_files a) (bootstrap_document (envoy_bootstrap c)) = Inr payload \<and>
         fi_write_file (ap_files a) path payload w1 = (None, w2))"
proof -
  have "rn_config r = c" "sv_node_id (pl_server (rn_plane r)) = xc_node_id (cf_xds c)"
    using assms by (auto simp: new_runner_def new_registry_def manager_settings_of_def xds_settings_def new_server_def
        new_builder_def Let_def split: prod.splits option.splits sum.splits if_splits bind_splits)
  moreover have written: "case rn_envoy r of None \<Rightarrow> \<not> ec_enabled (cf_envoy c)
     | Some m \<Rightarrow> ms_bootstrap_path m = ec_bootstrap_path (cf_envoy c) \<and>
         (\<exists>u u'. write_bootstrap (ap_files a) (ec_bootstrap_path (cf_envoy c)) (envoy_bootstrap c) u = (None, u'))"
    using assms by (auto simp: new_runner_def new_registry_def manager_settings_of_def new_server_def Let_def
        split: prod.splits option.splits sum.splits if_splits bind_splits)
  moreover from written have "case rn_envoy r of None \<Rightarrow> \<not> ec_enabled (cf_envoy c)
     | Some m \<Rightarrow> \<exists>path payload w1 w2. take 2 (snd (envoy_command m)) = [''-c'', path] \<and>
         fi_marshal (ap_files a) (bootstrap_document (envoy_bootstrap c)) = Inr payload \<and>
         fi_write_file (ap_files a) path payload w1 = (None, w2)"
    using bootstrap_written by (cases "rn_envoy r") (force simp: envoy_command_def)+
  ultimately show ?thesis
    by (simp add: bootstrap_document_def envoy_bootstrap_def)
qed

definition padded_config :: config where
  "padded_config = default_config\<lparr>cf_xds := (cf_xds default_config)\<lparr>xc_node_id := '' node''\<rparr>\<rparr>"

lemma trim_padded: "trim_space '' node'' = ''node''"
  by code_simp

lemma padded_valid: "valid_config padded_config"
  using default_valid trim_padded
  by (simp add: valid_config_def padded_config_def address_fields_def required_fields_def duration_fields_def Let_def)

theorem bootstrap_matches_server_witness:
  "\<exists>r w'. new_runner (demo_app demo_env) padded_config (\<lambda>n. None) = Some (Inr r, w') \<and>
     yaml_at [''node'', ''id''] (bootstrap_document (envoy_bootstrap padded_config)) = Some (YStr ''node'') \<and>
     yaml_at [''node'', ''id''] (bootstrap_document (envoy_bootstrap padded_config)) \<noteq>
       Some (YStr (sv_node_id (pl_server (rn_plane r))))"
proof -
  obtain r w' where r: "new_runner (demo_app demo_env) padded_config (\<lambda>n. None) = Some (Inr r, w')"
    using demo_new [OF padded_valid] by blast
  have "xc_node_id (cf_xds padded_config) = '' node''"
    by (simp add: padded_config_def)
  with bootstrap_matches_server [OF r] r trim_padded show ?thesis
    by auto
qed

end
