(* ===== verification/Admin_Properties.thy ===== *)
theory Admin_Properties
  imports Admin App_Properties
begin

text \<open>
  The properties of the management API in front of the agent: what its status codes say about the
  registry, and what \<open>/watch\<close> sends.
\<close>

definition runner_inv :: "'w runner \<Rightarrow> bool" where
  "runner_inv r \<longleftrightarrow> client_inv (pl_client (rn_plane r))"

definition stored_service :: "'w runner \<Rightarrow> string \<Rightarrow> int \<Rightarrow> local_service option" where
  "stored_service r = find_local_service (pl_client (rn_plane r))"

lemma runner_refresh_keeps:
  assumes "runner_inv r" "runner_refresh a r = (e, r')"
  shows "runner_inv r' \<and> stored_service r' = stored_service r"
proof -
  obtain wt s where "refresh_once (watch_env_of a) (rn_watcher r) (rn_plane r) = (e, wt, s)"
    "r' = r\<lparr>rn_watcher := wt, rn_plane := s\<rparr>"
    using assms(2) by (auto simp: runner_refresh_def refresh_now_def split: prod.splits)
  with discovery_loop.refresh_keeps [of "rn_plane r" a "rn_watcher r" e wt s] assms(1) show ?thesis
    by (auto simp: runner_inv_def stored_service_def lifecycle_view_def find_local_service_def fun_eq_iff)
qed

lemma on_client_inv:
  assumes "\<And>c. client_inv c \<Longrightarrow> client_inv (snd (f c))" "runner_inv r" "on_client f r = (res, r')"
  shows "runner_inv r'"
  using assms by (auto simp: on_client_def runner_inv_def split: prod.splits) (metis snd_conv)

lemma register_stores:
  assumes "go_runtime w" "client_inv c" "register w c q = (Inr s, c')"
  shows "find_local_service c' (rr_name q) (rr_port q) = Some s"
proof -
  have fresh: "register_fresh w d q = (Inr s, c') \<Longrightarrow> ?thesis" for d
    by (rule register_fresh_stored(5))
  have replay: ?thesis
    if "find_local_service c (rr_name q) (rr_port q) = Some e" "same_register_request (ls_request e) q"
      "register_replay w c e = (Inr s, c')" for e
    using that by (auto simp: register_replay_Inr Let_def local_service_store same_register_request_def)
  show ?thesis
    using assms(3) fresh replay
    by (auto simp: register_def and_then_Inr split: option.splits if_splits)
qed

lemma on_client_Inl_services:
  assumes "\<And>c e c'. f c = (Inl e, c') \<Longrightarrow> quiet c c'" "on_client f r = (Inl err, r')"
  shows "cl_local_services (pl_client (rn_plane r')) = cl_local_services (pl_client (rn_plane r))"
  using assms by (auto simp: on_client_def quiet_frame split: prod.splits)

abbreviation (input) agent_inv :: "'w app_env \<Rightarrow> 'w runner \<Rightarrow> bool" where
  "agent_inv a r \<equiv> runner_inv r \<and> go_runtime (ap_consul a)"

interpretation register_endpoint: lifecycle_endpoint "ad_register (admin_deps_of a)" "runner_refresh a"
  "agent_inv a" stored_service rr_name rr_port "\<lambda>s. True" "\<lambda>r. ()" for a
proof unfold_locales
  fix s q r s'
  assume "agent_inv a s" "ad_register (admin_deps_of a) q s = (r, s')"
  then show "agent_inv a s'"
    using on_client_inv [of "\<lambda>c. register (ap_consul a) c q" s r s'] register_op.keeps_inv [of "ap_consul a"]
    by (simp add: admin_deps_of_def)
next
  fix s q service s'
  assume "agent_inv a s" "ad_register (admin_deps_of a) q s = (Inr service, s')"
  then show "stored_service s' (rr_name q) (rr_port q) = Some service \<and> True"
    using register_stores [of "ap_consul a" "pl_client (rn_plane s)" q service]
    by (auto simp: admin_deps_of_def on_client_def runner_inv_def stored_service_def split: prod.splits)
qed (use runner_refresh_keeps in blast)+

interpretation drain_endpoint: lifecycle_endpoint "ad_drain (admin_deps_of a)" "runner_refresh a" "agent_inv a"
  stored_service dr_name dr_port "\<lambda>s. ls_state s = StateDraining" "\<lambda>r. cl_local_services (pl_client (rn_plane r))" for a
proof unfold_locales
  fix s q r s'
  assume "agent_inv a s" "ad_drain (admin_deps_of a) q s = (r, s')"
  then show "agent_inv a s'"
    using on_client_inv [of "\<lambda>c. drain (ap_consul a) c q" s r s'] drain_op.keeps_inv [of "ap_consul a"]
    by (simp add: admin_deps_of_def)
next
  fix s q service s'
  assume "ad_drain (admin_deps_of a) q s = (Inr service, s')"
  then show "stored_service s' (dr_name q) (dr_port q) = Some service \<and> ls_state service = StateDraining"
    by (auto simp: admin_deps_of_def on_client_def stored_service_def drain_Inr Let_def local_service_update
        split: prod.splits)
next
  fix s q err s'
  assume "ad_drain (admin_deps_of a) q s = (Inl err, s')"
  then show "cl_local_services (pl_client (rn_plane s')) = cl_local_services (pl_client (rn_plane s))"
    using on_client_Inl_services [OF drain_Inl_frame] by (simp add: admin_deps_of_def)
qed (use runner_refresh_keeps in blast)

interpretation deregister_endpoint: lifecycle_endpoint "ad_deregister (admin_deps_of a)" "runner_refresh a" "agent_inv a"
  stored_service de_name de_port "\<lambda>s. ls_state s = StateDeregistered" "\<lambda>r. cl_local_services (pl_client (rn_plane r))" for a
proof unfold_locales
  fix s q r s'
  assume "agent_inv a s" "ad_deregister (admin_deps_of a) q s = (r, s')"
  then show "agent_inv a s'"
    using on_client_inv [of "\<lambda>c. deregister (ap_consul a) c q" s r s'] deregister_op.keeps_inv [of "ap_consul a"]
    by (simp add: admin_deps_of_def)
next
  fix s q service s'
  assume "ad_deregister (admin_deps_of a) q s = (Inr service, s')"
  then show "stored_service s' (de_name q) (de_port q) = Some service \<and> ls_state service = StateDeregistered"
    by (auto simp: admin_deps_of_def on_client_def stored_service_def deregister_Inr Let_def local_service_update
        split: prod.splits)
next
  fix s q err s'
  assume "ad_deregister (admin_deps_of a) q s = (Inl err, s')"
  then show "cl_local_services (pl_client (rn_plane s')) = cl_local_services (pl_client (rn_plane s))"
    using on_client_Inl_services [OF deregister_Inl_frame] by (simp add: admin_deps_of_def)
qed (use runner_refresh_keeps in blast)

lemma admin_refresh_of: "admin_refresh (admin_deps_of a) = runner_refresh a"
  by (simp add: admin_refresh_def admin_deps_of_def fun_eq_iff)

text \<open>
  C15. What a status of the API says. Every request keeps the client's invariant and is answered with
  200, 400 or 500. For a request that decodes, any status but 400 means that the lifecycle operation
  has taken effect, also 500, which only says that the refresh after it failed: the service is
  stored, draining after \<open>/drain\<close> and deregistered after \<open>/deregister\<close>, and with 200 it is the body of
  the response. After a 400 from \<open>/drain\<close> or \<open>/deregister\<close> the services are as before.
\<close>

theorem admin_status_means:
  assumes "go_runtime (ap_consul a)" "client_inv (pl_client (rn_plane r))"
    and "serve (admin_deps_of a) req r = (resp, r')"
  shows "client_inv (pl_client (rn_plane r')) \<and> rs_status resp \<in> {200, 400, 500} \<and>
    (\<forall>q. req = PostRegister (Inr q) \<and> rs_status resp \<noteq> 400 \<longrightarrow>
       (\<exists>s. find_local_service (pl_client (rn_plane r')) (rr_name q) (rr_port q) = Some s \<and>
          (rs_status resp = 200 \<longrightarrow> rs_body resp = BodyService s))) \<and>
    (\<forall>q. req = PostDrain (Inr q) \<longrightarrow>
       (if rs_status resp = 400 then cl_local_services (pl_client (rn_plane r')) = cl_local_services (pl_client (rn_plane r))
        else \<exists>s. find_local_service (pl_client (rn_plane r')) (dr_name q) (dr_port q) = Some s \<and>
          ls_state s = StateDraining \<and> (rs_status resp = 200 \<longrightarrow> rs_body resp = BodyService s))) \<and>
    (\<forall>q. req = PostDeregister (Inr q) \<longrightarrow>
       (if rs_status resp = 400 then cl_local_services (pl_client (rn_plane r')) = cl_local_services (pl_client (rn_plane r))
        else \<exists>s. find_local_service (pl_client (rn_plane r')) (de_name q) (de_port q) = Some s \<and>
          ls_state s = StateDeregistered \<and> (rs_status resp = 200 \<longrightarrow> rs_body resp = BodyService s)))"
proof -
  have inv: "agent_inv a r"
    using assms(1,2) by (simp add: runner_inv_def)
  show ?thesis
  proof (cases req)
    case (PostRegister payload)
    show ?thesis
    proof (cases payload)
      case (Inr q)
      have "respond (runner_refresh a) (ad_register (admin_deps_of a)) q r = (resp, r')"
        using assms(3) by (simp add: PostRegister Inr handle_respond admin_refresh_of)
      from register_endpoint.respond_outcome [OF inv this] show ?thesis
        by (auto simp: PostRegister Inr runner_inv_def stored_service_def)
    qed (use assms in \<open>auto simp: PostRegister handle_register_def\<close>)
  next
    case (PostDrain payload)
    show ?thesis
    proof (cases payload)
      case (Inr q)
      have "respond (runner_refresh a) (ad_drain (admin_deps_of a)) q r = (resp, r')"
        using assms(3) by (simp add: PostDrain Inr handle_respond admin_refresh_of)
      from drain_endpoint.respond_outcome [OF inv this] show ?thesis
        by (auto simp: PostDrain Inr runner_inv_def stored_service_def)
    qed (use assms in \<open>auto simp: PostDrain handle_drain_def\<close>)
  next
    case (PostDeregister payload)
    show ?thesis
    proof (cases payload)
      case (Inr q)
      have "respond (runner_refresh a) (ad_deregister (admin_deps_of a)) q r = (resp, r')"
        using assms(3) by (simp add: PostDeregister Inr handle_respond admin_refresh_of)
      from deregister_endpoint.respond_outcome [OF inv this] show ?thesis
        by (auto simp: PostDeregister Inr runner_inv_def stored_service_def)
    qed (use assms in \<open>auto simp: PostDeregister handle_deregister_def\<close>)
  qed (use assms in \<open>auto simp: handle_healthz_def handle_debug_services_def handle_debug_xds_def split: option.splits\<close>)
qed

text \<open>An agent whose refreshes fail after the discovery.\<close>

definition unrefreshed_app :: "cache_world app_env" where
  "unrefreshed_app = (demo_app demo_env)\<lparr>ap_encode := (\<lambda>xs. Inl (External ''unsupported value''))\<rparr>"

theorem admin_status_means_witness:
  "\<exists>resp r' s. serve (admin_deps_of unrefreshed_app) (PostDrain (Inr auth_drain)) (demo_runner served_client) = (resp, r') \<and>
     rs_status resp = 500 \<and> find_local_service (pl_client (rn_plane r')) ''auth'' 9090 = Some s \<and>
     ls_state s = StateDraining"
proof -
  obtain e where e: "find_local_service served_client ''auth'' 9090 = Some e" "client_inv served_client"
    by (rule served)
  obtain s c' where drain: "drain demo_env served_client auth_drain = (Inr s, c')"
    by (rule auth_drain_ok [OF e(1)])
  have consul: "ap_consul unrefreshed_app = demo_env"
    by (simp add: unrefreshed_app_def)
  obtain resp r' where resp: "serve (admin_deps_of unrefreshed_app) (PostDrain (Inr auth_drain)) (demo_runner served_client) = (resp, r')"
    by fastforce
  have "\<exists>xs c2. discover demo_env c = (Inr xs, c2)" for c
    by (simp add: discover_def call_def Let_def) (simp add: demo_env_def fake_env_def)
  then obtain xs c2 where "discover demo_env c' = (Inr xs, c2)"
    by blast
  then have "rs_status resp = 500"
    using resp drain by (auto simp: handle_drain_def admin_refresh_of runner_refresh_def refresh_now_def refresh_once_def
        hash_instances_def watch_env_of_def discover_instances_def consul demo_runner_def Let_def admin_deps_of_def
        on_client_def admin_refresh_def unrefreshed_app_def split: prod.splits)
  moreover have "go_runtime (ap_consul unrefreshed_app)" "client_inv (pl_client (rn_plane (demo_runner served_client)))"
    using e(2) by (simp_all add: consul demo_env_runtime demo_runner_def)
  ultimately show ?thesis
    using admin_status_means [OF _ _ resp] resp by fastforce
qed

section \<open>The event stream\<close>

text \<open>
  \<open>/watch\<close> announces the connection first, then sends one heartbeat per tick until the client goes.
\<close>

lemma watch_stream:
  "handle_watch True (replicate n Tick @ Cancelled # later) =
     [Write (''event: connected'' @ [CHR 0x0A]), Write (''data: ok'' @ [CHR 0x0A, CHR 0x0A]), Flush] @
     concat (replicate n [Write ('': heartbeat'' @ [CHR 0x0A, CHR 0x0A]), Flush])"
proof -
  have "watch_events (replicate n Tick @ Cancelled # later) =
      concat (replicate n [Write ('': heartbeat'' @ [CHR 0x0A, CHR 0x0A]), Flush])"
    by (induction n) simp_all
  then show ?thesis
    by (simp add: handle_watch_def)
qed

end
