(* ===== verification/Envoy_Manager.thy ===== *)
theory Envoy_Manager
  imports Go_Errors
begin

text \<open>
  The Envoy manager of \<open>src/envoy/manager.go\<close> as a state machine of its goroutines: the caller of
  \<open>Start\<close> and \<open>Stop\<close>, one goroutine per process that waits for its exit, and the watch loops. A step
  is what a goroutine does between two points where others may run: a section under the mutex \<open>m.mu\<close>
  is one step, possible only when the mutex is free, and a blocking channel operation is a step that
  becomes possible when it is ready. Only \<open>Stop\<close> keeps the mutex while it blocks. What the operating
  system does (starting, signalling and ending a process, timers, the deadline of \<open>Stop\<close>, cancellation
  of the parent context) may happen at any time and is a choice of the step.
\<close>

section \<open>State\<close>

text \<open>\<open>*exec.ExitError\<close> and a nil error of \<open>Wait\<close> are an exit; any other error is not.\<close>

datatype wait_result = CleanExit | ExitFailure | WaitFailure

definition is_exited :: "wait_result \<Rightarrow> bool" where
  "is_exited r \<longleftrightarrow> r \<noteq> WaitFailure"

text \<open>
  A process and the goroutine that waits for it: running; ended, its result not yet stored;
  stored in \<open>m.waitErr\<close>; and the channel \<open>waitDone\<close> of the process closed.
\<close>

datatype process = NotStarted | Running | Ended wait_result | Stored | Closed

text \<open>
  A watch loop: at the top; with context and process read; waiting on the channel read (\<open>None\<close> is a nil
  channel); after the exit; before the restart; over.
\<close>

datatype loop_state =
    LoopTop
  | LoopRead nat nat
  | LoopWaiting nat nat "nat option"
  | LoopExited nat nat
  | LoopCheck nat
  | LoopBackoff nat
  | LoopRestart nat
  | LoopOver

text \<open>The caller: not in \<open>Stop\<close>, or blocked in its \<open>select\<close> on a channel (\<open>None\<close>: nil), holding \<open>m.mu\<close>.\<close>

datatype caller = Outside | InStop "nat option"

text \<open>
  Processes, their channels and contexts are numbered; a context of the manager is done when it was
  cancelled or its parent was.
\<close>

record manager =
  mg_ctx :: "nat option"
  mg_cancel :: bool
  mg_cmd :: "nat option"
  mg_wait_done :: "nat option"
  mg_wait_err :: wait_result
  mg_caller :: caller
  mg_processes :: "nat \<Rightarrow> process"
  mg_next_process :: nat
  mg_cancelled :: "nat set"
  mg_parent_done :: bool
  mg_next_ctx :: nat
  mg_loops :: "loop_state list"
  mg_restarts :: nat

definition new_manager :: manager where
  "new_manager =
     \<lparr>mg_ctx = None, mg_cancel = False, mg_cmd = None, mg_wait_done = None, mg_wait_err = CleanExit,
      mg_caller = Outside, mg_processes = (\<lambda>p. NotStarted), mg_next_process = 0, mg_cancelled = {},
      mg_parent_done = False, mg_next_ctx = 0, mg_loops = [], mg_restarts = 0\<rparr>"

definition lock_free :: "manager \<Rightarrow> bool" where
  "lock_free m \<longleftrightarrow> mg_caller m = Outside"

definition ctx_done :: "manager \<Rightarrow> nat \<Rightarrow> bool" where
  "ctx_done m c \<longleftrightarrow> mg_parent_done m \<or> c \<in> mg_cancelled m"

section \<open>Operations under the mutex\<close>

text \<open>\<open>startProcessLocked\<close> when \<open>cmd.Start()\<close> succeeds; when it fails nothing changes.\<close>

definition start_process :: "manager \<Rightarrow> manager" where
  "start_process m =
     (let p = mg_next_process m
      in m\<lparr>mg_cmd := Some p, mg_wait_done := Some p, mg_wait_err := CleanExit,
           mg_processes := (mg_processes m)(p := Running), mg_next_process := Suc p\<rparr>)"

text \<open>\<open>Start\<close>, for the outcome of \<open>cmd.Start()\<close>: its result and the new state.\<close>

definition manager_start :: "go_error option \<Rightarrow> manager \<Rightarrow> go_error option \<times> manager" where
  "manager_start failure m =
     (if mg_cancel m then (None, m)
      else let c = mg_next_ctx m; m1 = m\<lparr>mg_ctx := Some c, mg_cancel := True, mg_next_ctx := Suc c\<rparr>
      in case failure of
           Some err \<Rightarrow> (Some err, m1\<lparr>mg_cancel := False, mg_cancelled := insert c (mg_cancelled m)\<rparr>)
         | None \<Rightarrow> (None, (start_process m1)\<lparr>mg_loops := mg_loops m @ [LoopTop]\<rparr>))"

definition cancel_ctx :: "manager \<Rightarrow> manager" where
  "cancel_ctx m =
     m\<lparr>mg_cancel := False,
       mg_cancelled := (case mg_ctx m of None \<Rightarrow> mg_cancelled m | Some c \<Rightarrow> insert c (mg_cancelled m))\<rparr>"

text \<open>
  The first part of \<open>Stop\<close>, up to its \<open>select\<close>, for the outcome of the signal (\<open>ErrProcessDone\<close> counts
  as success): \<open>Inl\<close> the result when it returns, \<open>Inr\<close> the channel it waits on.
\<close>

definition stop_begin :: "go_error option \<Rightarrow> manager \<Rightarrow> (go_error option + nat option) \<times> manager" where
  "stop_begin signal m =
     (if \<not> mg_cancel m then (Inl None, m)
      else let m1 = cancel_ctx m
      in case mg_cmd m1 of
           None \<Rightarrow> (Inl None, m1)
         | Some p \<Rightarrow> (case signal of Some err \<Rightarrow> (Inl (Some err), m1) | None \<Rightarrow> (Inr (mg_wait_done m1), m1)))"

definition stop_done :: "manager \<Rightarrow> go_error option \<times> manager" where
  "stop_done m =
     (if \<not> is_exited (mg_wait_err m) then (Some (External ''wait''), m)
      else (None, m\<lparr>mg_cmd := None, mg_wait_done := None, mg_wait_err := CleanExit, mg_ctx := None\<rparr>))"

definition loop_clear :: "nat \<Rightarrow> manager \<Rightarrow> manager" where
  "loop_clear p m =
     (if mg_cmd m = Some p then m\<lparr>mg_cmd := None, mg_wait_done := None, mg_wait_err := CleanExit\<rparr> else m)"

definition set_loop :: "nat \<Rightarrow> loop_state \<Rightarrow> manager \<Rightarrow> manager" where
  "set_loop i l m = m\<lparr>mg_loops := (mg_loops m)[i := l]\<rparr>"

section \<open>Steps\<close>

datatype manager_event =
    Started "go_error option"
  | StopBlocks "nat option"
  | StopReturns "go_error option"
  | ProcessEnds nat wait_result
  | ResultStored nat
  | DoneClosed nat
  | ParentCancelled
  | LoopStep nat
  | Restarted nat bool

inductive manager_step :: "manager \<Rightarrow> manager_event \<Rightarrow> manager \<Rightarrow> bool" where
  Start: "lock_free m \<Longrightarrow> manager_start failure m = (res, m') \<Longrightarrow> manager_step m (Started res) m'"
| StopReturn: "lock_free m \<Longrightarrow> stop_begin signal m = (Inl res, m') \<Longrightarrow> manager_step m (StopReturns res) m'"
| StopBlock: "lock_free m \<Longrightarrow> stop_begin signal m = (Inr d, m') \<Longrightarrow>
    manager_step m (StopBlocks d) (m'\<lparr>mg_caller := InStop d\<rparr>)"
| StopDone: "mg_caller m = InStop (Some p) \<Longrightarrow> mg_processes m p = Closed \<Longrightarrow> stop_done m = (res, m') \<Longrightarrow>
    manager_step m (StopReturns res) (m'\<lparr>mg_caller := Outside\<rparr>)"
| StopDeadline: "mg_caller m = InStop d \<Longrightarrow>
    manager_step m (StopReturns (Some ContextDone)) (m\<lparr>mg_caller := Outside\<rparr>)"
| ProcessEnd: "mg_processes m p = Running \<Longrightarrow>
    manager_step m (ProcessEnds p r) (m\<lparr>mg_processes := (mg_processes m)(p := Ended r)\<rparr>)"
| StoreResult: "lock_free m \<Longrightarrow> mg_processes m p = Ended r \<Longrightarrow>
    manager_step m (ResultStored p) (m\<lparr>mg_wait_err := r, mg_processes := (mg_processes m)(p := Stored)\<rparr>)"
| CloseDone: "mg_processes m p = Stored \<Longrightarrow>
    manager_step m (DoneClosed p) (m\<lparr>mg_processes := (mg_processes m)(p := Closed)\<rparr>)"
| ParentCancel: "manager_step m ParentCancelled (m\<lparr>mg_parent_done := True\<rparr>)"
| LoopReads: "i < length (mg_loops m) \<Longrightarrow> mg_loops m ! i = LoopTop \<Longrightarrow> lock_free m \<Longrightarrow>
    mg_ctx m = Some c \<Longrightarrow> mg_cmd m = Some p \<Longrightarrow> manager_step m (LoopStep i) (set_loop i (LoopRead c p) m)"
| LoopEnds: "i < length (mg_loops m) \<Longrightarrow> mg_loops m ! i = LoopTop \<Longrightarrow> lock_free m \<Longrightarrow>
    mg_ctx m = None \<or> mg_cmd m = None \<Longrightarrow> manager_step m (LoopStep i) (set_loop i LoopOver m)"
| LoopWaits: "i < length (mg_loops m) \<Longrightarrow> mg_loops m ! i = LoopRead c p \<Longrightarrow>
    manager_step m (LoopStep i) (set_loop i (LoopWaiting c p (mg_wait_done m)) m)"
| LoopWakes: "i < length (mg_loops m) \<Longrightarrow> mg_loops m ! i = LoopWaiting c p (Some d) \<Longrightarrow>
    mg_processes m d = Closed \<Longrightarrow> manager_step m (LoopStep i) (set_loop i (LoopExited c p) m)"
| LoopClears: "i < length (mg_loops m) \<Longrightarrow> mg_loops m ! i = LoopExited c p \<Longrightarrow> lock_free m \<Longrightarrow>
    manager_step m (LoopStep i) (set_loop i (LoopCheck c) (loop_clear p m))"
| LoopStops: "i < length (mg_loops m) \<Longrightarrow> mg_loops m ! i = LoopCheck c \<Longrightarrow> ctx_done m c \<Longrightarrow>
    manager_step m (LoopStep i) (set_loop i LoopOver m)"
| LoopBacksOff: "i < length (mg_loops m) \<Longrightarrow> mg_loops m ! i = LoopCheck c \<Longrightarrow> \<not> ctx_done m c \<Longrightarrow>
    manager_step m (LoopStep i) (set_loop i (LoopBackoff c) (m\<lparr>mg_restarts := Suc (mg_restarts m)\<rparr>))"
| LoopTimer: "i < length (mg_loops m) \<Longrightarrow> mg_loops m ! i = LoopBackoff c \<Longrightarrow>
    manager_step m (LoopStep i) (set_loop i (LoopRestart c) m)"
| LoopCancelled: "i < length (mg_loops m) \<Longrightarrow> mg_loops m ! i = LoopBackoff c \<Longrightarrow> ctx_done m c \<Longrightarrow>
    manager_step m (LoopStep i) (set_loop i LoopOver m)"
| LoopGivesUp: "i < length (mg_loops m) \<Longrightarrow> mg_loops m ! i = LoopRestart c \<Longrightarrow> lock_free m \<Longrightarrow>
    (case mg_ctx m of None \<Rightarrow> True | Some c' \<Rightarrow> ctx_done m c') \<Longrightarrow> manager_step m (LoopStep i) (set_loop i LoopOver m)"
| LoopRestarts: "i < length (mg_loops m) \<Longrightarrow> mg_loops m ! i = LoopRestart c \<Longrightarrow> lock_free m \<Longrightarrow>
    mg_ctx m = Some c' \<Longrightarrow> \<not> ctx_done m c' \<Longrightarrow>
    manager_step m (Restarted i ok) (set_loop i LoopTop (if ok then start_process m else m))"

inductive manager_run :: "manager \<Rightarrow> manager_event list \<Rightarrow> manager \<Rightarrow> bool" where
  Nil: "manager_run m [] m"
| Step: "manager_run m es m' \<Longrightarrow> manager_step m' e m'' \<Longrightarrow> manager_run m (es @ [e]) m''"

inductive_cases step_StopReturns: "manager_step m (StopReturns res) m'"
inductive_cases step_StopBlocks: "manager_step m (StopBlocks d) m'"
inductive_cases step_Restarted: "manager_step m (Restarted i ok) m'"
inductive_cases step_Started: "manager_step m (Started res) m'"

lemma run_single: "manager_step m e m' \<Longrightarrow> manager_run m [e] m'"
  using manager_run.Step [OF manager_run.Nil] by simp

lemma run_append: "manager_run m' es' m'' \<Longrightarrow> manager_run m es m' \<Longrightarrow> manager_run m (es @ es') m''"
  by (induction rule: manager_run.induct) (auto intro: manager_run.Step simp flip: append_assoc)

text \<open>An event list extended in front, for building runs.\<close>

lemma run_Cons: "manager_step m e m' \<Longrightarrow> manager_run m' es m'' \<Longrightarrow> manager_run m (e # es) m''"
  using run_append [OF _ run_single] by fastforce

end
