(* ===== verification/Envoy_Properties.thy ===== *)
theory Envoy_Properties
  imports Envoy_Manager
begin

text \<open>
  Two properties of the Envoy manager's concurrency: what \<open>Stop\<close> can return while Envoy runs, and what
  becomes of the supervision after a restart that failed.
\<close>

section \<open>Stop\<close>

definition unrecorded :: "manager \<Rightarrow> nat \<Rightarrow> bool" where
  "unrecorded m p \<longleftrightarrow> mg_processes m p = Running \<or> (\<exists>r. mg_processes m p = Ended r)"

definition stop_returns :: "manager_event \<Rightarrow> bool" where
  "stop_returns e \<longleftrightarrow> (\<exists>res. e = StopReturns res)"

lemma step_while_stopping:
  assumes "manager_step m e m'" "mg_caller m = InStop (Some p)" "unrecorded m p" "\<not> stop_returns e"
  shows "mg_caller m' = InStop (Some p) \<and> unrecorded m' p"
  using assms
  by cases (auto simp: unrecorded_def stop_returns_def lock_free_def set_loop_def)

lemma run_while_stopping:
  assumes "manager_run m es m'" "mg_caller m = InStop (Some p)" "unrecorded m p" "\<forall>e \<in> set es. \<not> stop_returns e"
  shows "mg_caller m' = InStop (Some p) \<and> unrecorded m' p"
  using assms by (induction rule: manager_run.induct) (auto dest: step_while_stopping)

lemma stop_blocks:
  assumes "manager_step m (StopBlocks d) m1"
  shows "mg_caller m1 = InStop d \<and> mg_processes m1 = mg_processes m \<and> d = mg_wait_done m"
  using assms by (auto elim!: step_StopBlocks simp: stop_begin_def cancel_ctx_def Let_def split: if_splits option.splits)

lemma stop_waits_for_deadline:
  assumes "mg_wait_done m = Some p" "unrecorded m p" "manager_step m (StopBlocks d) m1" "manager_run m1 es m2"
    "\<forall>e \<in> set es. \<not> stop_returns e" "manager_step m2 (StopReturns res) m3"
  shows "res = Some ContextDone"
proof -
  have m1: "mg_caller m1 = InStop (Some p)" "unrecorded m1 p"
    using stop_blocks [OF assms(3)] assms(1,2) by (simp_all add: unrecorded_def)
  have "mg_caller m2 = InStop (Some p) \<and> unrecorded m2 p"
    using run_while_stopping [OF assms(4) m1] assms(5) by simp
  with assms(6) show ?thesis
    by (auto elim!: step_StopReturns simp: lock_free_def unrecorded_def)
qed

text \<open>The results of one call of \<open>Stop\<close> in the state \<open>m\<close>: at once, or after waiting.\<close>

definition stop_outcome :: "manager \<Rightarrow> go_error option \<Rightarrow> bool" where
  "stop_outcome m res \<longleftrightarrow> (\<exists>m'. manager_step m (StopReturns res) m') \<or>
     (\<exists>d m1 es m2 m3. manager_step m (StopBlocks d) m1 \<and> manager_run m1 es m2 \<and>
        (\<forall>e \<in> set es. \<not> stop_returns e) \<and> manager_step m2 (StopReturns res) m3)"

text \<open>Envoy was started and its exit, if it has ended, is not recorded yet.\<close>

definition envoy_running :: "manager \<Rightarrow> bool" where
  "envoy_running m \<longleftrightarrow> lock_free m \<and> mg_cancel m \<and>
     (\<exists>p. mg_cmd m = Some p \<and> mg_wait_done m = Some p \<and> unrecorded m p)"

lemma stop_never_succeeds:
  assumes "envoy_running m" "stop_outcome m res"
  shows "res \<noteq> None"
proof -
  obtain p where p: "mg_cmd m = Some p" "mg_wait_done m = Some p" "unrecorded m p" "lock_free m" "mg_cancel m"
    using assms(1) by (auto simp: envoy_running_def)
  have "res \<noteq> None" if "manager_step m (StopReturns res) m'" for m'
    using that p
    by (auto elim!: step_StopReturns simp: stop_begin_def cancel_ctx_def lock_free_def Let_def split: if_splits option.splits)
  moreover have "res \<noteq> None"
    if "manager_step m (StopBlocks d) m1" "manager_run m1 es m2" "\<forall>e \<in> set es. \<not> stop_returns e"
      "manager_step m2 (StopReturns res) m3" for d m1 es m2 m3
    using stop_waits_for_deadline [OF p(2,3) that] by simp
  ultimately show ?thesis
    using assms(2) unfolding stop_outcome_def by blast
qed

text \<open>
  C8. \<open>Stop\<close> cannot confirm the exit of a running Envoy. It waits for the exit while holding the mutex
  that the goroutine storing the exit needs: if the process had not ended and been recorded when
  \<open>Stop\<close> began to wait, then however the process, the goroutines and the timers go on, the only thing
  \<open>Stop\<close> can return is the error of its context, at the deadline.
\<close>

theorem stop_only_ends_at_deadline:
  assumes "mg_wait_done m = Some p" "mg_processes m p = Running \<or> (\<exists>r. mg_processes m p = Ended r)"
    and "manager_step m (StopBlocks d) m1" "manager_run m1 es m2" "\<forall>e \<in> set es. \<forall>res. e \<noteq> StopReturns res"
    and "manager_step m2 (StopReturns res) m3"
  shows "res = Some ContextDone"
  using stop_waits_for_deadline [of m p, OF assms(1) _ assms(3,4) _ assms(6)] assms(2,5)
  by (simp add: unrecorded_def stop_returns_def)

text \<open>A manager that has started Envoy, and one that \<open>Stop\<close> waits for although Envoy has ended.\<close>

definition started_manager :: manager where
  "started_manager = snd (manager_start None new_manager)"

lemma started_simps:
  "mg_wait_done started_manager = Some 0" "mg_processes started_manager 0 = Running"
  "mg_caller started_manager = Outside" "mg_cancel started_manager" "mg_cmd started_manager = Some 0"
  "mg_ctx started_manager = Some 0" "mg_loops started_manager = [LoopTop]" "mg_cancelled started_manager = {}"
  "mg_parent_done started_manager = False"
  by (simp_all add: started_manager_def manager_start_def new_manager_def start_process_def Let_def)

lemma start_step: "manager_step new_manager (Started None) started_manager"
  by (rule manager_step.Start [where failure = None])
    (simp_all add: lock_free_def new_manager_def started_manager_def manager_start_def Let_def)

theorem stop_only_ends_at_deadline_witness:
  "\<exists>m1 m2. manager_step started_manager (StopBlocks (Some 0)) m1 \<and>
     manager_run m1 [ProcessEnds 0 CleanExit] m2 \<and> {res. \<exists>m3. manager_step m2 (StopReturns res) m3} = {Some ContextDone}"
proof -
  let ?m1 = "(cancel_ctx started_manager)\<lparr>mg_caller := InStop (Some 0)\<rparr>"
  let ?m2 = "?m1\<lparr>mg_processes := (mg_processes ?m1)(0 := Ended CleanExit)\<rparr>"
  have "stop_begin None started_manager = (Inr (Some 0), cancel_ctx started_manager)"
    by (simp add: stop_begin_def cancel_ctx_def started_simps)
  then have block: "manager_step started_manager (StopBlocks (Some 0)) ?m1"
    by (intro manager_step.StopBlock [where signal = None]) (simp_all add: lock_free_def started_simps)
  have "manager_step ?m1 (ProcessEnds 0 CleanExit) ?m2"
    by (rule manager_step.ProcessEnd) (simp add: cancel_ctx_def started_simps)
  then have ends: "manager_run ?m1 [ProcessEnds 0 CleanExit] ?m2"
    by (rule run_single)
  have deadline: "manager_step ?m2 (StopReturns (Some ContextDone)) (?m2\<lparr>mg_caller := Outside\<rparr>)"
    by (rule manager_step.StopDeadline [where d = "Some 0"]) simp
  have "res = Some ContextDone" if "manager_step ?m2 (StopReturns res) m" for res m
    by (rule stop_only_ends_at_deadline [OF started_simps(1) _ block ends _ that]) (simp_all add: started_simps)
  with block ends deadline show ?thesis by blast
qed

section \<open>Supervision\<close>

definition stops :: "manager_event \<Rightarrow> bool" where
  "stops e \<longleftrightarrow> (\<exists>d. e = StopBlocks d) \<or> (\<exists>res. e = StopReturns res)"

text \<open>Without a \<open>Stop\<close> there is at most one watch loop, and it owns the process reference.\<close>

fun loop_owns :: "loop_state \<Rightarrow> nat option \<Rightarrow> bool" where
  "loop_owns (LoopRead c p) cmd = (cmd = Some p)"
| "loop_owns (LoopWaiting c p d) cmd = (cmd = Some p)"
| "loop_owns (LoopExited c p) cmd = (cmd = Some p)"
| "loop_owns (LoopCheck c) cmd = (cmd = None)"
| "loop_owns (LoopBackoff c) cmd = (cmd = None)"
| "loop_owns (LoopRestart c) cmd = (cmd = None)"
| "loop_owns LoopTop cmd = True"
| "loop_owns LoopOver cmd = True"

definition supervised :: "manager \<Rightarrow> bool" where
  "supervised m \<longleftrightarrow> (\<not> mg_cancel m \<and> mg_loops m = []) \<or>
     (mg_cancel m \<and> (\<exists>l. mg_loops m = [l] \<and> loop_owns l (mg_cmd m)))"

lemma step_supervised:
  assumes "manager_step m e m'" "supervised m" "\<not> stops e"
  shows "supervised m'"
  using assms
  by cases (auto simp: supervised_def stops_def manager_start_def start_process_def set_loop_def loop_clear_def Let_def
      split: if_splits option.splits)

lemma run_supervised:
  assumes "manager_run new_manager es m" "\<forall>e \<in> set es. \<not> stops e"
  shows "supervised m"
  using assms
proof (induction "new_manager" es m rule: manager_run.induct)
  case Nil
  then show ?case by (simp add: supervised_def new_manager_def)
qed (auto intro: step_supervised)

definition abandoned :: "manager \<Rightarrow> nat \<Rightarrow> bool" where
  "abandoned m n \<longleftrightarrow> mg_cancel m \<and> mg_cmd m = None \<and> mg_next_process m = n \<and>
     (mg_loops m = [LoopTop] \<or> mg_loops m = [LoopOver])"

lemma step_abandoned:
  assumes "manager_step m e m'" "abandoned m n" "\<not> stops e"
  shows "abandoned m' n"
  using assms
  by cases (auto simp: abandoned_def stops_def manager_start_def set_loop_def split: if_splits)

lemma run_abandoned:
  assumes "manager_run m es m'" "abandoned m n" "\<forall>e \<in> set es. \<not> stops e"
  shows "abandoned m' n"
  using assms by (induction rule: manager_run.induct) (auto dest: step_abandoned)

text \<open>
  C37. Supervision ends at the first restart that fails: as long as nobody calls \<open>Stop\<close>, no process is
  started any more after it, whatever happens and however often \<open>Start\<close> is called; \<open>Start\<close> then
  reports success and does nothing.
\<close>

theorem failed_restart_ends_supervision:
  assumes "manager_run new_manager es m" "\<forall>e \<in> set es. (\<forall>d. e \<noteq> StopBlocks d) \<and> (\<forall>res. e \<noteq> StopReturns res)"
    and "manager_step m (Restarted i False) m1" "manager_run m1 es' m2"
    and "\<forall>e \<in> set es'. (\<forall>d. e \<noteq> StopBlocks d) \<and> (\<forall>res. e \<noteq> StopReturns res)"
  shows "mg_cmd m2 = None \<and> mg_next_process m2 = mg_next_process m \<and>
    (\<forall>res m3. manager_step m2 (Started res) m3 \<longrightarrow> res = None \<and> m3 = m2)"
proof -
  have "supervised m"
    using run_supervised [OF assms(1)] assms(2) by (auto simp: stops_def)
  then have "abandoned m1 (mg_next_process m)"
    using assms(3) by (auto elim!: step_Restarted simp: supervised_def abandoned_def set_loop_def)
  then have "abandoned m2 (mg_next_process m)"
    using run_abandoned [OF assms(4)] assms(5) by (auto simp: stops_def)
  then show ?thesis
    by (auto elim!: step_Started simp: abandoned_def manager_start_def)
qed

theorem failed_restart_ends_supervision_witness:
  "\<exists>es m m1. manager_run new_manager es m \<and> manager_step m (Restarted 0 False) m1 \<and>
     mg_cmd ` {m3. \<exists>m2 res. manager_run m1 [LoopStep 0] m2 \<and> manager_step m2 (Started res) m3} \<subseteq> {None}"
proof -
  let ?s1 = started_manager
  let ?s2 = "set_loop 0 (LoopRead 0 0) ?s1"
  let ?s3 = "set_loop 0 (LoopWaiting 0 0 (mg_wait_done ?s2)) ?s2"
  let ?s4 = "?s3\<lparr>mg_processes := (mg_processes ?s3)(0 := Ended ExitFailure)\<rparr>"
  let ?s5 = "?s4\<lparr>mg_wait_err := ExitFailure, mg_processes := (mg_processes ?s4)(0 := Stored)\<rparr>"
  let ?s6 = "?s5\<lparr>mg_processes := (mg_processes ?s5)(0 := Closed)\<rparr>"
  let ?s7 = "set_loop 0 (LoopExited 0 0) ?s6"
  let ?s8 = "set_loop 0 (LoopCheck 0) (loop_clear 0 ?s7)"
  let ?s9 = "set_loop 0 (LoopBackoff 0) (?s8\<lparr>mg_restarts := Suc (mg_restarts ?s8)\<rparr>)"
  let ?s10 = "set_loop 0 (LoopRestart 0) ?s9"
  note state = started_simps set_loop_def lock_free_def loop_clear_def ctx_done_def
  have "manager_step ?s1 (LoopStep 0) ?s2" by (rule manager_step.LoopReads) (simp_all add: state)
  moreover have "manager_step ?s2 (LoopStep 0) ?s3" by (rule manager_step.LoopWaits) (simp_all add: state)
  moreover have "manager_step ?s3 (ProcessEnds 0 ExitFailure) ?s4" by (rule manager_step.ProcessEnd) (simp_all add: state)
  moreover have "manager_step ?s4 (ResultStored 0) ?s5" by (rule manager_step.StoreResult) (simp_all add: state)
  moreover have "manager_step ?s5 (DoneClosed 0) ?s6" by (rule manager_step.CloseDone) (simp_all add: state)
  moreover have "manager_step ?s6 (LoopStep 0) ?s7"
    by (rule manager_step.LoopWakes [where d = 0]) (simp_all add: state)
  moreover have "manager_step ?s7 (LoopStep 0) ?s8" by (rule manager_step.LoopClears) (simp_all add: state)
  moreover have "manager_step ?s8 (LoopStep 0) ?s9" by (rule manager_step.LoopBacksOff) (simp_all add: state)
  moreover have "manager_step ?s9 (LoopStep 0) ?s10" by (rule manager_step.LoopTimer) (simp_all add: state)
  ultimately have run: "manager_run new_manager [Started None, LoopStep 0, LoopStep 0, ProcessEnds 0 ExitFailure,
      ResultStored 0, DoneClosed 0, LoopStep 0, LoopStep 0, LoopStep 0, LoopStep 0] ?s10"
    by (intro run_Cons [OF start_step] run_Cons [OF \<open>manager_step ?s1 _ ?s2\<close>] run_Cons [OF \<open>manager_step ?s2 _ ?s3\<close>]
        run_Cons [OF \<open>manager_step ?s3 _ ?s4\<close>] run_Cons [OF \<open>manager_step ?s4 _ ?s5\<close>]
        run_Cons [OF \<open>manager_step ?s5 _ ?s6\<close>] run_Cons [OF \<open>manager_step ?s6 _ ?s7\<close>]
        run_Cons [OF \<open>manager_step ?s7 _ ?s8\<close>] run_Cons [OF \<open>manager_step ?s8 _ ?s9\<close>] run_single)
  let ?m1 = "set_loop 0 LoopTop ?s10"
  have restart: "manager_step ?s10 (Restarted 0 False) ?m1"
    using manager_step.LoopRestarts [where i = 0 and m = ?s10 and c = 0 and ok = False] by (simp add: state)
  have "mg_cmd m3 = None" if "manager_run ?m1 [LoopStep 0] m2" "manager_step m2 (Started res) m3" for m2 res m3
    using failed_restart_ends_supervision [OF run _ restart that(1)] that(2) by auto
  then have "mg_cmd ` {m3. \<exists>m2 res. manager_run ?m1 [LoopStep 0] m2 \<and> manager_step m2 (Started res) m3} \<subseteq> {None}"
    by auto
  with run restart show ?thesis
    by (intro exI conjI)
qed

end
