(* ===== verification/Telemetry.thy ===== *)
theory Telemetry
  imports Config Consul_Api
begin

text \<open>
  \<open>src/telemetry\<close>: which OpenTelemetry providers \<open>New\<close> installs for a configuration (\<open>otel.go\<close>), the
  metric instruments (\<open>metrics.go\<close>), the fallback logger (\<open>logging.go\<close>) and \<open>Shutdown\<close>. The
  OpenTelemetry SDK is a parameter: the code's calls that can fail or have an effect are recorded in a
  history, and the outcome of a call is any function of the history before it. The constructors of
  providers, processors and readers cannot fail and are not calls here. The model of the Envoy manager
  and the registry count through \<open>Counted\<close>, the names of whose instruments are given here.
\<close>

section \<open>The SDK\<close>

datatype signal = LogSignal | MetricSignal | TraceSignal

text \<open>An exporter: to standard output, to an OTLP endpoint, or the Prometheus reader.\<close>

datatype exporter = StdoutExporter | OtlpExporter string | PrometheusExporter

datatype otel_call =
    NewResource string "(string \<times> string) list"
  | NewExporter signal exporter
  | SetGlobal signal
  | NewCounter string
  | NewGauge string
  | RegisterCallback string
  | CounterAdd string int
  | ShutdownProvider signal

type_synonym otel = "otel_call list \<Rightarrow> otel_call \<Rightarrow> go_error option"

text \<open>\<open>SetMeterProvider\<close>, \<open>SetTracerProvider\<close> and \<open>Add\<close> return nothing.\<close>

fun returns_error :: "otel_call \<Rightarrow> bool" where
  "returns_error (SetGlobal s) = False"
| "returns_error (CounterAdd n k) = False"
| "returns_error c = True"

definition sdk :: "otel \<Rightarrow> otel_call \<Rightarrow> otel_call list \<Rightarrow> (go_error + unit) \<times> otel_call list" where
  "sdk w c h =
     (case w h c of Some err \<Rightarrow> if returns_error c then Inl err else Inr () | None \<Rightarrow> Inr (), h @ [c])"

section \<open>The instruments\<close>

text \<open>
  The struct \<open>Metrics\<close>: the gauge value is its own state, an \<open>int64\<close>; the counters are the SDK's. A
  Go \<open>int\<close> is 64 bits wide, so that the conversion in \<open>SetLocalServiceGauge\<close> is the identity.
\<close>

record metrics =
  mt_counters :: "string list"
  mt_gauge :: "64 word"
  mt_callbacks :: "string list"

fun instrument :: "counter \<Rightarrow> string" where
  "instrument RegisterTotal = ''sidecar_agent.register.total''"
| "instrument DrainTotal = ''sidecar_agent.drain.total''"
| "instrument DeregisterTotal = ''sidecar_agent.deregister.total''"
| "instrument DiscoveryRefreshTotal = ''sidecar_agent.discovery.refresh.total''"
| "instrument XdsPublishTotal = ''sidecar_agent.xds.publish.total''"
| "instrument EnvoyRestartTotal = ''sidecar_agent.envoy.restart.total''"

definition counters :: "counter list" where
  "counters = [RegisterTotal, DrainTotal, DeregisterTotal, DiscoveryRefreshTotal, XdsPublishTotal, EnvoyRestartTotal]"

definition local_services_gauge :: string where
  "local_services_gauge = ''sidecar_agent.local.services''"

fun new_counters :: "otel \<Rightarrow> string list \<Rightarrow> otel_call list \<Rightarrow> (go_error + unit) \<times> otel_call list" where
  "new_counters w [] h = (Inr (), h)"
| "new_counters w (n # ns) h = and_then (sdk w (NewCounter n) h) (\<lambda>_. new_counters w ns)"

definition new_metrics :: "otel \<Rightarrow> otel_call list \<Rightarrow> (go_error + metrics) \<times> otel_call list" where
  "new_metrics w h =
     and_then (new_counters w (List.map instrument counters) h) (\<lambda>_ h.
     and_then (sdk w (NewGauge local_services_gauge) h) (\<lambda>_ h.
     and_then (sdk w (RegisterCallback local_services_gauge) h) (\<lambda>_ h.
       (Inr \<lparr>mt_counters = List.map instrument counters, mt_gauge = 0,
          mt_callbacks = [local_services_gauge]\<rparr>, h))))"

text \<open>\<open>IncRegister\<close> and the other five; the SDK's \<open>Add\<close> returns nothing.\<close>

definition inc :: "otel \<Rightarrow> counter \<Rightarrow> otel_call list \<Rightarrow> otel_call list" where
  "inc w k h = snd (sdk w (CounterAdd (instrument k) 1) h)"

definition set_local_service_gauge :: "int \<Rightarrow> metrics \<Rightarrow> metrics" where
  "set_local_service_gauge n m = m\<lparr>mt_gauge := word_of_int n\<rparr>"

text \<open>What the callback observes when an exporter collects.\<close>

definition observe_gauge :: "metrics \<Rightarrow> int" where
  "observe_gauge m = sint (mt_gauge m)"

section \<open>Providers\<close>

text \<open>The struct \<open>System\<close>: a provider is known by its exporter, \<open>None\<close> is nil.\<close>

datatype logger = FallbackLogger | OtelLogger string

record telemetry_system =
  ts_logger :: logger
  ts_metrics :: "metrics option"
  ts_metrics_handler :: bool
  ts_log_provider :: "exporter option"
  ts_meter_provider :: "exporter option"
  ts_tracer_provider :: "exporter option"

definition new_provider ::
    "otel \<Rightarrow> signal \<Rightarrow> exporter \<Rightarrow> otel_call list \<Rightarrow> (go_error + exporter) \<times> otel_call list" where
  "new_provider w s x h = and_then (sdk w (NewExporter s x) h) (\<lambda>_ h. (Inr x, h))"

definition new_logger_provider ::
    "otel \<Rightarrow> telemetry_config \<Rightarrow> otel_call list \<Rightarrow> (go_error + exporter) \<times> otel_call list" where
  "new_logger_provider w t h =
     (let name = trim_space (tc_log_exporter t)
      in if name = ''stdout'' then new_provider w LogSignal StdoutExporter h
         else if name = ''otlp'' then new_provider w LogSignal (OtlpExporter (trim_space (tc_otlp_endpoint t))) h
         else (Inl (Unsupported ''unsupported telemetry log exporter''), h))"

text \<open>The second result: whether there is an HTTP handler for the metrics.\<close>

definition new_meter_provider ::
    "otel \<Rightarrow> telemetry_config \<Rightarrow> otel_call list \<Rightarrow> (go_error + exporter \<times> bool) \<times> otel_call list" where
  "new_meter_provider w t h =
     (let name = trim_space (tc_metric_exporter t)
      in if name = ''prometheus''
         then and_then (new_provider w MetricSignal PrometheusExporter h) (\<lambda>x h. (Inr (x, True), h))
         else if name = ''otlp''
         then and_then (new_provider w MetricSignal (OtlpExporter (trim_space (tc_otlp_endpoint t))) h)
                (\<lambda>x h. (Inr (x, False), h))
         else (Inl (Unsupported ''unsupported telemetry metric exporter''), h))"

definition new_tracer_provider ::
    "otel \<Rightarrow> telemetry_config \<Rightarrow> otel_call list \<Rightarrow> (go_error + exporter) \<times> otel_call list" where
  "new_tracer_provider w t h =
     (let name = trim_space (tc_trace_exporter t)
      in if name = ''stdout'' then new_provider w TraceSignal StdoutExporter h
         else if name = ''otlp'' then new_provider w TraceSignal (OtlpExporter (trim_space (tc_otlp_endpoint t))) h
         else (Inl (Unsupported ''unsupported telemetry trace exporter''), h))"

section \<open>New and Shutdown\<close>

definition build_resource ::
    "otel \<Rightarrow> string \<Rightarrow> (string \<times> string) list \<Rightarrow> otel_call list \<Rightarrow> (go_error + unit) \<times> otel_call list" where
  "build_resource w service attrs h = sdk w (NewResource service attrs) h"

text \<open>One block \<open>if cfg.XEnabled { ... }\<close> of \<open>New\<close>.\<close>

definition when_enabled ::
    "bool \<Rightarrow> ('s \<Rightarrow> 'h \<Rightarrow> (go_error + 's) \<times> 'h) \<Rightarrow> 's \<Rightarrow> 'h \<Rightarrow> (go_error + 's) \<times> 'h" where
  "when_enabled b f s h = (if b then f s h else (Inr s, h))"

definition install_log :: "otel \<Rightarrow> telemetry_config \<Rightarrow> string \<Rightarrow> telemetry_system \<Rightarrow> otel_call list \<Rightarrow>
    (go_error + telemetry_system) \<times> otel_call list" where
  "install_log w t service s h =
     and_then (new_logger_provider w t h) (\<lambda>x h.
       (Inr (s\<lparr>ts_log_provider := Some x, ts_logger := OtelLogger service\<rparr>), h))"

definition install_meter :: "otel \<Rightarrow> telemetry_config \<Rightarrow> telemetry_system \<Rightarrow> otel_call list \<Rightarrow>
    (go_error + telemetry_system) \<times> otel_call list" where
  "install_meter w t s h =
     and_then (new_meter_provider w t h) (\<lambda>(x, handler) h.
     and_then (sdk w (SetGlobal MetricSignal) h) (\<lambda>_ h.
       (Inr (s\<lparr>ts_meter_provider := Some x, ts_metrics_handler := handler\<rparr>), h)))"

definition install_tracer :: "otel \<Rightarrow> telemetry_config \<Rightarrow> telemetry_system \<Rightarrow> otel_call list \<Rightarrow>
    (go_error + telemetry_system) \<times> otel_call list" where
  "install_tracer w t s h =
     and_then (new_tracer_provider w t h) (\<lambda>x h.
     and_then (sdk w (SetGlobal TraceSignal) h) (\<lambda>_ h.
       (Inr (s\<lparr>ts_tracer_provider := Some x\<rparr>), h)))"

definition new_telemetry :: "otel \<Rightarrow> telemetry_config \<Rightarrow> string \<Rightarrow> (string \<times> string) list \<Rightarrow> otel_call list \<Rightarrow>
    (go_error + telemetry_system) \<times> otel_call list" where
  "new_telemetry w t service attrs h =
     (let s = \<lparr>ts_logger = FallbackLogger, ts_metrics = None, ts_metrics_handler = False,
        ts_log_provider = None, ts_meter_provider = None, ts_tracer_provider = None\<rparr>
      in and_then
           (when_enabled (tc_log_enabled t \<or> tc_metric_enabled t) (\<lambda>s h.
              and_then (build_resource w service attrs h) (\<lambda>_ h.
              and_then (when_enabled (tc_log_enabled t) (install_log w t service) s h) (\<lambda>s h.
              and_then (when_enabled (tc_metric_enabled t) (install_meter w t) s h) (\<lambda>s h.
                when_enabled (tc_trace_enabled t) (install_tracer w t) s h)))) s h)
           (\<lambda>s h. and_then (new_metrics w h) (\<lambda>m h. (Inr (s\<lparr>ts_metrics := Some m\<rparr>), h))))"

text \<open>
  One \<open>if provider != nil { err = errors.Join(err, provider.Shutdown(ctx)) }\<close>; the joined error is the
  list of its parts, nil the empty list.
\<close>

definition shut :: "otel \<Rightarrow> signal \<Rightarrow> 'p option \<Rightarrow> go_error list \<times> otel_call list \<Rightarrow> go_error list \<times> otel_call list" where
  "shut w s p eh =
     (case p of
        None \<Rightarrow> eh
      | Some _ \<Rightarrow> (case (eh, sdk w (ShutdownProvider s) (snd eh)) of
          ((es, _), (Inl err, h)) \<Rightarrow> (es @ [err], h)
        | ((es, _), (Inr _, h)) \<Rightarrow> (es, h)))"

definition shutdown_telemetry :: "otel \<Rightarrow> telemetry_system \<Rightarrow> otel_call list \<Rightarrow> go_error list \<times> otel_call list" where
  "shutdown_telemetry w s h =
     shut w TraceSignal (ts_tracer_provider s)
       (shut w MetricSignal (ts_meter_provider s)
         (shut w LogSignal (ts_log_provider s) ([], h)))"

end
