(* ===== verification/Telemetry_Properties.thy ===== *)
theory Telemetry_Properties
  imports Telemetry
begin

text \<open>
  What \<open>New\<close> of \<open>src/telemetry/otel.go\<close> sets up for a validated configuration, against a reference that
  lists the calls to the SDK and stops at the first that fails, and what \<open>Shutdown\<close> closes.
\<close>

section \<open>The reference\<close>

fun run_calls :: "otel \<Rightarrow> otel_call list \<Rightarrow> otel_call list \<Rightarrow> (go_error + unit) \<times> otel_call list" where
  "run_calls w [] h = (Inr (), h)"
| "run_calls w (c # cs) h = and_then (sdk w c h) (\<lambda>_. run_calls w cs)"

definition log_exporter_of :: "telemetry_config \<Rightarrow> exporter" where
  "log_exporter_of t = (if trim_space (tc_log_exporter t) = ''stdout'' then StdoutExporter
     else OtlpExporter (trim_space (tc_otlp_endpoint t)))"

definition meter_exporter_of :: "telemetry_config \<Rightarrow> exporter" where
  "meter_exporter_of t = (if trim_space (tc_metric_exporter t) = ''prometheus'' then PrometheusExporter
     else OtlpExporter (trim_space (tc_otlp_endpoint t)))"

definition tracer_exporter_of :: "telemetry_config \<Rightarrow> exporter" where
  "tracer_exporter_of t = (if trim_space (tc_trace_exporter t) = ''stdout'' then StdoutExporter
     else OtlpExporter (trim_space (tc_otlp_endpoint t)))"

text \<open>Tracing is set up only beside logs or metrics.\<close>

definition traces :: "telemetry_config \<Rightarrow> bool" where
  "traces t \<longleftrightarrow> tc_trace_enabled t \<and> (tc_log_enabled t \<or> tc_metric_enabled t)"

definition setup_calls :: "telemetry_config \<Rightarrow> string \<Rightarrow> (string \<times> string) list \<Rightarrow> otel_call list" where
  "setup_calls t service attrs =
     (if tc_log_enabled t \<or> tc_metric_enabled t then [NewResource service attrs] else []) @
     (if tc_log_enabled t then [NewExporter LogSignal (log_exporter_of t)] else []) @
     (if tc_metric_enabled t then [NewExporter MetricSignal (meter_exporter_of t), SetGlobal MetricSignal] else []) @
     (if traces t then [NewExporter TraceSignal (tracer_exporter_of t), SetGlobal TraceSignal] else []) @
     map NewCounter (map instrument counters) @
     [NewGauge local_services_gauge, RegisterCallback local_services_gauge]"

definition set_up :: "telemetry_config \<Rightarrow> string \<Rightarrow> telemetry_system" where
  "set_up t service =
     \<lparr>ts_logger = if tc_log_enabled t then OtelLogger service else FallbackLogger,
      ts_metrics = Some \<lparr>mt_counters = map instrument counters, mt_gauge = 0, mt_callbacks = [local_services_gauge]\<rparr>,
      ts_metrics_handler = (tc_metric_enabled t \<and> meter_exporter_of t = PrometheusExporter),
      ts_log_provider = if tc_log_enabled t then Some (log_exporter_of t) else None,
      ts_meter_provider = if tc_metric_enabled t then Some (meter_exporter_of t) else None,
      ts_tracer_provider = if traces t then Some (tracer_exporter_of t) else None\<rparr>"

section \<open>Set-up\<close>

lemma and_then_return: "and_then (Inr x, s) k = k x s"
  by simp

lemma run_calls_append: "run_calls w (cs @ ds) = (\<lambda>h. and_then (run_calls w cs h) (\<lambda>_. run_calls w ds))"
  by (induction cs) (auto simp: and_then_assoc)

lemma new_counters_calls: "new_counters w ns = run_calls w (map NewCounter ns)"
  by (induction ns) auto

lemma run_calls_ok: "run_calls (\<lambda>_ _. None) cs h = (Inr (), h @ cs)"
  by (induction cs arbitrary: h) (simp_all add: sdk_def)

lemma new_metrics_calls:
  "new_metrics w h = and_then (run_calls w (map NewCounter (map instrument counters) @
     [NewGauge local_services_gauge, RegisterCallback local_services_gauge]) h)
     (\<lambda>_ h. (Inr \<lparr>mt_counters = map instrument counters, mt_gauge = 0, mt_callbacks = [local_services_gauge]\<rparr>, h))"
  by (simp add: new_metrics_def new_counters_calls run_calls_append and_then_assoc del: map_map)

lemma validated_exporters:
  assumes "validate_telemetry t = None"
  shows "tc_log_enabled t \<Longrightarrow> trim_space (tc_log_exporter t) \<in> {''stdout'', ''otlp''}"
    and "tc_metric_enabled t \<Longrightarrow> trim_space (tc_metric_exporter t) \<in> {''prometheus'', ''otlp''}"
    and "tc_trace_enabled t \<Longrightarrow> trim_space (tc_trace_exporter t) \<in> {''stdout'', ''otlp''}"
  using assms by (auto simp: validate_telemetry_def first_some_None validate_exporter_def split: if_splits)

lemma install_log_calls:
  assumes "trim_space (tc_log_exporter t) \<in> {''stdout'', ''otlp''}"
  shows "install_log w t service s h = and_then (run_calls w [NewExporter LogSignal (log_exporter_of t)] h)
    (\<lambda>_ h. (Inr (s\<lparr>ts_log_provider := Some (log_exporter_of t), ts_logger := OtelLogger service\<rparr>), h))"
  using assms
  by (auto simp: install_log_def new_logger_provider_def new_provider_def log_exporter_of_def and_then_assoc)

lemma install_meter_calls:
  assumes "trim_space (tc_metric_exporter t) \<in> {''prometheus'', ''otlp''}"
  shows "install_meter w t s h =
    and_then (run_calls w [NewExporter MetricSignal (meter_exporter_of t), SetGlobal MetricSignal] h)
     (\<lambda>_ h. (Inr (s\<lparr>ts_meter_provider := Some (meter_exporter_of t),
        ts_metrics_handler := (meter_exporter_of t = PrometheusExporter)\<rparr>), h))"
  using assms
  by (auto simp: install_meter_def new_meter_provider_def new_provider_def meter_exporter_of_def and_then_assoc)

lemma install_tracer_calls:
  assumes "trim_space (tc_trace_exporter t) \<in> {''stdout'', ''otlp''}"
  shows "install_tracer w t s h =
    and_then (run_calls w [NewExporter TraceSignal (tracer_exporter_of t), SetGlobal TraceSignal] h)
     (\<lambda>_ h. (Inr (s\<lparr>ts_tracer_provider := Some (tracer_exporter_of t)\<rparr>), h))"
  using assms
  by (auto simp: install_tracer_def new_tracer_provider_def new_provider_def tracer_exporter_of_def and_then_assoc)

lemma new_telemetry_calls:
  assumes "validate_telemetry t = None"
  shows "new_telemetry w t service attrs h =
    and_then (run_calls w (setup_calls t service attrs) h) (\<lambda>_ h'. (Inr (set_up t service), h'))"
  using validated_exporters [OF assms]
  by (cases "tc_log_enabled t"; cases "tc_metric_enabled t"; cases "tc_trace_enabled t")
    (simp_all add: new_telemetry_def when_enabled_def build_resource_def install_log_calls install_meter_calls
      install_tracer_calls new_metrics_calls setup_calls_def set_up_def traces_def run_calls_append and_then_assoc
      Let_def del: map_map list.map)

text \<open>
  C38. For a configuration that validates, \<open>New\<close> makes exactly the SDK calls of the reference, in order,
  and stops at the first that fails: it never reports an unsupported exporter. When it succeeds the
  system has the providers of the enabled signals with the configured exporters, an HTTP handler for
  Prometheus only, and the OpenTelemetry logger when logs are enabled; but tracing is set up only when
  logs or metrics are enabled as well, so that with tracing alone enabled there is no tracer.
\<close>

theorem new_telemetry_follows_config:
  assumes "validate_telemetry t = None"
  shows "new_telemetry w t service attrs h =
    and_then (run_calls w (setup_calls t service attrs) h) (\<lambda>_ h'. (Inr (set_up t service), h'))"
  by (rule new_telemetry_calls [OF assms])

text \<open>Tracing alone: no tracer, although the configuration enables it and validates.\<close>

definition trace_only :: telemetry_config where
  "trace_only =
     \<lparr>tc_otlp_endpoint = ''http://127.0.0.1:4318'', tc_trace_enabled = True, tc_trace_exporter = ''otlp'',
      tc_metric_enabled = False, tc_metric_exporter = ''prometheus'', tc_log_enabled = False,
      tc_log_exporter = ''stdout''\<rparr>"

theorem new_telemetry_follows_config_witness:
  "tc_trace_enabled trace_only \<and>
   new_telemetry (\<lambda>_ _. None) trace_only ''sidecar-agent'' [] [] =
     (Inr (set_up trace_only ''sidecar-agent''), setup_calls trace_only ''sidecar-agent'' []) \<and>
   ts_tracer_provider (set_up trace_only ''sidecar-agent'') = None"
proof -
  have "validate_telemetry trace_only = None"
    by (simp add: validate_telemetry_def trace_only_def validate_exporter_def first_some_None
        trim_space_trimmed trimmed_def graphic_def)
  from new_telemetry_follows_config [OF this, of "\<lambda>_ _. None" "''sidecar-agent''" "[]" "[]"] show ?thesis
    by (simp add: run_calls_ok) (simp add: trace_only_def set_up_def traces_def)
qed

section \<open>Shutdown\<close>

definition installed :: "telemetry_config \<Rightarrow> signal list" where
  "installed t = (if tc_log_enabled t then [LogSignal] else []) @ (if tc_metric_enabled t then [MetricSignal] else []) @
     (if traces t then [TraceSignal] else [])"

fun errors_of :: "otel \<Rightarrow> otel_call list \<Rightarrow> otel_call list \<Rightarrow> go_error list" where
  "errors_of w [] h = []"
| "errors_of w (c # cs) h = (case w h c of None \<Rightarrow> [] | Some err \<Rightarrow> [err]) @ errors_of w cs (h @ [c])"

lemma shut_calls:
  "shut w s p (es, h) =
     (let cs = (if p = None then [] else [ShutdownProvider s]) in (es @ errors_of w cs h, h @ cs))"
  by (auto simp: shut_def sdk_def split: option.splits)

lemma errors_of_append: "errors_of w (cs @ ds) h = errors_of w cs h @ errors_of w ds (h @ cs)"
  by (induction w cs h rule: errors_of.induct) simp_all

text \<open>
  \<open>Shutdown\<close> of a system that \<open>New\<close> set up shuts down every installed provider once, in the order
  log, metric, trace, also after one has failed, and returns the errors of all that failed.
\<close>

theorem telemetry_shutdown_closes_all:
  assumes "validate_telemetry t = None" "new_telemetry w t service attrs h = (Inr s, h')"
  shows "shutdown_telemetry w s g =
    (let cs = map ShutdownProvider (installed t) in (errors_of w cs g, g @ cs))"
proof -
  have "s = set_up t service"
    using assms(2) unfolding new_telemetry_calls [OF assms(1)] by (auto simp: and_then_Inr)
  then show ?thesis
    by (simp add: shutdown_telemetry_def shut_calls set_up_def installed_def Let_def errors_of_append)
qed

text \<open>Logs to standard output and Prometheus metrics, with a log provider that fails to shut down.\<close>

definition two_signals :: telemetry_config where
  "two_signals = trace_only\<lparr>tc_trace_enabled := False, tc_metric_enabled := True, tc_log_enabled := True\<rparr>"

definition stubborn_log :: otel where
  "stubborn_log h c = (if c = ShutdownProvider LogSignal then Some ContextDone else None)"

lemma run_calls_stubborn:
  "ShutdownProvider LogSignal \<notin> set cs \<Longrightarrow> run_calls stubborn_log cs h = (Inr (), h @ cs)"
  by (induction cs arbitrary: h) (auto simp: sdk_def stubborn_log_def)

theorem telemetry_shutdown_closes_all_witness:
  "shutdown_telemetry stubborn_log (set_up two_signals ''sidecar-agent'') [] =
     ([ContextDone], [ShutdownProvider LogSignal, ShutdownProvider MetricSignal])"
proof -
  have valid: "validate_telemetry two_signals = None"
    by (simp add: validate_telemetry_def trace_only_def two_signals_def validate_exporter_def first_some_None
        trim_space_trimmed trimmed_def graphic_def)
  have "ShutdownProvider LogSignal \<notin> set (setup_calls two_signals ''sidecar-agent'' [])"
    by (auto simp: setup_calls_def)
  then have "new_telemetry stubborn_log two_signals ''sidecar-agent'' [] [] =
      (Inr (set_up two_signals ''sidecar-agent''), setup_calls two_signals ''sidecar-agent'' [])"
    unfolding new_telemetry_calls [OF valid] by (simp add: run_calls_stubborn)
  from telemetry_shutdown_closes_all [OF valid this, of "[]"] show ?thesis
    by (simp add: installed_def two_signals_def trace_only_def traces_def stubborn_log_def)
qed

end
