(* ===== verification/Dns.thy ===== *)
theory Dns
  imports Go_Strings Go_Errors "HOL-Library.Word"
begin

text \<open>
  The local DNS server of \<open>src/dns/server.go\<close>: the handlers for mesh names and for all others, \<open>Start\<close>
  with its UDP listener in a goroutine of its own and its TCP listener in the caller's, as a step
  relation, and \<open>Shutdown\<close>. The library \<open>miekg/dns\<close> is a parameter: the multiplexer, \<open>SetReply\<close>,
  \<open>HandleFailed\<close>, the client and the shutdown of a listener.
\<close>

section \<open>Messages\<close>

record dns_question =
  dq_name :: string
  dq_type :: "16 word"
  dq_class :: "16 word"

text \<open>An \<open>A\<close> record, the only kind the code makes.\<close>

record a_record =
  ar_name :: string
  ar_type :: "16 word"
  ar_class :: "16 word"
  ar_ttl :: "32 word"
  ar_address :: "8 word list"

text \<open>Of a message the code reads the questions and writes the flag and the answers; \<open>'h\<close> is the rest.\<close>

datatype 'o answer = ARecord a_record | OtherRecord 'o

record ('h, 'o) dns_msg =
  dm_rest :: 'h
  dm_authoritative :: bool
  dm_questions :: "dns_question list"
  dm_answers :: "'o answer list"

definition type_a :: "16 word" where "type_a = 1"
definition class_inet :: "16 word" where "class_inet = 1"

definition mesh_suffix :: string where
  "mesh_suffix = ''svc.cluster.local.''"

record ('h, 'o) dns_lib =
  dl_set_reply :: "('h, 'o) dns_msg \<Rightarrow> ('h, 'o) dns_msg"
  dl_failed :: "('h, 'o) dns_msg \<Rightarrow> ('h, 'o) dns_msg"
  dl_refused :: "('h, 'o) dns_msg \<Rightarrow> ('h, 'o) dns_msg"
  dl_match :: "string list \<Rightarrow> ('h, 'o) dns_msg \<Rightarrow> string option"
  dl_exchange :: "string \<Rightarrow> ('h, 'o) dns_msg \<Rightarrow> go_error + ('h, 'o) dns_msg"

section \<open>The server and its handlers\<close>

text \<open>The listeners as far as they have been created, with their addresses.\<close>

record dns_server =
  dn_upstream :: string
  dn_udp :: "string option"
  dn_tcp :: "string option"

definition new_dns_server :: "string \<Rightarrow> dns_server" where
  "new_dns_server upstream = \<lparr>dn_upstream = trim_space upstream, dn_udp = None, dn_tcp = None\<rparr>"

definition loopback_answer :: "dns_question \<Rightarrow> a_record" where
  "loopback_answer q =
     \<lparr>ar_name = dq_name q, ar_type = type_a, ar_class = class_inet, ar_ttl = 0, ar_address = [127, 0, 0, 1]\<rparr>"

fun mesh_answers :: "dns_question list \<Rightarrow> 'o answer list" where
  "mesh_answers [] = []"
| "mesh_answers (q # qs) =
     (if dq_type q \<noteq> type_a then mesh_answers qs else ARecord (loopback_answer q) # mesh_answers qs)"

definition handle_mesh_domain :: "('h, 'o) dns_lib \<Rightarrow> ('h, 'o) dns_msg \<Rightarrow> ('h, 'o) dns_msg" where
  "handle_mesh_domain d r =
     (let resp = (dl_set_reply d r)\<lparr>dm_authoritative := True\<rparr>
      in resp\<lparr>dm_answers := dm_answers resp @ mesh_answers (dm_questions r)\<rparr>)"

definition forward :: "('h, 'o) dns_lib \<Rightarrow> dns_server \<Rightarrow> ('h, 'o) dns_msg \<Rightarrow> ('h, 'o) dns_msg" where
  "forward d s r =
     (case dl_exchange d (dn_upstream s) r of Inl _ \<Rightarrow> dl_failed d r | Inr resp \<Rightarrow> resp)"

text \<open>The multiplexer of \<open>handler\<close>; it refuses a message that no pattern matches.\<close>

definition handler :: "('h, 'o) dns_lib \<Rightarrow> dns_server \<Rightarrow> ('h, 'o) dns_msg \<Rightarrow> ('h, 'o) dns_msg" where
  "handler d s r =
     (case dl_match d [mesh_suffix, ''.''] r of
        None \<Rightarrow> dl_refused d r
      | Some p \<Rightarrow> if p = mesh_suffix then handle_mesh_domain d r else forward d s r)"

section \<open>Start\<close>

text \<open>
  A listener serves (from the moment \<open>ListenAndServe\<close> is called) until it ends with the result that
  \<open>ListenAndServe\<close> returns. \<open>Start\<close> waits for the TCP listener, then for the result of the UDP
  listener; \<open>dr_asked\<close> lists the listeners that \<open>Start\<close> itself asked to shut down.
\<close>

datatype listener = Serving | Over "go_error option"

datatype start_at = AtTcp | AtUdp | Returned "go_error option"

datatype net = Udp | Tcp

record dns_run =
  dr_server :: dns_server
  dr_listener :: "net \<Rightarrow> listener"
  dr_at :: start_at
  dr_asked :: "net list"

definition dns_start :: "string \<Rightarrow> dns_server \<Rightarrow> dns_run" where
  "dns_start addr s =
     \<lparr>dr_server = s\<lparr>dn_udp := Some addr, dn_tcp := Some addr\<rparr>, dr_listener = (\<lambda>_. Serving), dr_at = AtTcp,
      dr_asked = []\<rparr>"

inductive dns_step :: "dns_run \<Rightarrow> dns_run \<Rightarrow> bool" where
  Ends: "dr_listener s n = Serving \<Longrightarrow> dns_step s (s\<lparr>dr_listener := (dr_listener s)(n := Over r)\<rparr>)"
| TcpFailed: "dr_at s = AtTcp \<Longrightarrow> dr_listener s Tcp = Over (Some err) \<Longrightarrow>
    dns_step s (s\<lparr>dr_at := Returned (Some err), dr_asked := dr_asked s @ [Udp]\<rparr>)"
| TcpDone: "dr_at s = AtTcp \<Longrightarrow> dr_listener s Tcp = Over None \<Longrightarrow> dns_step s (s\<lparr>dr_at := AtUdp\<rparr>)"
| UdpFailed: "dr_at s = AtUdp \<Longrightarrow> dr_listener s Udp = Over (Some err) \<Longrightarrow>
    dns_step s (s\<lparr>dr_at := Returned (Some err), dr_asked := dr_asked s @ [Tcp]\<rparr>)"
| UdpDone: "dr_at s = AtUdp \<Longrightarrow> dr_listener s Udp = Over None \<Longrightarrow> dns_step s (s\<lparr>dr_at := Returned None\<rparr>)"

inductive dns_steps :: "dns_run \<Rightarrow> dns_run \<Rightarrow> bool" where
  Refl: "dns_steps s s"
| Step: "dns_steps s s' \<Longrightarrow> dns_step s' s'' \<Longrightarrow> dns_steps s s''"

section \<open>Shutdown\<close>

text \<open>\<open>stop\<close> is \<open>ShutdownContext\<close> of one listener, an operation of the world \<open>'w\<close>.\<close>

definition stop_if_created ::
    "(net \<Rightarrow> 'w \<Rightarrow> go_error option \<times> 'w) \<Rightarrow> net \<Rightarrow> string option \<Rightarrow> 'w \<Rightarrow> go_error option \<times> 'w" where
  "stop_if_created stop n created w = (case created of None \<Rightarrow> (None, w) | Some _ \<Rightarrow> stop n w)"

definition dns_shutdown ::
    "(net \<Rightarrow> 'w \<Rightarrow> go_error option \<times> 'w) \<Rightarrow> dns_server \<Rightarrow> 'w \<Rightarrow> go_error option \<times> 'w" where
  "dns_shutdown stop s w =
     (case stop_if_created stop Udp (dn_udp s) w of
        (Some err, w') \<Rightarrow> (Some err, w')
      | (None, w') \<Rightarrow> stop_if_created stop Tcp (dn_tcp s) w')"

end
