(* ===== verification/Dns_Properties.thy ===== *)
theory Dns_Properties
  imports Dns
begin

text \<open>
  What the local DNS server answers, and what \<open>Start\<close> and \<open>Shutdown\<close> of \<open>src/dns/server.go\<close> make of a
  listener that fails.
\<close>

section \<open>Answers\<close>

text \<open>A name lies in a zone when it is the zone or ends in a dot and the zone, letter case aside.\<close>

definition lower :: "char \<Rightarrow> char" where
  "lower c = (if of_char c \<in> {65 .. 90 :: nat} then char_of (of_char c + 32 :: nat) else c)"

definition in_zone :: "string \<Rightarrow> string \<Rightarrow> bool" where
  "in_zone zone name \<longleftrightarrow> map lower name = zone \<or> suffix (CHR ''.'' # zone) (map lower name)"

text \<open>The documented behaviour of the multiplexer, for the two patterns of the code: the closest match.\<close>

definition matches_zones :: "('h, 'o) dns_lib \<Rightarrow> bool" where
  "matches_zones d \<longleftrightarrow> (\<forall>r q qs. dm_questions r = q # qs \<longrightarrow>
     dl_match d [mesh_suffix, ''.''] r = Some (if in_zone mesh_suffix (dq_name q) then mesh_suffix else ''.''))"

lemma mesh_answers_filter:
  "mesh_answers qs = map (\<lambda>q. ARecord (loopback_answer q)) (filter (\<lambda>q. dq_type q = type_a) qs)"
  by (induction qs) simp_all

text \<open>
  What a query with one question is answered. A name under \<open>svc.cluster.local.\<close> is answered by the
  agent itself, authoritatively: an \<open>A\<close> question with the one loopback address, every other question
  type with no address. Any other name gets the answer of the upstream resolver unchanged, or the
  failure reply when the exchange fails.
\<close>

theorem dns_answers:
  assumes "matches_zones d" "dm_questions r = [q]"
  shows "handler d s r =
    (if in_zone mesh_suffix (dq_name q)
     then (dl_set_reply d r)\<lparr>dm_authoritative := True, dm_answers := dm_answers (dl_set_reply d r) @
       (if dq_type q = type_a then [ARecord (loopback_answer q)] else [])\<rparr>
     else (case dl_exchange d (dn_upstream s) r of Inl _ \<Rightarrow> dl_failed d r | Inr resp \<Rightarrow> resp))"
proof -
  have "''.'' \<noteq> mesh_suffix"
    by (simp add: mesh_suffix_def)
  with assms show ?thesis
    by (simp add: handler_def matches_zones_def handle_mesh_domain_def mesh_answers_filter forward_def Let_def)
qed

text \<open>A library that replies with the question, and an upstream that is down.\<close>

definition demo_lib :: "(unit, unit) dns_lib" where
  "demo_lib =
     \<lparr>dl_set_reply = (\<lambda>r. r\<lparr>dm_answers := []\<rparr>), dl_failed = (\<lambda>r. r), dl_refused = (\<lambda>r. r),
      dl_match = (\<lambda>ps r. case dm_questions r of [] \<Rightarrow> None
        | q # _ \<Rightarrow> Some (if in_zone mesh_suffix (dq_name q) then mesh_suffix else ''.'')),
      dl_exchange = (\<lambda>_ _. Inl ContextDone)\<rparr>"

definition demo_query :: "(unit, unit) dns_msg" where
  "demo_query = \<lparr>dm_rest = (), dm_authoritative = False,
     dm_questions = [\<lparr>dq_name = ''user.svc.cluster.local.'', dq_type = type_a, dq_class = class_inet\<rparr>],
     dm_answers = []\<rparr>"

theorem dns_answers_witness:
  "dm_answers (handler demo_lib (new_dns_server ''10.0.0.2:53'') demo_query) =
     [ARecord \<lparr>ar_name = ''user.svc.cluster.local.'', ar_type = 1, ar_class = 1, ar_ttl = 0, ar_address = [127, 0, 0, 1]\<rparr>]"
proof -
  have "matches_zones demo_lib"
    by (simp add: matches_zones_def demo_lib_def)
  moreover have "in_zone mesh_suffix ''user.svc.cluster.local.''"
    by code_simp
  ultimately show ?thesis
    by (subst dns_answers) (auto simp: demo_query_def demo_lib_def loopback_answer_def type_a_def class_inet_def)
qed

section \<open>Listeners that fail\<close>

lemma dns_step_server: "dns_step s s' \<Longrightarrow> dr_server s' = dr_server s"
  by (induction rule: dns_step.induct) simp_all

text \<open>What the position of \<open>Start\<close> says about the listeners.\<close>

definition start_inv :: "dns_run \<Rightarrow> bool" where
  "start_inv s \<longleftrightarrow>
     (case dr_at s of
        AtTcp \<Rightarrow> dr_asked s = []
      | AtUdp \<Rightarrow> dr_listener s Tcp = Over None \<and> dr_asked s = []
      | Returned None \<Rightarrow> dr_listener s Tcp = Over None \<and> dr_listener s Udp = Over None \<and> dr_asked s = []
      | Returned (Some err) \<Rightarrow>
          (dr_listener s Tcp = Over (Some err) \<and> dr_asked s = [Udp]) \<or>
          (dr_listener s Tcp = Over None \<and> dr_listener s Udp = Over (Some err) \<and> dr_asked s = [Tcp]))"

lemma dns_step_inv: "dns_step s s' \<Longrightarrow> start_inv s \<Longrightarrow> start_inv s'"
  by (induction rule: dns_step.induct) (auto simp: start_inv_def split: start_at.splits option.splits)

lemma dns_steps_inv:
  "dns_steps s t \<Longrightarrow> start_inv s \<Longrightarrow> start_inv t \<and> dr_server t = dr_server s"
  by (induction rule: dns_steps.induct) (auto simp: dns_step_server intro: dns_step_inv)

lemma dns_start_inv: "start_inv (dns_start addr s)"
  by (simp add: start_inv_def dns_start_def)

text \<open>
  C39. \<open>Start\<close> returns nil only after both listeners have ended without an error, and an error only if
  one of them ended with it; but while the TCP listener serves, \<open>Start\<close> does not return at all: a UDP
  listener that could not be opened or has failed is not reported and nothing is shut down. \<open>Shutdown\<close>
  then asks the UDP listener first, and when that refuses (it is not serving any more) it returns the
  error and leaves the TCP listener serving.
\<close>

theorem dns_udp_failure_unnoticed:
  assumes "dns_steps (dns_start addr s) t"
  shows "(case dr_at t of
        Returned None \<Rightarrow> dr_listener t Tcp = Over None \<and> dr_listener t Udp = Over None
      | Returned (Some err) \<Rightarrow> dr_listener t Tcp = Over (Some err) \<or>
          (dr_listener t Tcp = Over None \<and> dr_listener t Udp = Over (Some err))
      | _ \<Rightarrow> True) \<and>
    (dr_listener t Tcp = Serving \<longrightarrow> dr_at t = AtTcp \<and> dr_asked t = []) \<and>
    (fst (stop Udp w) \<noteq> None \<longrightarrow> dns_shutdown stop (dr_server t) w = stop Udp w)"
proof -
  have "fst (stop Udp w) \<noteq> None \<longrightarrow> dns_shutdown stop (dr_server t) w = stop Udp w"
    using dns_steps_inv [OF assms dns_start_inv]
    by (auto simp: dns_shutdown_def stop_if_created_def dns_start_def split: prod.splits option.splits)
  with dns_steps_inv [OF assms dns_start_inv] show ?thesis
    by (auto simp: start_inv_def split: start_at.splits option.splits)
qed

text \<open>Shutting down a listener that does not serve is an error of the library; here the address is in use.\<close>

definition stop_serving :: "net \<Rightarrow> (net \<Rightarrow> listener) \<Rightarrow> go_error option \<times> (net \<Rightarrow> listener)" where
  "stop_serving n l =
     (if l n = Serving then (None, l(n := Over None)) else (Some (External ''dns: server not started''), l))"

theorem dns_udp_failure_unnoticed_witness:
  "\<exists>t. dns_steps (dns_start ''127.0.0.1:53'' (new_dns_server ''10.0.0.2:53'')) t \<and>
     dr_listener t Udp = Over (Some (External ''address already in use'')) \<and> dr_at t = AtTcp \<and> dr_asked t = [] \<and>
     dns_shutdown stop_serving (dr_server t) (dr_listener t) =
       (Some (External ''dns: server not started''), dr_listener t) \<and> dr_listener t Tcp = Serving"
proof -
  let ?s = "dns_start ''127.0.0.1:53'' (new_dns_server ''10.0.0.2:53'')"
  let ?t = "?s\<lparr>dr_listener := (dr_listener ?s)(Udp := Over (Some (External ''address already in use'')))\<rparr>"
  have "dns_step ?s ?t"
    by (rule dns_step.Ends) (simp add: dns_start_def)
  then have t: "dns_steps ?s ?t"
    by (rule dns_steps.Step [OF dns_steps.Refl])
  have l: "dr_listener ?t Udp = Over (Some (External ''address already in use''))" "dr_listener ?t Tcp = Serving"
    by (simp_all add: dns_start_def)
  show ?thesis
    using dns_udp_failure_unnoticed [OF t, of stop_serving "dr_listener ?t"] t l
    by (intro exI [of _ ?t]) (simp add: stop_serving_def)
qed

end
