(* ===== verification/Threads.thy ===== *)
theory Threads
  imports Prelude
begin

text \<open>
  Goroutines that share a state and a mutex. A \<open>thread\<close> is what is left of a call to run: a tree of
  atomic steps, each of which reads and changes the shared state and decides what comes next. \<open>alone\<close>
  runs a thread without interruption, \<open>schedule\<close> interleaves the threads of a \<open>pool\<close> in a given order.
  Three groups of facts: a thread run alone inside a pool, a rely-guarantee rule for all interleavings
  (the locale \<open>rely\<close>), and termination and freedom from deadlock.
\<close>

section \<open>Threads\<close>

text \<open>
  A step has its effect on the state and the rest of the thread, which depends on the state it found.
  \<open>Step\<close> needs nothing; \<open>Access\<close> is a critical section of one step, \<open>mu.Lock()\<close> (or \<open>RLock\<close>), one
  access, \<open>mu.Unlock()\<close>; \<open>Lock\<close> and \<open>Unlock\<close> bracket a longer one.
\<close>

datatype ('s, 'r) thread =
    Return 'r
  | Step "'s \<Rightarrow> 's" "'s \<Rightarrow> ('s, 'r) thread"
  | Access "'s \<Rightarrow> 's" "'s \<Rightarrow> ('s, 'r) thread"
  | Lock "('s, 'r) thread"
  | Unlock "('s, 'r) thread"

primrec alone :: "('s, 'r) thread \<Rightarrow> 's \<Rightarrow> 'r \<times> 's" where
  "alone (Return r) = (\<lambda>s. (r, s))"
| "alone (Step f k) = (\<lambda>s. alone (k s) (f s))"
| "alone (Access f k) = (\<lambda>s. alone (k s) (f s))"
| "alone (Lock t) = alone t"
| "alone (Unlock t) = alone t"

primrec bind :: "('s, 'r) thread \<Rightarrow> ('r \<Rightarrow> ('s, 'q) thread) \<Rightarrow> ('s, 'q) thread" where
  "bind (Return r) k = k r"
| "bind (Step f g) k = Step f (\<lambda>s. bind (g s) k)"
| "bind (Access f g) k = Access f (\<lambda>s. bind (g s) k)"
| "bind (Lock t) k = Lock (bind t k)"
| "bind (Unlock t) k = Unlock (bind t k)"

text \<open>A single step with a result, in and out of the mutex; a section under the mutex.\<close>

definition perform :: "('s \<Rightarrow> 'r \<times> 's) \<Rightarrow> ('s, 'r) thread" where
  "perform f = Step (\<lambda>s. snd (f s)) (\<lambda>s. Return (fst (f s)))"

definition access :: "('s \<Rightarrow> 'r \<times> 's) \<Rightarrow> ('s, 'r) thread" where
  "access f = Access (\<lambda>s. snd (f s)) (\<lambda>s. Return (fst (f s)))"

definition locked :: "('s, 'r) thread \<Rightarrow> ('s, 'r) thread" where
  "locked t = Lock (bind t (\<lambda>r. Unlock (Return r)))"

text \<open>\<open>if err != nil { return ..., err }\<close>.\<close>

definition attempt :: "('s, 'e + 'a) thread \<Rightarrow> ('a \<Rightarrow> ('s, 'e + 'b) thread) \<Rightarrow> ('s, 'e + 'b) thread" where
  "attempt t k = bind t (\<lambda>r. case r of Inl e \<Rightarrow> Return (Inl e) | Inr x \<Rightarrow> k x)"

lemma alone_bind: "alone (bind t k) s = (case alone t s of (r, s') \<Rightarrow> alone (k r) s')"
  by (induction t arbitrary: s) simp_all

lemma alone_perform [simp]: "alone (perform f) s = f s"
  by (simp add: perform_def)

lemma alone_access [simp]: "alone (access f) s = f s"
  by (simp add: access_def)

lemma alone_locked [simp]: "alone (locked t) s = alone t s"
  by (simp add: locked_def alone_bind split: prod.splits)

lemma alone_attempt: "alone (attempt t k) s = and_then (alone t s) (\<lambda>x. alone (k x))"
  by (auto simp: attempt_def alone_bind split: prod.splits sum.splits)

text \<open>The mutex is taken when free, released by its holder, and free at the end.\<close>

primrec disciplined :: "('s, 'r) thread \<Rightarrow> bool \<Rightarrow> bool" where
  "disciplined (Return r) = (\<lambda>held. \<not> held)"
| "disciplined (Step f k) = (\<lambda>held. \<forall>s. disciplined (k s) held)"
| "disciplined (Access f k) = (\<lambda>held. \<not> held \<and> (\<forall>s. disciplined (k s) held))"
| "disciplined (Lock t) = (\<lambda>held. \<not> held \<and> disciplined t True)"
| "disciplined (Unlock t) = (\<lambda>held. held \<and> disciplined t False)"

text \<open>Threads of steps only, which may run under the mutex.\<close>

primrec lock_free_code :: "('s, 'r) thread \<Rightarrow> bool" where
  "lock_free_code (Return r) = True"
| "lock_free_code (Step f k) = (\<forall>s. lock_free_code (k s))"
| "lock_free_code (Access f k) = False"
| "lock_free_code (Lock t) = False"
| "lock_free_code (Unlock t) = False"

lemma disciplined_bind:
  "disciplined t h \<Longrightarrow> (\<And>r. disciplined (k r) False) \<Longrightarrow> disciplined (bind t k) h"
  by (induction t arbitrary: h) auto

lemma lock_free_bind:
  "lock_free_code t \<Longrightarrow> (\<And>r. lock_free_code (k r)) \<Longrightarrow> lock_free_code (bind t k)"
  by (induction t) simp_all

lemma lock_free_then_disciplined:
  "lock_free_code t \<Longrightarrow> (\<And>r. disciplined (k r) h) \<Longrightarrow> disciplined (bind t k) h"
  by (induction t) simp_all

lemma lock_free_disciplined: "lock_free_code t \<Longrightarrow> disciplined t False"
  by (induction t) simp_all

lemma disciplined_perform [simp]: "disciplined (perform f) h \<longleftrightarrow> \<not> h" "lock_free_code (perform f)"
  by (simp_all add: perform_def)

lemma disciplined_access [simp]: "disciplined (access f) h \<longleftrightarrow> \<not> h"
  by (auto simp: access_def)

lemma disciplined_locked: "lock_free_code t \<Longrightarrow> disciplined (locked t) False"
  by (auto simp: locked_def intro: lock_free_then_disciplined)

lemma disciplined_attempt:
  "disciplined t False \<Longrightarrow> (\<And>x. disciplined (k x) False) \<Longrightarrow> disciplined (attempt t k) False"
  unfolding attempt_def by (rule disciplined_bind) (auto split: sum.split)

lemma lock_free_attempt:
  "lock_free_code t \<Longrightarrow> (\<And>x. lock_free_code (k x)) \<Longrightarrow> lock_free_code (attempt t k)"
  unfolding attempt_def by (rule lock_free_bind) (auto split: sum.split)

section \<open>Pools and schedules\<close>

record ('s, 'r) pool =
  po_shared :: 's
  po_holder :: "nat option"
  po_threads :: "('s, 'r) thread list"

definition new_pool :: "'s \<Rightarrow> ('s, 'r) thread list \<Rightarrow> ('s, 'r) pool" where
  "new_pool s ts = \<lparr>po_shared = s, po_holder = None, po_threads = ts\<rparr>"

text \<open>\<open>None\<close>: thread \<open>i\<close> does not exist, has returned, or is blocked by the mutex.\<close>

definition step_thread :: "nat \<Rightarrow> ('s, 'r) pool \<Rightarrow> ('s, 'r) pool option" where
  "step_thread i q =
     (if length (po_threads q) \<le> i then None
      else case po_threads q ! i of
        Return r \<Rightarrow> None
      | Step f k \<Rightarrow> Some (q\<lparr>po_shared := f (po_shared q), po_threads := (po_threads q)[i := k (po_shared q)]\<rparr>)
      | Access f k \<Rightarrow>
          (if po_holder q = None
           then Some (q\<lparr>po_shared := f (po_shared q), po_threads := (po_threads q)[i := k (po_shared q)]\<rparr>)
           else None)
      | Lock t \<Rightarrow>
          (if po_holder q = None then Some (q\<lparr>po_holder := Some i, po_threads := (po_threads q)[i := t]\<rparr>) else None)
      | Unlock t \<Rightarrow>
          (if po_holder q = Some i then Some (q\<lparr>po_holder := None, po_threads := (po_threads q)[i := t]\<rparr>) else None))"

text \<open>A schedule names the thread that moves next; \<open>None\<close> when one of them cannot.\<close>

fun schedule :: "nat list \<Rightarrow> ('s, 'r) pool \<Rightarrow> ('s, 'r) pool option" where
  "schedule [] q = Some q"
| "schedule (i # is) q = (case step_thread i q of None \<Rightarrow> None | Some q' \<Rightarrow> schedule is q')"

fun returned :: "('s, 'r) thread \<Rightarrow> bool" where
  "returned (Return r) = True"
| "returned t = False"

lemma schedule_append:
  "schedule (is @ js) q = (case schedule is q of None \<Rightarrow> None | Some q' \<Rightarrow> schedule js q')"
  by (induction "is" arbitrary: q) (auto split: option.splits)

lemma step_thread_invariant:
  assumes "schedule is q = Some q'" "P q" "\<And>i q q'. P q \<Longrightarrow> step_thread i q = Some q' \<Longrightarrow> P q'"
  shows "P q'"
  using assms(1,2) by (induction "is" arbitrary: q) (auto split: option.splits dest: assms(3))

lemma step_thread_length: "step_thread i q = Some q' \<Longrightarrow> length (po_threads q') = length (po_threads q)"
  by (auto simp: step_thread_def split: if_splits thread.splits)

text \<open>A thread that moves while the others rest does what it does alone.\<close>

definition lock_state :: "nat \<Rightarrow> bool \<Rightarrow> nat option" where
  "lock_state i held = (if held then Some i else None)"

lemma run_thread:
  assumes "disciplined t h" "i < length ts"
  shows "\<exists>is. set is \<subseteq> {i} \<and>
    schedule is \<lparr>po_shared = s, po_holder = lock_state i h, po_threads = ts[i := t]\<rparr> =
      Some \<lparr>po_shared = snd (alone t s), po_holder = None, po_threads = ts[i := Return (fst (alone t s))]\<rparr>"
  using assms(1)
proof (induction t arbitrary: s h)
  case (Return r)
  then show ?case
    by (intro exI [of _ "[]"]) (simp add: lock_state_def)
next
  case (Step f k)
  then obtain "is" where "set is \<subseteq> {i}"
    "schedule is \<lparr>po_shared = f s, po_holder = lock_state i h, po_threads = ts[i := k s]\<rparr> =
      Some \<lparr>po_shared = snd (alone (k s) (f s)), po_holder = None, po_threads = ts[i := Return (fst (alone (k s) (f s)))]\<rparr>"
    by (meson disciplined.simps(2) rangeI)
  then show ?case
    using assms(2) by (intro exI [of _ "i # is"]) (simp add: step_thread_def)
next
  case (Access f k)
  then obtain "is" where "set is \<subseteq> {i}" "\<not> h"
    "schedule is \<lparr>po_shared = f s, po_holder = lock_state i h, po_threads = ts[i := k s]\<rparr> =
      Some \<lparr>po_shared = snd (alone (k s) (f s)), po_holder = None, po_threads = ts[i := Return (fst (alone (k s) (f s)))]\<rparr>"
    by (meson disciplined.simps(3) rangeI)
  then show ?case
    using assms(2) by (intro exI [of _ "i # is"]) (simp add: step_thread_def lock_state_def)
next
  case (Lock t)
  then have "\<not> h" "disciplined t True" by simp_all
  with Lock.IH obtain "is" where "set is \<subseteq> {i}"
    "schedule is \<lparr>po_shared = s, po_holder = lock_state i True, po_threads = ts[i := t]\<rparr> =
      Some \<lparr>po_shared = snd (alone t s), po_holder = None, po_threads = ts[i := Return (fst (alone t s))]\<rparr>"
    by meson
  then show ?case
    using assms(2) \<open>\<not> h\<close> by (intro exI [of _ "i # is"]) (simp add: step_thread_def lock_state_def)
next
  case (Unlock t)
  then have "h" "disciplined t False" by simp_all
  with Unlock.IH obtain "is" where "set is \<subseteq> {i}"
    "schedule is \<lparr>po_shared = s, po_holder = lock_state i False, po_threads = ts[i := t]\<rparr> =
      Some \<lparr>po_shared = snd (alone t s), po_holder = None, po_threads = ts[i := Return (fst (alone t s))]\<rparr>"
    by meson
  then show ?case
    using assms(2) \<open>h\<close> by (intro exI [of _ "i # is"]) (simp add: step_thread_def lock_state_def)
qed

section \<open>Termination and freedom from deadlock\<close>

definition remainder :: "(('s, 'r) thread \<times> ('s, 'r) thread) set" where
  "remainder = {(t', t). (\<exists>f k s. (t = Step f k \<or> t = Access f k) \<and> t' = k s) \<or> t = Lock t' \<or> t = Unlock t'}"

lemma wf_remainder: "wf remainder"
proof (rule wfI_pf, rule ccontr)
  fix A :: "('s, 'r) thread set"
  assume A: "A \<subseteq> remainder `` A" and "A \<noteq> {}"
  have "t \<notin> A" for t
    by (induction t) (use A in \<open>auto simp: remainder_def\<close>)
  with \<open>A \<noteq> {}\<close> show False by blast
qed

lemma step_thread_mult:
  assumes "step_thread i q = Some q'"
  shows "(mset (po_threads q'), mset (po_threads q)) \<in> mult remainder"
proof -
  let ?t = "po_threads q ! i" and ?t' = "po_threads q' ! i"
  have i: "i < length (po_threads q)" and q': "po_threads q' = (po_threads q)[i := ?t']"
    and less: "(?t', ?t) \<in> remainder"
    using assms by (auto simp: step_thread_def remainder_def split: if_splits thread.splits)
  have "mset (po_threads q) = add_mset ?t (mset (po_threads q) - {#?t#})"
    using i by (simp add: nth_mem_mset)
  moreover have "mset (po_threads q') = add_mset ?t' (mset (po_threads q) - {#?t#})"
    by (subst q') (simp add: mset_update i)
  ultimately show ?thesis
    using less mult1I [of "mset (po_threads q)" ?t "mset (po_threads q) - {#?t#}" "mset (po_threads q')" "{#?t'#}"]
    by (simp add: mult_def r_into_trancl)
qed

lemma no_infinite_schedule: "\<nexists>qs is. \<forall>n. step_thread (is n) (qs n) = Some (qs (Suc n))"
proof
  assume "\<exists>(qs :: nat \<Rightarrow> ('s, 'r) pool) is. \<forall>n. step_thread (is n) (qs n) = Some (qs (Suc n))"
  then obtain qs :: "nat \<Rightarrow> ('s, 'r) pool" and "is" where "\<And>n. step_thread (is n) (qs n) = Some (qs (Suc n))"
    by blast
  then have "\<And>n. (mset (po_threads (qs (Suc n))), mset (po_threads (qs n))) \<in> mult remainder"
    by (rule step_thread_mult)
  then have "\<exists>f. \<forall>n. (f (Suc n), f n) \<in> mult (remainder :: (('s, 'r) thread \<times> _) set)"
    by (intro exI [of _ "\<lambda>n. mset (po_threads (qs n))"]) blast
  with wf_mult [OF wf_remainder] show False
    unfolding wf_iff_no_infinite_down_chain by blast
qed

definition well_locked :: "('s, 'r) pool \<Rightarrow> bool" where
  "well_locked q \<longleftrightarrow>
     (\<forall>i < length (po_threads q). disciplined (po_threads q ! i) (po_holder q = Some i)) \<and>
     (\<forall>i. po_holder q = Some i \<longrightarrow> i < length (po_threads q))"

lemma well_locked_step:
  assumes "well_locked q" "step_thread i q = Some q'"
  shows "well_locked q'"
proof -
  have i: "i < length (po_threads q)"
    using assms(2) by (simp add: step_thread_def split: if_splits)
  then have t: "disciplined (po_threads q ! i) (po_holder q = Some i)"
    using assms(1) by (simp add: well_locked_def)
  have others: "disciplined (po_threads q ! j) (po_holder q = Some j)" if "j < length (po_threads q)" for j
    using assms(1) that by (simp add: well_locked_def)
  show ?thesis
  proof (cases "po_threads q ! i")
    case (Step f k)
    then have "disciplined (k (po_shared q)) (po_holder q = Some i)"
      using t by simp
    with Step assms others i show ?thesis
      by (auto simp: well_locked_def step_thread_def nth_list_update)
  next
    case (Access f k)
    then have "disciplined (k (po_shared q)) False" "po_holder q = None"
      using t assms(2) i by (auto simp: step_thread_def split: if_splits)
    with Access assms others i show ?thesis
      by (auto simp: well_locked_def step_thread_def nth_list_update)
  next
    case (Lock u)
    then have "disciplined u True" "po_holder q = None"
      using t assms(2) i by (auto simp: step_thread_def split: if_splits)
    with Lock assms others i show ?thesis
      by (auto simp: well_locked_def step_thread_def nth_list_update)
  next
    case (Unlock u)
    then have "disciplined u False" "po_holder q = Some i"
      using t assms(2) i by (auto simp: step_thread_def split: if_splits)
    with Unlock assms(2) others i show ?thesis
      by (force simp: well_locked_def step_thread_def nth_list_update)
  qed (use assms(2) i in \<open>simp add: step_thread_def\<close>)
qed

lemma well_locked_schedule: "well_locked q \<Longrightarrow> schedule is q = Some q' \<Longrightarrow> well_locked q'"
  by (rule step_thread_invariant [of "is" q q' well_locked]) (auto dest: well_locked_step)

lemma new_pool_well_locked: "\<forall>t \<in> set ts. disciplined t False \<Longrightarrow> well_locked (new_pool s ts)"
  by (simp add: well_locked_def new_pool_def)

lemma some_thread_moves:
  assumes "well_locked q" "\<not> list_all returned (po_threads q)"
  shows "\<exists>i q'. step_thread i q = Some q'"
proof (cases "po_holder q")
  case (Some i)
  then have "i < length (po_threads q)" "disciplined (po_threads q ! i) True"
    using assms(1) by (auto simp: well_locked_def)
  then show ?thesis
    using Some by (intro exI [of _ i]) (auto simp: step_thread_def split: thread.splits)
next
  case None
  from assms(2) obtain i where i: "i < length (po_threads q)" "\<not> returned (po_threads q ! i)"
    by (auto simp: list_all_length)
  with assms(1) None have "disciplined (po_threads q ! i) False"
    by (simp add: well_locked_def)
  with i None show ?thesis
    by (intro exI [of _ i]) (auto simp: step_thread_def split: thread.splits)
qed

lemma some_schedule_returns:
  assumes "well_locked q"
  shows "\<exists>is q'. schedule is q = Some q' \<and> list_all returned (po_threads q')"
  using wf_mult [OF wf_remainder] assms
proof (induction "mset (po_threads q)" arbitrary: q rule: wf_induct_rule)
  case less
  show ?case
  proof (cases "list_all returned (po_threads q)")
    case True
    then show ?thesis by (intro exI [of _ "[]"]) simp
  next
    case False
    then obtain i q1 where q1: "step_thread i q = Some q1"
      using some_thread_moves [OF less.prems] by blast
    then obtain "is" q' where "schedule is q1 = Some q'" "list_all returned (po_threads q')"
      using less.hyps [OF step_thread_mult [OF q1]] well_locked_step [OF less.prems q1] by blast
    with q1 show ?thesis
      by (intro exI [of _ "i # is"]) simp
  qed
qed

section \<open>Rely and guarantee\<close>

text \<open>
  \<open>sat R Q t s\<close>: from \<open>s\<close> on, as long as the others change the state by \<open>R\<close> only, so does \<open>t\<close>, and
  what it returns satisfies \<open>Q\<close> then and ever after.
\<close>

primrec sat :: "('s \<Rightarrow> 's \<Rightarrow> bool) \<Rightarrow> ('r \<Rightarrow> 's \<Rightarrow> bool) \<Rightarrow> ('s, 'r) thread \<Rightarrow> 's \<Rightarrow> bool" where
  "sat R Q (Return r) = (\<lambda>s. \<forall>s'. R s s' \<longrightarrow> Q r s')"
| "sat R Q (Step f k) = (\<lambda>s. \<forall>s'. R s s' \<longrightarrow> R s' (f s') \<and> sat R Q (k s') (f s'))"
| "sat R Q (Access f k) = (\<lambda>s. \<forall>s'. R s s' \<longrightarrow> R s' (f s') \<and> sat R Q (k s') (f s'))"
| "sat R Q (Lock t) = sat R Q t"
| "sat R Q (Unlock t) = sat R Q t"

locale rely =
  fixes R :: "'s \<Rightarrow> 's \<Rightarrow> bool"
  assumes refl: "R s s" and trans: "R s s' \<Longrightarrow> R s' s'' \<Longrightarrow> R s s''"
begin

lemma sat_stable: "sat R Q t s \<Longrightarrow> R s s' \<Longrightarrow> sat R Q t s'"
  by (induction t) (auto intro: trans)

lemma sat_bind:
  assumes "sat R Q t s" "\<And>r s'. R s s' \<Longrightarrow> (\<And>s''. R s' s'' \<Longrightarrow> Q r s'') \<Longrightarrow> sat R P (k r) s'"
  shows "sat R P (bind t k) s"
  using assms
proof (induction t arbitrary: s)
  case (Return r)
  then show ?case using refl by simp
next
  case (Step f g)
  have "R s' (f s') \<and> sat R P (bind (g s') k) (f s')" if "R s s'" for s'
  proof
    show step: "R s' (f s')"
      using Step.prems(1) that by simp
    with that have "R s (f s')" by (rule trans)
    then show "sat R P (bind (g s') k) (f s')"
      using Step.prems that by (intro Step.IH) (simp_all, blast intro: trans)
  qed
  then show ?case by simp
next
  case (Access f g)
  have "R s' (f s') \<and> sat R P (bind (g s') k) (f s')" if "R s s'" for s'
  proof
    show step: "R s' (f s')"
      using Access.prems(1) that by simp
    with that have "R s (f s')" by (rule trans)
    then show "sat R P (bind (g s') k) (f s')"
      using Access.prems that by (intro Access.IH) (simp_all, blast intro: trans)
  qed
  then show ?case by simp
qed auto

lemma sat_perform:
  assumes "\<And>s'. R s s' \<Longrightarrow> R s' (snd (f s'))" "\<And>s' s''. R s s' \<Longrightarrow> R (snd (f s')) s'' \<Longrightarrow> Q (fst (f s')) s''"
  shows "sat R Q (perform f) s" "sat R Q (access f) s"
  using assms by (auto simp: perform_def access_def)

lemma sat_locked: "sat R Q t s \<Longrightarrow> sat R Q (locked t) s"
  unfolding locked_def by simp (rule sat_bind, auto)

lemma sat_weaken: "sat R Q t s \<Longrightarrow> (\<And>r s. Q r s \<Longrightarrow> P r s) \<Longrightarrow> sat R P t s"
  by (induction t arbitrary: s) auto

text \<open>The same for threads of which only the effect matters.\<close>

abbreviation sat_any :: "('s, 'r) thread \<Rightarrow> 's \<Rightarrow> bool" where
  "sat_any \<equiv> sat R (\<lambda>_ _. True)"

lemma sat_bind_any:
  "sat R Q t s \<Longrightarrow> (\<And>r s'. R s s' \<Longrightarrow> Q r s' \<Longrightarrow> sat_any (k r) s') \<Longrightarrow> sat_any (bind t k) s"
  using refl by (blast intro: sat_bind)

lemma sat_attempt_any:
  "sat R (\<lambda>r s. \<forall>x. r = Inr x \<longrightarrow> Q x s) t s \<Longrightarrow> (\<And>x s'. R s s' \<Longrightarrow> Q x s' \<Longrightarrow> sat_any (k x) s') \<Longrightarrow>
     sat_any (attempt t k) s"
  unfolding attempt_def
  by (rule sat_bind_any [where Q = "\<lambda>r s. \<forall>x. r = Inr x \<longrightarrow> Q x s"]) (auto split: sum.split)

lemma sat_any_weaken: "sat R Q t s \<Longrightarrow> sat_any t s"
  by (erule sat_weaken) simp

lemma step_thread_sat:
  assumes "step_thread i q = Some q'" "\<forall>t \<in> set (po_threads q). sat R Q t (po_shared q)"
  shows "R (po_shared q) (po_shared q') \<and> (\<forall>t \<in> set (po_threads q'). sat R Q t (po_shared q'))"
proof -
  have i: "i < length (po_threads q)"
    using assms(1) by (simp add: step_thread_def split: if_splits)
  let ?t = "po_threads q ! i"
  have t: "sat R Q ?t (po_shared q)"
    using assms(2) i by simp
  have q': "R (po_shared q) (po_shared q')" "po_threads q' = (po_threads q)[i := po_threads q' ! i]"
    "sat R Q (po_threads q' ! i) (po_shared q')"
    using assms(1) i t refl by (auto simp: step_thread_def split: if_splits thread.splits)
  have "sat R Q u (po_shared q')" if "u \<in> set (po_threads q')" for u
  proof -
    have "u \<in> insert (po_threads q' ! i) (set (po_threads q))"
      using that set_update_subset_insert q'(2) by (metis subsetD)
    then show ?thesis
      using assms(2) q'(1,3) sat_stable by blast
  qed
  with q'(1) show ?thesis by blast
qed

lemma schedule_sat:
  assumes "schedule is q = Some q'" "\<forall>t \<in> set (po_threads q). sat R Q t (po_shared q)"
  shows "R (po_shared q) (po_shared q') \<and> (\<forall>t \<in> set (po_threads q'). sat R Q t (po_shared q'))"
  using assms
proof (induction "is" arbitrary: q)
  case Nil
  then show ?case using refl by simp
next
  case (Cons i "is")
  then obtain q1 where q1: "step_thread i q = Some q1" "schedule is q1 = Some q'"
    by (auto split: option.splits)
  then show ?case
    using Cons.IH [OF q1(2)] step_thread_sat [OF q1(1) Cons.prems(2)] trans by blast
qed

lemma returned_sat:
  assumes "schedule is q = Some q'" "\<forall>t \<in> set (po_threads q). sat R Q t (po_shared q)"
    and "Return r \<in> set (po_threads q')"
  shows "Q r (po_shared q')"
  using schedule_sat [OF assms(1,2)] assms(3) refl by fastforce

end

text \<open>
  Where the mutex protects a part of the state, two relations are needed: \<open>R\<close> for what others may do
  while the thread does not hold the mutex and what it may do itself while it does, and \<open>L\<close>, which
  leaves the protected part alone, the other way round.
\<close>

primrec gsat :: "('s \<Rightarrow> 's \<Rightarrow> bool) \<Rightarrow> ('s \<Rightarrow> 's \<Rightarrow> bool) \<Rightarrow> ('r \<Rightarrow> bool \<Rightarrow> 's \<Rightarrow> bool) \<Rightarrow>
    ('s, 'r) thread \<Rightarrow> bool \<Rightarrow> 's \<Rightarrow> bool" where
  "gsat R L Q (Return r) = (\<lambda>h s. \<forall>s'. (if h then L else R) s s' \<longrightarrow> Q r h s')"
| "gsat R L Q (Step f k) = (\<lambda>h s. \<forall>s'. (if h then L else R) s s' \<longrightarrow>
     (if h then R else L) s' (f s') \<and> gsat R L Q (k s') h (f s'))"
| "gsat R L Q (Access f k) = (\<lambda>h s. \<not> h \<and> (\<forall>s'. R s s' \<longrightarrow> R s' (f s') \<and> gsat R L Q (k s') h (f s')))"
| "gsat R L Q (Lock t) = (\<lambda>h s. \<not> h \<and> (\<forall>s'. R s s' \<longrightarrow> gsat R L Q t True s'))"
| "gsat R L Q (Unlock t) = (\<lambda>h s. h \<and> (\<forall>s'. L s s' \<longrightarrow> gsat R L Q t False s'))"

text \<open>Code that leaves the mutex as it finds it, for threads of which only the effect matters.\<close>

definition keeps_lock ::
    "('s \<Rightarrow> 's \<Rightarrow> bool) \<Rightarrow> ('s \<Rightarrow> 's \<Rightarrow> bool) \<Rightarrow> ('s, 'r) thread \<Rightarrow> bool \<Rightarrow> bool" where
  "keeps_lock R L t h \<longleftrightarrow> (\<forall>s. gsat R L (\<lambda>_ h' _. h' = h) t h s)"

lemma keeps_lock_return [simp]: "keeps_lock R L (Return r) h"
  by (simp add: keeps_lock_def)

locale guarded = rely +
  fixes L :: "'a \<Rightarrow> 'a \<Rightarrow> bool"
  assumes L_refl: "L s s" and L_trans: "L s s' \<Longrightarrow> L s' s'' \<Longrightarrow> L s s''" and L_R: "L s s' \<Longrightarrow> R s s'"
begin

lemma gsat_stable: "gsat R L Q t h s \<Longrightarrow> (if h then L else R) s s' \<Longrightarrow> gsat R L Q t h s'"
  by (cases t) (auto split: if_splits intro: trans L_trans L_R)

lemma gsat_bind:
  assumes "gsat R L Q t h s"
    and "\<And>r h s'. (\<And>s''. (if h then L else R) s' s'' \<Longrightarrow> Q r h s'') \<Longrightarrow> gsat R L P (k r) h s'"
  shows "gsat R L P (bind t k) h s"
  using assms(1)
proof (induction t arbitrary: h s)
  case (Return r)
  then show ?case by (simp add: assms(2))
qed auto

lemma gsat_perform:
  assumes "\<And>s'. (if h then L else R) s s' \<Longrightarrow> (if h then R else L) s' (snd (f s'))"
    and "\<And>s' s''. (if h then L else R) s s' \<Longrightarrow> (if h then L else R) (snd (f s')) s'' \<Longrightarrow> Q (fst (f s')) h s''"
  shows "gsat R L Q (perform f) h s"
  using assms by (simp add: perform_def)

lemma gsat_locked:
  assumes "\<And>s'. R s s' \<Longrightarrow> gsat R L (\<lambda>_ h _. h) t True s'"
  shows "gsat R L (\<lambda>_ _ _. True) (locked t) False s"
proof -
  have "gsat R L (\<lambda>_ _ _. True) (bind t (\<lambda>r. Unlock (Return r))) True s'" if "R s s'" for s'
  proof (rule gsat_bind [OF assms [OF that]])
    fix r :: 'b and h s''
    assume "\<And>u. (if h then L else R) s'' u \<Longrightarrow> h"
    then have h using refl [of s''] L_refl [of s''] by (cases h) auto
    then show "gsat R L (\<lambda>_ _ _. True) (Unlock (Return r)) h s''" by simp
  qed
  then show ?thesis by (simp add: locked_def)
qed

lemma step_thread_gsat:
  assumes "step_thread i q = Some q'"
    and "\<forall>i < length (po_threads q). gsat R L Q (po_threads q ! i) (po_holder q = Some i) (po_shared q)"
  shows "R (po_shared q) (po_shared q') \<and>
    (\<forall>i < length (po_threads q'). gsat R L Q (po_threads q' ! i) (po_holder q' = Some i) (po_shared q'))"
proof -
  have i: "i < length (po_threads q)"
    using assms(1) by (simp add: step_thread_def split: if_splits)
  let ?t = "po_threads q ! i" and ?h = "po_holder q = Some i"
  have t: "gsat R L Q ?t ?h (po_shared q)"
    using assms(2) i by blast
  have others: "gsat R L Q (po_threads q ! j) (po_holder q = Some j) s'"
    if "j < length (po_threads q)" "(if po_holder q = Some j then L else R) (po_shared q) s'" for j s'
  proof (rule gsat_stable)
    show "gsat R L Q (po_threads q ! j) (po_holder q = Some j) (po_shared q)"
      using assms(2) that(1) by blast
    show "(if po_holder q = Some j then L else R) (po_shared q) s'"
      by (rule that(2))
  qed
  show ?thesis
  proof (cases ?t)
    case (Step f k)
    then have step: "(if ?h then R else L) (po_shared q) (f (po_shared q))"
      and cont: "gsat R L Q (k (po_shared q)) ?h (f (po_shared q))"
      using t refl L_refl by (auto split: if_splits)
    have rest: "gsat R L Q (po_threads q ! j) (po_holder q = Some j) (f (po_shared q))"
      if "j < length (po_threads q)" "j \<noteq> i" for j
      by (rule others [OF that(1)]) (use step that(2) L_R in \<open>auto split: if_splits\<close>)
    have q': "q' = q\<lparr>po_shared := f (po_shared q), po_threads := (po_threads q)[i := k (po_shared q)]\<rparr>"
      using assms(1) i Step by (simp add: step_thread_def)
    have "R (po_shared q) (po_shared q')"
      using step L_R by (auto simp: q' split: if_splits)
    then show ?thesis
      using cont rest i by (auto simp: q' nth_list_update)
  next
    case (Access f k)
    then have "R (po_shared q) (f (po_shared q))" "gsat R L Q (k (po_shared q)) False (f (po_shared q))"
      using t refl by auto
    moreover have "po_holder q = None"
      "q' = q\<lparr>po_shared := f (po_shared q), po_threads := (po_threads q)[i := k (po_shared q)]\<rparr>"
      using assms(1) i Access by (auto simp: step_thread_def split: if_splits)
    ultimately show ?thesis
      using others i by (auto simp: nth_list_update)
  next
    case (Lock u)
    then have "gsat R L Q u True (po_shared q)"
      using t refl by auto
    moreover have "po_holder q = None" "q' = q\<lparr>po_holder := Some i, po_threads := (po_threads q)[i := u]\<rparr>"
      using assms(1) i Lock by (auto simp: step_thread_def split: if_splits)
    ultimately show ?thesis
      using assms(2) i refl by (auto simp: nth_list_update)
  next
    case (Unlock u)
    then have "gsat R L Q u False (po_shared q)"
      using t L_refl by auto
    moreover have "po_holder q = Some i" "q' = q\<lparr>po_holder := None, po_threads := (po_threads q)[i := u]\<rparr>"
      using assms(1) i Unlock by (auto simp: step_thread_def split: if_splits)
    ultimately show ?thesis
      using assms(2) i refl by (auto simp: nth_list_update)
  qed (use assms(1) i in \<open>simp add: step_thread_def\<close>)
qed

lemma schedule_threads_gsat:
  assumes "schedule is q = Some q'"
    and "\<forall>i < length (po_threads q). gsat R L Q (po_threads q ! i) (po_holder q = Some i) (po_shared q)"
  shows "R (po_shared q) (po_shared q') \<and>
    (\<forall>i < length (po_threads q'). gsat R L Q (po_threads q' ! i) (po_holder q' = Some i) (po_shared q'))"
  using assms
proof (induction "is" arbitrary: q)
  case Nil
  then show ?case using refl by simp
next
  case (Cons i "is")
  then obtain q1 where q1: "step_thread i q = Some q1" "schedule is q1 = Some q'"
    by (auto split: option.splits)
  then show ?case
    using Cons.IH [OF q1(2)] step_thread_gsat [OF q1(1) Cons.prems(2)] trans by blast
qed

lemmas schedule_gsat = conjunct1 [OF schedule_threads_gsat]

text \<open>A step that is not the holder's, nor a critical section of its own, leaves the protected part alone.\<close>

lemma step_protected:
  assumes "schedule is q = Some q1" "step_thread j q1 = Some q2"
    and "\<forall>i < length (po_threads q). gsat R L Q (po_threads q ! i) (po_holder q = Some i) (po_shared q)"
  shows "L (po_shared q1) (po_shared q2) \<or> po_holder q1 = Some j \<or>
    (po_holder q1 = None \<and> (\<exists>f k. po_threads q1 ! j = Access f k))"
proof -
  have "gsat R L Q (po_threads q1 ! j) (po_holder q1 = Some j) (po_shared q1)"
    using schedule_threads_gsat [OF assms(1,3)] assms(2) by (auto simp: step_thread_def split: if_splits)
  with assms(2) refl L_refl show ?thesis
    by (auto simp: step_thread_def split: if_splits thread.splits)
qed

lemma keeps_lock_bind:
  assumes "keeps_lock R L t h" "\<And>r. keeps_lock R L (k r) h"
  shows "keeps_lock R L (bind t k) h"
  unfolding keeps_lock_def
proof
  fix s
  have "gsat R L (\<lambda>_ h' _. h' = h) t h s"
    using assms(1) by (simp add: keeps_lock_def)
  then show "gsat R L (\<lambda>_ h' _. h' = h) (bind t k) h s"
  proof (rule gsat_bind)
    fix r h' s'
    assume "\<And>s''. (if h' then L else R) s' s'' \<Longrightarrow> h' = h"
    then have "h' = h" using refl [of s'] L_refl [of s'] by (cases h') auto
    then show "gsat R L (\<lambda>_ h' _. h' = h) (k r) h' s'"
      using assms(2) by (simp add: keeps_lock_def)
  qed
qed

lemma keeps_lock_attempt:
  "keeps_lock R L t h \<Longrightarrow> (\<And>x. keeps_lock R L (k x) h) \<Longrightarrow> keeps_lock R L (attempt t k) h"
  unfolding attempt_def by (rule keeps_lock_bind) (auto split: sum.split)

lemma keeps_lock_perform: "(\<And>s. (if h then R else L) s (snd (f s))) \<Longrightarrow> keeps_lock R L (perform f) h"
  unfolding keeps_lock_def by (intro allI gsat_perform) simp_all

lemma keeps_lock_access: "(\<And>s. R s (snd (f s))) \<Longrightarrow> keeps_lock R L (access f) False"
  by (simp add: access_def keeps_lock_def)

lemma keeps_lock_locked:
  assumes "keeps_lock R L t True"
  shows "keeps_lock R L (locked t) False"
proof -
  have "gsat R L (\<lambda>_ h _. h = False) (bind t (\<lambda>r. Unlock (Return r))) True s" for s
  proof -
    have "gsat R L (\<lambda>_ h' _. h' = True) t True s"
      using assms by (simp add: keeps_lock_def)
    then show ?thesis
    proof (rule gsat_bind)
      fix r :: 'b and h' s''
      assume "\<And>u. (if h' then L else R) s'' u \<Longrightarrow> h' = True"
      then have h' using refl [of s''] L_refl [of s''] by (cases h') auto
      then show "gsat R L (\<lambda>_ h _. h = False) (Unlock (Return r)) h' s''" by simp
    qed
  qed
  then show ?thesis
    by (simp add: locked_def keeps_lock_def)
qed

end

end
