(* ===== verification/Registry_Threads.thy ===== *)
theory Registry_Threads
  imports Threads Registry_Lifecycle
begin

text \<open>
  The methods of the registry client as the goroutines run them: \<open>Register\<close>, the lease loop and
  \<open>Shutdown\<close> take the mutex only around each access to the map of local services, \<open>Drain\<close> and
  \<open>Deregister\<close> hold it throughout, and the calls to Consul, the clock and the counters of different
  goroutines interleave freely. Run alone, each thread is the operation of theory \<open>Registry\<close>.
\<close>

section \<open>Single steps\<close>

definition consul_step :: "env \<Rightarrow> consul_call \<Rightarrow> (client, go_error + unit) thread" where
  "consul_step w a = perform (\<lambda>c. call w c a)"

definition now_step :: "env \<Rightarrow> (client, instant) thread" where
  "now_step w = perform (now w)"

definition count_step :: "counter \<Rightarrow> (client, unit) thread" where
  "count_step k = perform (\<lambda>c. ((), count k c))"

definition local_service_step :: "string \<Rightarrow> int \<Rightarrow> (client, local_service option) thread" where
  "local_service_step name port = access (\<lambda>c. (find_local_service c name port, c))"

definition store_step :: "local_service \<Rightarrow> (client, unit) thread" where
  "store_step s = access (\<lambda>c. ((), store_local_service s c))"

definition active_step :: "env \<Rightarrow> (client, local_service list) thread" where
  "active_step w = access (\<lambda>c. (active_local_services w c, c))"

definition pass_lease_step :: "env \<Rightarrow> local_service \<Rightarrow> (client, go_error + unit) thread" where
  "pass_lease_step w s = consul_step w (UpdateTTL (ls_lease_check_id s) ''agent ownership is healthy'' ''passing'')"

text \<open>A call whose answer the code uses.\<close>

definition query_step :: "env \<Rightarrow> consul_call \<Rightarrow> (client \<Rightarrow> 'a) \<Rightarrow> (client, go_error + 'a) thread" where
  "query_step w a answer = perform (\<lambda>c. case call w c a of
     (Inl e, c') \<Rightarrow> (Inl e, c') | (Inr _, c') \<Rightarrow> (Inr (answer c), c'))"

section \<open>Register\<close>

definition ensure_route_document_thread ::
    "env \<Rightarrow> string \<Rightarrow> route_document \<Rightarrow> (client, go_error + unit) thread" where
  "ensure_route_document_thread w key doc =
     attempt (query_step w (KVGet key) (\<lambda>c. kv_value w (history c) key)) (\<lambda>existing.
       let check =
         (case existing of
            None \<Rightarrow> None
          | Some value \<Rightarrow>
              if value = [] then None
              else (case unmarshal_doc w value of
                      Inl e \<Rightarrow> Some e
                    | Inr old \<Rightarrow> if \<not> route_equal old doc then Some (RouteConflict key) else None))
       in case check of
         Some e \<Rightarrow> Return (Inl e)
       | None \<Rightarrow> (case marshal_document w doc of
                    Inl e \<Rightarrow> Return (Inl e)
                  | Inr payload \<Rightarrow> consul_step w (KVPut key payload)))"

definition new_instance_id_thread :: "env \<Rightarrow> (client, go_error + string) thread" where
  "new_instance_id_thread w =
     attempt (perform (\<lambda>c. (case random_bytes w (history c) of None \<Rightarrow> Inl (External ''rand'') | Some b \<Rightarrow> Inr b,
         c\<lparr>history := history c @ [RandomRead]\<rparr>))) (\<lambda>buffer.
       bind (now_step w) (\<lambda>t. Return (Inr (instance_id buffer (unix_milli t)))))"

definition register_replay_thread :: "env \<Rightarrow> local_service \<Rightarrow> (client, go_error + local_service) thread" where
  "register_replay_thread w existing =
     attempt (pass_lease_step w existing) (\<lambda>_. bind (now_step w) (\<lambda>t.
       let s = existing\<lparr>ls_updated_at := t\<rparr> in bind (store_step s) (\<lambda>_. Return (Inr s))))"

definition register_retire_thread :: "env \<Rightarrow> local_service \<Rightarrow> (client, go_error + unit) thread" where
  "register_retire_thread w existing =
     attempt (consul_step w (ServiceDeregister (ls_instance_id existing))) (\<lambda>_. bind (now_step w) (\<lambda>t.
       bind (store_step (existing\<lparr>ls_state := StateDeregistered, ls_updated_at := t\<rparr>)) (\<lambda>_. Return (Inr ()))))"

definition register_instance_thread ::
    "env \<Rightarrow> register_request \<Rightarrow> string \<Rightarrow> (client, go_error + local_service) thread" where
  "register_instance_thread w r iid =
     bind (perform (\<lambda>c. case now w c of (t, c1) \<Rightarrow> (new_local_service c1 r iid t, c1))) (\<lambda>s.
     attempt (perform (\<lambda>c. call w c (ServiceRegister (registration_for c s)))) (\<lambda>_.
     attempt (pass_lease_step w s) (\<lambda>_. bind (now_step w) (\<lambda>t'.
       let s' = s\<lparr>ls_state := StateServing, ls_updated_at := t'\<rparr>
       in bind (store_step s') (\<lambda>_. bind (count_step RegisterTotal) (\<lambda>_. Return (Inr s')))))))"

definition register_fresh_thread ::
    "env \<Rightarrow> register_request \<Rightarrow> (client, go_error + local_service) thread" where
  "register_fresh_thread w r =
     bind (perform (\<lambda>c. case now w c of (t, c1) \<Rightarrow>
         ((t, route_config_ref (cl_settings c) (rr_env r) (rr_namespace r) (rr_name r)), c1))) (\<lambda>(t, key).
     attempt (ensure_route_document_thread w key (route_document_for r t)) (\<lambda>_.
     attempt (new_instance_id_thread w) (\<lambda>iid. register_instance_thread w r iid)))"

definition register_found_thread ::
    "env \<Rightarrow> register_request \<Rightarrow> local_service option \<Rightarrow> (client, go_error + local_service) thread" where
  "register_found_thread w r found =
     (case found of
        None \<Rightarrow> register_fresh_thread w r
      | Some existing \<Rightarrow>
          if ls_state existing = StateDeregistered then register_fresh_thread w r
          else if same_register_request (ls_request existing) r then register_replay_thread w existing
          else attempt (register_retire_thread w existing) (\<lambda>_. register_fresh_thread w r))"

definition register_thread :: "env \<Rightarrow> register_request \<Rightarrow> (client, go_error + local_service) thread" where
  "register_thread w r =
     bind (perform (\<lambda>c. (validate_register (range_fields w (history c)) r, c))) (\<lambda>e. case e of
       Some err \<Rightarrow> Return (Inl err)
     | None \<Rightarrow> bind (local_service_step (rr_name r) (rr_port r)) (register_found_thread w r))"

section \<open>Drain and Deregister\<close>

definition drain_thread :: "env \<Rightarrow> drain_request \<Rightarrow> (client, go_error + local_service) thread" where
  "drain_thread w r =
     (case validate_drain r of
        Some e \<Rightarrow> Return (Inl e)
      | None \<Rightarrow>
      case grace_period r of
        Inl e \<Rightarrow> Return (Inl e)
      | Inr grace \<Rightarrow>
      locked (bind (perform (\<lambda>c. (find_local_service c (dr_name r) (dr_port r), c))) (\<lambda>found. case found of
        None \<Rightarrow> Return (Inl (ServiceNotFound (dr_name r) (dr_port r)))
      | Some s \<Rightarrow>
          attempt (consul_step w (EnableServiceMaintenance (ls_instance_id s) ''draining by sidecar-agent'')) (\<lambda>_.
          bind (now_step w) (\<lambda>t. bind (now_step w) (\<lambda>t'.
            let s' = s\<lparr>ls_state := StateDraining, ls_updated_at := t', ls_drain_deadline := Some (t + grace)\<rparr>
            in bind (perform (\<lambda>c. ((), c\<lparr>cl_local_services :=
                   AList.update (local_key (dr_name r) (dr_port r)) s' (cl_local_services c)\<rparr>)))
                 (\<lambda>_. bind (count_step DrainTotal) (\<lambda>_. Return (Inr s')))))))))"

definition deregister_thread :: "env \<Rightarrow> deregister_request \<Rightarrow> (client, go_error + local_service) thread" where
  "deregister_thread w r =
     (case validate_deregister r of
        Some e \<Rightarrow> Return (Inl e)
      | None \<Rightarrow>
      locked (bind (perform (\<lambda>c. (find_local_service c (de_name r) (de_port r), c))) (\<lambda>found. case found of
        None \<Rightarrow> Return (Inl (ServiceNotFound (de_name r) (de_port r)))
      | Some s \<Rightarrow>
          attempt (consul_step w (ServiceDeregister (ls_instance_id s))) (\<lambda>_. bind (now_step w) (\<lambda>t.
            let s' = s\<lparr>ls_state := StateDeregistered, ls_updated_at := t, ls_drain_deadline := None\<rparr>
            in bind (perform (\<lambda>c. ((), c\<lparr>cl_local_services :=
                   AList.update (local_key (de_name r) (de_port r)) s' (cl_local_services c)\<rparr>)))
                 (\<lambda>_. bind (count_step DeregisterTotal) (\<lambda>_. Return (Inr s'))))))))"

section \<open>The lease loop, Shutdown, and the queries\<close>

fun renew_leases_thread :: "env \<Rightarrow> local_service list \<Rightarrow> (client, unit) thread" where
  "renew_leases_thread w [] = Return ()"
| "renew_leases_thread w (s # ss) = bind (pass_lease_step w s) (\<lambda>_. renew_leases_thread w ss)"

text \<open>One tick of the loop.\<close>

definition lease_tick_thread :: "env \<Rightarrow> (client, unit) thread" where
  "lease_tick_thread w = bind (active_step w) (renew_leases_thread w)"

fun deregister_all_thread :: "env \<Rightarrow> local_service list \<Rightarrow> (client, go_error + unit) thread" where
  "deregister_all_thread w [] = Return (Inr ())"
| "deregister_all_thread w (s # ss) =
     attempt (consul_step w (ServiceDeregister (ls_instance_id s))) (\<lambda>_. bind (now_step w) (\<lambda>t.
       bind (store_step (s\<lparr>ls_state := StateDeregistered, ls_updated_at := t\<rparr>)) (\<lambda>_. deregister_all_thread w ss)))"

text \<open>What \<open>Shutdown\<close> does once the lease loop has ended.\<close>

definition shutdown_thread :: "env \<Rightarrow> (client, go_error + unit) thread" where
  "shutdown_thread w =
     bind (perform (\<lambda>c. ((), c\<lparr>cl_lease_running := False\<rparr>))) (\<lambda>_.
     bind (active_step w) (deregister_all_thread w))"

definition local_services_thread :: "env \<Rightarrow> (client, local_service list) thread" where
  "local_services_thread w = access (\<lambda>c. (local_services_list w c, c))"

fun discover_names_thread ::
    "env \<Rightarrow> service_instance list \<Rightarrow> string list \<Rightarrow> (client, go_error + service_instance list) thread" where
  "discover_names_thread w instances [] = Return (Inr instances)"
| "discover_names_thread w instances (name # names) =
     attempt (query_step w (HealthService name True)
         (\<lambda>c. List.map_filter (visible_instance c) (health_entries w (history c) name True)))
       (\<lambda>found. discover_names_thread w (instances @ found) names)"

definition discover_thread :: "env \<Rightarrow> (client, go_error + service_instance list) thread" where
  "discover_thread w =
     attempt (query_step w CatalogServices (\<lambda>c. catalog_names w (history c))) (\<lambda>names.
     attempt (discover_names_thread w [] names) (\<lambda>instances. Return (Inr (sort_instances w instances))))"

section \<open>All methods\<close>

datatype registry_call = Register register_request | Drain drain_request | Deregister deregister_request
  | LeaseTick | Shutdown | LocalServices | Discover

datatype registry_reply = Service "go_error + local_service" | Status "go_error + unit"
  | Services "local_service list" | Instances "go_error + service_instance list"

definition reply :: "('a \<Rightarrow> registry_reply) \<Rightarrow> (client, 'a) thread \<Rightarrow> (client, registry_reply) thread" where
  "reply f t = bind t (\<lambda>r. Return (f r))"

fun goroutine :: "env \<Rightarrow> registry_call \<Rightarrow> (client, registry_reply) thread" where
  "goroutine w (Register r) = reply Service (register_thread w r)"
| "goroutine w (Drain r) = reply Service (drain_thread w r)"
| "goroutine w (Deregister r) = reply Service (deregister_thread w r)"
| "goroutine w LeaseTick = reply (\<lambda>_. Status (Inr ())) (lease_tick_thread w)"
| "goroutine w Shutdown = reply Status (shutdown_thread w)"
| "goroutine w LocalServices = reply Services (local_services_thread w)"
| "goroutine w Discover = reply Instances (discover_thread w)"

text \<open>The same methods as one step each.\<close>

fun atomic :: "env \<Rightarrow> registry_call \<Rightarrow> client \<Rightarrow> registry_reply \<times> client" where
  "atomic w (Register r) c = map_prod Service id (register w c r)"
| "atomic w (Drain r) c = map_prod Service id (drain w c r)"
| "atomic w (Deregister r) c = map_prod Service id (deregister w c r)"
| "atomic w LeaseTick c = (Status (Inr ()), lease_tick w c)"
| "atomic w Shutdown c = map_prod Status id (shutdown w c)"
| "atomic w LocalServices c = (Services (local_services_list w c), c)"
| "atomic w Discover c = map_prod Instances id (discover w c)"

section \<open>Run alone\<close>

lemmas step_defs = consul_step_def now_step_def count_step_def local_service_step_def store_step_def
  active_step_def pass_lease_step_def query_step_def

lemma alone_ensure_route_document:
  "alone (ensure_route_document_thread w key doc) c = ensure_route_document w c key doc"
  by (auto simp: ensure_route_document_thread_def ensure_route_document_def alone_attempt step_defs Let_def
      split: prod.splits sum.splits option.splits intro!: and_then_cong)

lemma alone_new_instance_id: "alone (new_instance_id_thread w) c = new_instance_id w c"
  by (auto simp: new_instance_id_thread_def new_instance_id_def alone_attempt alone_bind step_defs Let_def
      split: prod.splits option.splits)

lemma alone_register_replay: "alone (register_replay_thread w e) c = register_replay w c e"
  by (auto simp: register_replay_thread_def register_replay_def pass_lease_def alone_attempt alone_bind step_defs Let_def
      split: prod.splits intro!: and_then_cong)

lemma alone_register_retire: "alone (register_retire_thread w e) c = register_retire w c e"
  by (auto simp: register_retire_thread_def register_retire_def alone_attempt alone_bind step_defs Let_def
      split: prod.splits intro!: and_then_cong)

lemma alone_register_instance: "alone (register_instance_thread w r iid) c = register_instance w c r iid"
proof -
  have "registration_for c' s = registration_for c1 s" if "quiet c1 c'" for c' c1 s
    using that by (simp add: registration_for_def quiet_frame Let_def)
  then show ?thesis
    by (auto simp: register_instance_thread_def register_instance_def pass_lease_def alone_attempt alone_bind step_defs
        Let_def split: prod.splits intro!: and_then_cong)
qed

lemma alone_register_fresh: "alone (register_fresh_thread w r) c = register_fresh w c r"
  by (auto simp: register_fresh_thread_def register_fresh_def alone_attempt alone_bind alone_ensure_route_document
      alone_new_instance_id alone_register_instance now_def split: prod.splits intro!: and_then_cong)

lemma alone_register_found:
  "alone (register_found_thread w r found) c =
     (case found of
        None \<Rightarrow> register_fresh w c r
      | Some existing \<Rightarrow>
          if ls_state existing = StateDeregistered then register_fresh w c r
          else if same_register_request (ls_request existing) r then register_replay w c existing
          else and_then (register_retire w c existing) (\<lambda>_ c1. register_fresh w c1 r))"
  by (auto simp: register_found_thread_def alone_attempt alone_register_fresh alone_register_replay
      alone_register_retire split: option.splits intro!: and_then_cong)

lemma alone_register: "alone (register_thread w r) c = register w c r"
  by (auto simp: register_thread_def register_def alone_bind alone_register_found step_defs split: option.splits)

lemma alone_drain: "alone (drain_thread w r) c = drain w c r"
  by (auto simp: drain_thread_def drain_def alone_bind alone_attempt step_defs Let_def
      split: option.splits sum.splits prod.splits intro!: and_then_cong)

lemma alone_deregister: "alone (deregister_thread w r) c = deregister w c r"
  by (auto simp: deregister_thread_def deregister_def alone_bind alone_attempt step_defs Let_def
      split: option.splits sum.splits prod.splits intro!: and_then_cong)

lemma alone_renew_leases: "alone (renew_leases_thread w ss) c = ((), renew_leases w c ss)"
  by (induction ss arbitrary: c) (auto simp: alone_bind step_defs pass_lease_def split: prod.splits)

lemma alone_lease_tick: "alone (lease_tick_thread w) c = ((), lease_tick w c)"
  by (simp add: lease_tick_thread_def lease_tick_def alone_bind alone_renew_leases step_defs)

lemma alone_deregister_all: "alone (deregister_all_thread w ss) c = deregister_all w c ss"
  by (induction ss arbitrary: c)
    (auto simp: alone_attempt alone_bind step_defs split: prod.splits intro!: and_then_cong)

lemma alone_shutdown: "alone (shutdown_thread w) c = shutdown w c"
  by (simp add: shutdown_thread_def shutdown_def alone_bind alone_deregister_all step_defs Let_def)

lemma alone_query: "alone (query_step w a f) c = and_then (call w c a) (\<lambda>_ c'. (Inr (f c), c'))"
  by (auto simp: query_step_def split: prod.splits sum.splits)

lemma alone_discover_names: "alone (discover_names_thread w is ns) c = discover_names w c is ns"
  by (induction ns arbitrary: "is" c) (simp_all add: alone_attempt alone_query and_then_assoc Let_def)

lemma alone_discover: "alone (discover_thread w) c = discover w c"
  by (simp add: discover_thread_def discover_def alone_attempt alone_query and_then_assoc alone_discover_names Let_def)

section \<open>The mutex\<close>

lemmas step_disciplined [simp] = disciplined_perform disciplined_access

lemma fresh_disciplined: "disciplined (register_fresh_thread w r) False"
  unfolding register_fresh_thread_def register_instance_thread_def new_instance_id_thread_def
    ensure_route_document_thread_def step_defs Let_def
  by (auto intro!: disciplined_bind disciplined_attempt split: option.splits sum.splits)

lemma register_found_disciplined: "disciplined (register_found_thread w r found) False"
  unfolding register_found_thread_def register_replay_thread_def register_retire_thread_def step_defs Let_def
  by (auto intro!: disciplined_bind disciplined_attempt fresh_disciplined split: option.splits)

lemma register_disciplined: "disciplined (register_thread w r) False"
  unfolding register_thread_def step_defs
  by (auto intro!: disciplined_bind register_found_disciplined split: option.splits)

lemma drain_disciplined: "disciplined (drain_thread w r) False"
  unfolding drain_thread_def step_defs Let_def
  by (auto intro!: disciplined_locked lock_free_bind lock_free_attempt split: option.splits sum.splits)

lemma deregister_disciplined: "disciplined (deregister_thread w r) False"
  unfolding deregister_thread_def step_defs Let_def
  by (auto intro!: disciplined_locked lock_free_bind lock_free_attempt split: option.splits)

lemma renew_leases_disciplined: "disciplined (renew_leases_thread w ss) False"
  by (induction ss) (auto simp: step_defs intro!: disciplined_bind)

lemma deregister_all_disciplined: "disciplined (deregister_all_thread w ss) False"
  by (induction ss) (auto simp: step_defs intro!: disciplined_bind disciplined_attempt)

lemma discover_names_disciplined: "disciplined (discover_names_thread w is ns) False"
  by (induction ns arbitrary: "is") (auto simp: step_defs intro!: disciplined_attempt)

lemma goroutine_disciplined: "disciplined (goroutine w q) False"
  by (cases q)
    (auto simp: reply_def lease_tick_thread_def shutdown_thread_def local_services_thread_def discover_thread_def
      step_defs intro!: disciplined_bind disciplined_attempt register_disciplined drain_disciplined
      deregister_disciplined renew_leases_disciplined deregister_all_disciplined discover_names_disciplined)

end
