(* ===== verification/Registry_Interleaving.thy ===== *)
theory Registry_Interleaving
  imports Registry_Threads
begin

text \<open>
  What survives when the methods of the registry client run concurrently, and what does not. The rely
  and guarantee of every goroutine is \<open>tracks\<close>: the identity of the agent stays, effects are appended,
  and the invariant and the agreement with Consul are kept.
\<close>

section \<open>The common rely and guarantee\<close>

definition good :: "client \<Rightarrow> bool" where
  "good c \<longleftrightarrow> client_inv c \<and> tracked c"

definition tracks :: "client \<Rightarrow> client \<Rightarrow> bool" where
  "tracks c c' \<longleftrightarrow> same_identity c c' \<and> prefix (history c) (history c') \<and> (good c \<longrightarrow> good c')"

text \<open>What a goroutine that holds a copy of a stored service knows about it.\<close>

definition knows :: "client \<Rightarrow> local_service \<Rightarrow> bool" where
  "knows c s \<longleftrightarrow> service_ok c (key_of s) s \<and> told (calls_of (history c)) s"

lemma tracks_refl: "tracks c c"
  by (simp add: tracks_def same_identity_def)

lemma tracks_trans: "tracks c d \<Longrightarrow> tracks d e \<Longrightarrow> tracks c e"
  by (auto simp: tracks_def same_identity_def intro: prefix_order.trans)

interpretation tr: rely tracks
  by unfold_locales (fact tracks_refl, fact tracks_trans)

lemma quiet_tracks: "quiet c c' \<Longrightarrow> tracks c c'"
  using quiet_evolves [of c c'] quiet_tracked [of c c'] by (auto simp: tracks_def evolves_def good_def)

lemma tracks_good: "tracks c c' \<Longrightarrow> good c \<Longrightarrow> good c'"
  by (simp add: tracks_def)

lemma tracks_calls: "tracks c c' \<Longrightarrow> set (calls_of (history c)) \<subseteq> set (calls_of (history c'))"
  by (simp add: tracks_def calls_prefix)

lemma tracks_knows: "tracks c c' \<Longrightarrow> knows c s \<Longrightarrow> knows c' s"
  using told_mono [OF _ tracks_calls] by (auto simp: knows_def tracks_def service_ok_cong)

lemma store_tracks:
  assumes "knows c s" "key_of s = k"
  shows "tracks c (c\<lparr>cl_local_services := AList.update k s (cl_local_services c)\<rparr>)"
  using assms store_evolves [of c k s] update_tracked [of c _ k s]
  by (auto simp: tracks_def evolves_def good_def knows_def)

section \<open>Steps\<close>

lemma call_told: "fst (call w c a) = Inr x \<Longrightarrow> (a, None) \<in> set (calls_of (history (snd (call w c a))))"
  by (auto simp: call_def Let_def split: option.splits)

lemma registration_id: "rg_id (registration_for c s) = ls_instance_id s"
  by (simp add: registration_for_def Let_def)

lemma sat_call:
  "sat tracks (\<lambda>r c. \<forall>x. r = Inr x \<longrightarrow> (a, None) \<in> set (calls_of (history c))) (consul_step w a) c"
  unfolding consul_step_def
proof (rule tr.sat_perform(1))
  show "tracks c' (snd (call w c' a))" for c'
    by (rule quiet_tracks) (rule call_quiet)
  fix c' c''
  assume "tracks (snd (call w c' a)) c''"
  then show "\<forall>x. fst (call w c' a) = Inr x \<longrightarrow> (a, None) \<in> set (calls_of (history c''))"
    using call_told [of w c' a] tracks_calls by (metis subsetD)
qed

text \<open>A step that changes the history only.\<close>

lemma sat_quiet:
  "(\<And>c. quiet c (snd (f c))) \<Longrightarrow> tr.sat_any (perform f) c" "(\<And>c. quiet c (snd (f c))) \<Longrightarrow> tr.sat_any (access f) c"
  by (rule tr.sat_perform; simp add: quiet_tracks)+

lemma sat_now: "tr.sat_any (now_step w) c"
  unfolding now_step_def by (rule sat_quiet) (rule now_quiet)

lemma sat_count: "tr.sat_any (count_step k) c"
  unfolding count_step_def by (rule sat_quiet) (simp add: count_quiet)

lemma sat_query: "tr.sat_any (query_step w a f) c"
  unfolding query_step_def
  by (rule sat_quiet) (use call_quiet [of _ w a] in \<open>auto split: prod.splits sum.splits, (metis snd_conv)+\<close>)

lemma sat_attempt_quiet:
  "tr.sat_any t c \<Longrightarrow> (\<And>x c'. tracks c c' \<Longrightarrow> tr.sat_any (k x) c') \<Longrightarrow> tr.sat_any (attempt t k) c"
  by (rule tr.sat_attempt_any [where Q = "\<lambda>_ _. True"]) simp_all

lemma sat_bind_quiet:
  "tr.sat_any t c \<Longrightarrow> (\<And>x c'. tracks c c' \<Longrightarrow> tr.sat_any (k x) c') \<Longrightarrow> tr.sat_any (bind t k) c"
  by (rule tr.sat_bind_any [where Q = "\<lambda>_ _. True"]) simp_all

lemma sat_lease: "tr.sat_any (pass_lease_step w s) c"
  unfolding pass_lease_step_def by (rule tr.sat_any_weaken) (rule sat_call)

lemma sat_consul: "tr.sat_any (consul_step w a) c"
  by (rule tr.sat_any_weaken) (rule sat_call)

lemma sat_find:
  assumes "good c"
  shows "sat tracks (\<lambda>found c. \<forall>s. found = Some s \<longrightarrow> knows c s \<and> key_of s = local_key name port)
    (access (\<lambda>c. (find_local_service c name port, c))) c"
    and "sat tracks (\<lambda>found c. \<forall>s. found = Some s \<longrightarrow> knows c s \<and> key_of s = local_key name port)
    (perform (\<lambda>c. (find_local_service c name port, c))) c"
proof -
  have "knows c'' s \<and> key_of s = local_key name port"
    if "tracks c c'" "find_local_service c' name port = Some s" "tracks c' c''" for c' c'' s
  proof -
    have "good c'" using that(1) assms by (rule tracks_good)
    then have "service_ok c' (local_key name port) s" "told (calls_of (history c')) s"
      using that(2) by (simp_all add: good_def local_service_ok local_told)
    then have "knows c' s" "key_of s = local_key name port"
      by (auto simp: knows_def key_of_def service_ok_def Let_def)
    then show ?thesis using that(3) tracks_knows by simp
  qed
  then have after: "\<forall>s. find_local_service c' name port = Some s \<longrightarrow> knows c'' s \<and> key_of s = local_key name port"
    if "tracks c c'" "tracks c' c''" for c' c''
    using that by blast
  show "sat tracks (\<lambda>found c. \<forall>s. found = Some s \<longrightarrow> knows c s \<and> key_of s = local_key name port)
    (access (\<lambda>c. (find_local_service c name port, c))) c"
    by (rule tr.sat_perform(2)) (simp_all add: tracks_refl after)
  show "sat tracks (\<lambda>found c. \<forall>s. found = Some s \<longrightarrow> knows c s \<and> key_of s = local_key name port)
    (perform (\<lambda>c. (find_local_service c name port, c))) c"
    by (rule tr.sat_perform(1)) (simp_all add: tracks_refl after)
qed

lemma sat_active:
  assumes "good c" "go_runtime w"
  shows "sat tracks (\<lambda>ss c. \<forall>s \<in> set ss. knows c s) (active_step w) c"
  unfolding active_step_def
proof (rule tr.sat_perform(2))
  fix c' c''
  assume "tracks c c'" "tracks (snd (active_local_services w c', c')) c''"
  then have "good c'" "tracks c' c''" using assms(1) tracks_good by simp_all
  have "knows c' s" if "s \<in> set (active_local_services w c')" for s
  proof -
    have "service_ok c' (key_of s) s"
      using active_service_ok(1) [OF _ assms(2) that] \<open>good c'\<close> by (simp add: good_def key_of_def)
    moreover have "told (calls_of (history c')) s"
      using that \<open>good c'\<close> assms(2)
      by (auto simp: good_def tracked_def active_local_services_def go_runtime_def permutes_set)
    ultimately show ?thesis by (simp add: knows_def)
  qed
  with \<open>tracks c' c''\<close> show "\<forall>s \<in> set (fst (active_local_services w c', c')). knows c'' s"
    by (auto intro: tracks_knows)
qed (simp add: tracks_refl)

lemma sat_store: "knows c s \<Longrightarrow> tr.sat_any (store_step s) c"
  unfolding store_step_def
  by (rule tr.sat_perform) (auto simp: store_local_service_def key_of_def intro: store_tracks tracks_knows)

lemma knows_touch:
  "knows c s \<Longrightarrow> knows c (s\<lparr>ls_updated_at := t\<rparr>)"
  "knows c s \<Longrightarrow> (ServiceDeregister (ls_instance_id s), None) \<in> set (calls_of (history c)) \<Longrightarrow>
     knows c (s\<lparr>ls_state := StateDeregistered, ls_updated_at := t\<rparr>)"
  "knows c s \<Longrightarrow> (ServiceDeregister (ls_instance_id s), None) \<in> set (calls_of (history c)) \<Longrightarrow>
     knows c (s\<lparr>ls_state := StateDeregistered, ls_updated_at := t, ls_drain_deadline := None\<rparr>)"
  "knows c s \<Longrightarrow>
     (EnableServiceMaintenance (ls_instance_id s) ''draining by sidecar-agent'', None) \<in> set (calls_of (history c)) \<Longrightarrow>
     knows c (s\<lparr>ls_state := StateDraining, ls_updated_at := t, ls_drain_deadline := Some d\<rparr>)"
  by (auto simp: knows_def key_of_def told_def service_ok_touch)

section \<open>The methods\<close>

lemma sat_replay: "knows c e \<Longrightarrow> tr.sat_any (register_replay_thread w e) c"
  unfolding register_replay_thread_def Let_def
  by (intro sat_attempt_quiet sat_lease sat_bind_quiet sat_now sat_store)
    (auto intro: knows_touch tracks_knows)

text \<open>Removing an instance and storing it as deregistered, in \<open>Register\<close> and in \<open>Shutdown\<close>.\<close>

lemma sat_remove:
  assumes "knows c s" "\<And>c'. tracks c c' \<Longrightarrow> tr.sat_any k c'"
  shows "tr.sat_any (attempt (consul_step w (ServiceDeregister (ls_instance_id s))) (\<lambda>_. bind (now_step w) (\<lambda>t.
     bind (store_step (s\<lparr>ls_state := StateDeregistered, ls_updated_at := t\<rparr>)) (\<lambda>_. k)))) c"
proof (rule tr.sat_attempt_any [OF sat_call])
  fix c1
  assume c1: "tracks c c1" "(ServiceDeregister (ls_instance_id s), None) \<in> set (calls_of (history c1))"
  have "knows c2 (s\<lparr>ls_state := StateDeregistered, ls_updated_at := t\<rparr>)" if "tracks c1 c2" for c2 t
    using tracks_knows [OF that tracks_knows [OF c1(1) assms(1)]] tracks_calls [OF that] c1(2)
    by (intro knows_touch) auto
  then show "tr.sat_any (bind (now_step w) (\<lambda>t.
     bind (store_step (s\<lparr>ls_state := StateDeregistered, ls_updated_at := t\<rparr>)) (\<lambda>_. k))) c1"
    using c1(1) assms(2) tracks_trans by (intro sat_bind_quiet sat_now sat_store) blast+
qed

lemma sat_retire: "knows c e \<Longrightarrow> tr.sat_any (register_retire_thread w e) c"
  unfolding register_retire_thread_def by (rule sat_remove) simp_all

lemma sat_ensure: "tr.sat_any (ensure_route_document_thread w key doc) c"
  unfolding ensure_route_document_thread_def Let_def
  by (intro sat_attempt_quiet sat_query) (auto split: option.split sum.split intro: sat_consul)

lemma sat_new_instance_id: "tr.sat_any (new_instance_id_thread w) c"
  unfolding new_instance_id_thread_def
  by (intro sat_attempt_quiet sat_bind_quiet sat_now sat_quiet) (simp_all add: quietI)

lemma sat_register_instance:
  assumes "valid_register r"
  shows "tr.sat_any (register_instance_thread w r iid) c"
  unfolding register_instance_thread_def Let_def
proof (rule tr.sat_bind_any)
  let ?new = "\<lambda>s c. \<forall>t. service_ok c (key_of s) (s\<lparr>ls_state := StateServing, ls_updated_at := t\<rparr>)"
  show "sat tracks ?new (perform (\<lambda>c. case now w c of (t, c1) \<Rightarrow> (new_local_service c1 r iid t, c1))) c"
  proof (rule tr.sat_perform(1))
    show "tracks c' (snd (case now w c' of (t, c1) \<Rightarrow> (new_local_service c1 r iid t, c1)))" for c'
      using now_quiet [of c' w] by (simp add: now_def quiet_tracks)
    fix c' c''
    assume "tracks (snd (case now w c' of (t, c1) \<Rightarrow> (new_local_service c1 r iid t, c1))) c''"
    then have "same_identity (c'\<lparr>history := history c' @ [ClockRead]\<rparr>) c''"
      by (simp add: now_def tracks_def)
    then show "?new (fst (case now w c' of (t, c1) \<Rightarrow> (new_local_service c1 r iid t, c1))) c''"
      using service_ok_new [OF assms, where c = "c'\<lparr>history := history c' @ [ClockRead]\<rparr>" and iid = iid]
      by (simp add: now_def service_ok_cong key_of_def new_local_service_def)
  qed
  fix s c1
  assume s: "?new s c1"
  let ?told = "\<lambda>c. \<exists>g. rg_id g = ls_instance_id s \<and> (ServiceRegister g, None) \<in> set (calls_of (history c))"
  show "tr.sat_any (attempt (perform (\<lambda>c. call w c (ServiceRegister (registration_for c s)))) (\<lambda>_.
     attempt (pass_lease_step w s) (\<lambda>_. bind (now_step w) (\<lambda>t'.
       bind (store_step (s\<lparr>ls_state := StateServing, ls_updated_at := t'\<rparr>)) (\<lambda>_.
         bind (count_step RegisterTotal) (\<lambda>_. Return (Inr (s\<lparr>ls_state := StateServing, ls_updated_at := t'\<rparr>)))))))) c1"
  proof (rule tr.sat_attempt_any [where Q = "\<lambda>_. ?told"])
    show "sat tracks (\<lambda>r c. \<forall>x. r = Inr x \<longrightarrow> ?told c)
        (perform (\<lambda>c. call w c (ServiceRegister (registration_for c s)))) c1"
    proof (rule tr.sat_perform(1))
      show "tracks c' (snd (call w c' (ServiceRegister (registration_for c' s))))" for c'
        by (rule quiet_tracks) (rule call_quiet)
      fix c' c''
      assume "tracks (snd (call w c' (ServiceRegister (registration_for c' s)))) c''"
      then show "\<forall>x. fst (call w c' (ServiceRegister (registration_for c' s))) = Inr x \<longrightarrow> ?told c''"
        using call_told [of w c' "ServiceRegister (registration_for c' s)"] tracks_calls
        by (metis subsetD registration_id)
    qed
    fix u :: unit and c2
    assume c2: "tracks c1 c2" "?told c2"
    have "knows c3 (s\<lparr>ls_state := StateServing, ls_updated_at := t'\<rparr>)" if "tracks c2 c3" for c3 t'
    proof -
      have "same_identity c1 c3"
        using tracks_trans [OF c2(1) that] by (simp add: tracks_def)
      then show ?thesis
        using s c2(2) tracks_calls [OF that] by (auto simp: knows_def service_ok_cong key_of_def told_def)
    qed
    then show "tr.sat_any (attempt (pass_lease_step w s) (\<lambda>_. bind (now_step w) (\<lambda>t'.
       bind (store_step (s\<lparr>ls_state := StateServing, ls_updated_at := t'\<rparr>)) (\<lambda>_.
         bind (count_step RegisterTotal) (\<lambda>_. Return (Inr (s\<lparr>ls_state := StateServing, ls_updated_at := t'\<rparr>))))))) c2"
      by (intro sat_attempt_quiet sat_lease sat_bind_quiet sat_now sat_store sat_count)
        (simp_all, meson tracks_trans)
  qed
qed

lemma sat_register_fresh: "valid_register r \<Longrightarrow> tr.sat_any (register_fresh_thread w r) c"
  unfolding register_fresh_thread_def
  by (intro sat_bind_quiet sat_quiet)
    (auto simp: now_def quietI split: prod.split
      intro!: sat_attempt_quiet sat_ensure sat_new_instance_id sat_register_instance)

lemma sat_register:
  assumes "go_runtime w" "good c"
  shows "tr.sat_any (register_thread w r) c"
  unfolding register_thread_def
proof (rule tr.sat_bind_any)
  show "sat tracks (\<lambda>e c. e = None \<longrightarrow> valid_register r) (perform (\<lambda>c. (validate_register (range_fields w (history c)) r, c))) c"
    using assms(1) by (intro tr.sat_perform) (simp_all add: tracks_refl validate_register_iff go_runtime_def)
  fix e :: "go_error option" and c1
  assume c1: "tracks c c1" and valid: "e = None \<longrightarrow> valid_register r"
  show "tr.sat_any (case e of Some err \<Rightarrow> Return (Inl err)
     | None \<Rightarrow> bind (local_service_step (rr_name r) (rr_port r)) (register_found_thread w r)) c1"
  proof (cases e)
    case None
    have "tr.sat_any (register_found_thread w r found) c2" if "\<forall>s. found = Some s \<longrightarrow> knows c2 s \<and>
        key_of s = local_key (rr_name r) (rr_port r)" for found c2
      using that valid None
      by (auto simp: register_found_thread_def split: option.split
          intro!: sat_attempt_quiet sat_register_fresh sat_replay sat_retire)
    then show ?thesis
      using sat_find(1) [OF tracks_good [OF c1 assms(2)]]
      by (simp add: None local_service_step_def) (rule tr.sat_bind_any, assumption, blast)
  qed simp
qed

text \<open>The critical section that \<open>Drain\<close> and \<open>Deregister\<close> share.\<close>

lemma sat_section:
  assumes "good c" "\<And>c' s. knows c' s \<Longrightarrow> key_of s = local_key name port \<Longrightarrow> tr.sat_any (body s) c'"
  shows "tr.sat_any (locked (bind (perform (\<lambda>c. (find_local_service c name port, c))) (\<lambda>found.
     case found of None \<Rightarrow> Return (Inl e) | Some s \<Rightarrow> body s))) c"
  by (intro tr.sat_locked tr.sat_bind_any [OF sat_find(2) [OF assms(1)]]) (auto split: option.split intro: assms(2))

lemma sat_put:
  "knows c s \<Longrightarrow> key_of s = k \<Longrightarrow>
     tr.sat_any (perform (\<lambda>c. ((), c\<lparr>cl_local_services := AList.update k s (cl_local_services c)\<rparr>))) c"
  by (rule tr.sat_perform) (auto intro: store_tracks tracks_knows)

lemma sat_drain:
  assumes "good c"
  shows "tr.sat_any (drain_thread w r) c"
proof -
  let ?a = "\<lambda>s. EnableServiceMaintenance (ls_instance_id s) ''draining by sidecar-agent''"
  let ?s = "\<lambda>s grace t t'. s\<lparr>ls_state := StateDraining, ls_updated_at := t', ls_drain_deadline := Some (t + grace)\<rparr>"
  have "tr.sat_any (bind (now_step w) (\<lambda>t. bind (now_step w) (\<lambda>t'.
      bind (perform (\<lambda>c. ((), c\<lparr>cl_local_services := AList.update k (?s s grace t t') (cl_local_services c)\<rparr>)))
       (\<lambda>_. bind (count_step DrainTotal) (\<lambda>_. Return (Inr (?s s grace t t') :: go_error + local_service)))))) c1"
    if "knows c1 s" "key_of s = k" "(?a s, None) \<in> set (calls_of (history c1))" for c1 s k grace
  proof -
    have "knows c2 (?s s grace t t')" if "tracks c1 c2" for c2 t t'
      using tracks_knows [OF that \<open>knows c1 s\<close>] tracks_calls [OF that] \<open>(?a s, None) \<in> _\<close>
      by (auto intro!: knows_touch)
    moreover have "key_of (?s s grace t t') = k" for t t'
      using \<open>key_of s = k\<close> by (simp add: key_of_def)
    ultimately show ?thesis
      by (intro sat_bind_quiet sat_now sat_put sat_count) (simp_all, meson tracks_trans)
  qed
  then have body: "tr.sat_any (attempt (consul_step w (?a s)) (\<lambda>_. bind (now_step w) (\<lambda>t. bind (now_step w) (\<lambda>t'.
      bind (perform (\<lambda>c. ((), c\<lparr>cl_local_services := AList.update k (?s s grace t t') (cl_local_services c)\<rparr>)))
       (\<lambda>_. bind (count_step DrainTotal) (\<lambda>_. Return (Inr (?s s grace t t') :: go_error + local_service))))))) c1"
    if "knows c1 s" "key_of s = k" for c1 s k grace
    using that tracks_knows by (intro tr.sat_attempt_any [OF sat_call]) blast
  show ?thesis
  proof (cases "validate_drain r")
    case None
    then show ?thesis
    proof (cases "grace_period r")
      case (Inr grace)
      then show ?thesis
        unfolding drain_thread_def None Let_def
        by (simp only: option.case sum.case) (intro sat_section assms body)
    qed (simp add: drain_thread_def)
  qed (simp add: drain_thread_def)
qed

lemma sat_deregister:
  assumes "good c"
  shows "tr.sat_any (deregister_thread w r) c"
proof -
  let ?a = "\<lambda>s. ServiceDeregister (ls_instance_id s)"
  let ?s = "\<lambda>s t. s\<lparr>ls_state := StateDeregistered, ls_updated_at := t, ls_drain_deadline := None\<rparr>"
  have "tr.sat_any (bind (now_step w) (\<lambda>t.
      bind (perform (\<lambda>c. ((), c\<lparr>cl_local_services := AList.update k (?s s t) (cl_local_services c)\<rparr>)))
       (\<lambda>_. bind (count_step DeregisterTotal) (\<lambda>_. Return (Inr (?s s t) :: go_error + local_service))))) c1"
    if "knows c1 s" "key_of s = k" "(?a s, None) \<in> set (calls_of (history c1))" for c1 s k
  proof -
    have "knows c2 (?s s t)" if "tracks c1 c2" for c2 t
      using tracks_knows [OF that \<open>knows c1 s\<close>] tracks_calls [OF that] \<open>(?a s, None) \<in> _\<close>
      by (auto intro!: knows_touch)
    moreover have "key_of (?s s t) = k" for t
      using \<open>key_of s = k\<close> by (simp add: key_of_def)
    ultimately show ?thesis
      by (intro sat_bind_quiet sat_now sat_put sat_count) (simp_all)
  qed
  then have body: "tr.sat_any (attempt (consul_step w (?a s)) (\<lambda>_. bind (now_step w) (\<lambda>t.
      bind (perform (\<lambda>c. ((), c\<lparr>cl_local_services := AList.update k (?s s t) (cl_local_services c)\<rparr>)))
       (\<lambda>_. bind (count_step DeregisterTotal) (\<lambda>_. Return (Inr (?s s t) :: go_error + local_service)))))) c1"
    if "knows c1 s" "key_of s = k" for c1 s k
    using that tracks_knows by (intro tr.sat_attempt_any [OF sat_call]) blast
  show ?thesis
  proof (cases "validate_deregister r")
    case None
    then show ?thesis
      unfolding deregister_thread_def None Let_def
      by (simp only: option.case) (intro sat_section assms body)
  qed (simp add: deregister_thread_def)
qed

lemma sat_renew_leases: "tr.sat_any (renew_leases_thread w ss) c"
  by (induction ss arbitrary: c) (auto intro: sat_bind_quiet sat_lease)

lemma sat_deregister_all: "\<forall>s \<in> set ss. knows c s \<Longrightarrow> tr.sat_any (deregister_all_thread w ss) c"
  by (induction ss arbitrary: c) (auto intro!: sat_remove intro: tracks_knows)

lemma sat_discover_names: "tr.sat_any (discover_names_thread w is ns) c"
  by (induction ns arbitrary: "is" c) (auto intro: sat_attempt_quiet sat_query)

lemma lease_running_tracks: "tracks c (c\<lparr>cl_lease_running := b\<rparr>)"
  using lease_running_evolves [of c b] by (auto simp: tracks_def evolves_def good_def tracked_def)

lemma sat_goroutine:
  assumes "go_runtime w" "good c"
  shows "tr.sat_any (goroutine w q) c"
proof -
  have reply: "tr.sat_any (reply f t) c" if "tr.sat_any t c" for f :: "'a \<Rightarrow> registry_reply" and t
    unfolding reply_def by (rule sat_bind_quiet [OF that]) simp
  have tick: "tr.sat_any (lease_tick_thread w) c"
    unfolding lease_tick_thread_def by (rule tr.sat_bind_any [OF sat_active [OF assms(2,1)]]) (rule sat_renew_leases)
  have shutdown: "tr.sat_any (shutdown_thread w) c"
    unfolding shutdown_thread_def
    by (rule sat_bind_quiet, rule tr.sat_perform)
      (auto simp: lease_running_tracks
        intro!: tr.sat_bind_any [OF sat_active] sat_deregister_all assms tracks_good [OF _ assms(2)])
  have discover: "tr.sat_any (discover_thread w) c"
    unfolding discover_thread_def by (intro sat_attempt_quiet sat_query sat_discover_names) simp
  have services: "tr.sat_any (local_services_thread w) c"
    unfolding local_services_thread_def by (rule sat_quiet) simp
  show ?thesis
    by (cases q) (simp_all add: reply tick shutdown discover services assms sat_register sat_drain sat_deregister)
qed

end
