(* ===== verification/Registry_Concurrency.thy ===== *)
theory Registry_Concurrency
  imports Registry_Interleaving Registry_Properties
begin

text \<open>
  The properties of the registry client under concurrency: its one-step operations are among its
  schedules, no schedule hangs or deadlocks, the invariant and the agreement with Consul hold after
  every schedule, and two races that the locking of \<open>Register\<close> allows.
\<close>

section \<open>Serial schedules\<close>

fun serially :: "env \<Rightarrow> registry_call list \<Rightarrow> client \<Rightarrow> registry_reply list \<times> client" where
  "serially w [] c = ([], c)"
| "serially w (q # qs) c =
     (case atomic w q c of (r, c1) \<Rightarrow> case serially w qs c1 of (rs, c2) \<Rightarrow> (r # rs, c2))"

lemma goroutine_alone: "alone (goroutine w q) c = atomic w q c"
  by (cases q)
    (simp_all add: reply_def alone_bind alone_register alone_drain alone_deregister alone_lease_tick alone_shutdown
      alone_discover local_services_thread_def map_prod_def split_def)

lemma serial_schedule:
  "\<exists>is. schedule is \<lparr>po_shared = c, po_holder = None, po_threads = map Return rs @ map (goroutine w) qs\<rparr> =
     Some \<lparr>po_shared = snd (serially w qs c), po_holder = None,
       po_threads = map Return (rs @ fst (serially w qs c))\<rparr>"
proof (induction qs arbitrary: c rs)
  case Nil
  show ?case by (intro exI [of _ "[]"]) simp
next
  case (Cons q qs)
  obtain r c1 where q: "atomic w q c = (r, c1)" by force
  let ?ts = "map Return rs @ map (goroutine w) (q # qs)"
  have same: "?ts[length rs := goroutine w q] = ?ts"
    by (simp add: list_update_append)
  obtain is1 where "schedule is1 \<lparr>po_shared = c, po_holder = lock_state (length rs) False,
      po_threads = ?ts[length rs := goroutine w q]\<rparr> =
      Some \<lparr>po_shared = snd (alone (goroutine w q) c), po_holder = None,
        po_threads = ?ts[length rs := Return (fst (alone (goroutine w q) c))]\<rparr>"
    using run_thread [OF goroutine_disciplined [of w q], of "length rs" ?ts c] by auto
  then have is1: "schedule is1 \<lparr>po_shared = c, po_holder = None, po_threads = ?ts\<rparr> =
      Some \<lparr>po_shared = c1, po_holder = None, po_threads = map Return (rs @ [r]) @ map (goroutine w) qs\<rparr>"
    unfolding same by (simp add: goroutine_alone q lock_state_def list_update_append)
  obtain is2 where is2: "schedule is2 \<lparr>po_shared = c1, po_holder = None,
      po_threads = map Return (rs @ [r]) @ map (goroutine w) qs\<rparr> =
      Some \<lparr>po_shared = snd (serially w qs c1), po_holder = None,
        po_threads = map Return ((rs @ [r]) @ fst (serially w qs c1))\<rparr>"
    using Cons.IH by blast
  have "schedule (is1 @ is2) \<lparr>po_shared = c, po_holder = None, po_threads = ?ts\<rparr> =
      Some \<lparr>po_shared = snd (serially w (q # qs) c), po_holder = None,
        po_threads = map Return (rs @ fst (serially w (q # qs) c))\<rparr>"
    unfolding schedule_append is1 option.case is2 by (simp add: q split: prod.split)
  then show ?case by blast
qed


section \<open>All schedules\<close>

text \<open>
  C3. Whatever the schedule of any number of concurrent calls on a new client: the identity of the
  agent is unchanged, every stored service is well formed, and the local state claims nothing that
  Consul did not confirm: a stored service was registered, one that is draining was put into
  maintenance, one that is deregistered was deregistered.
\<close>

theorem interleavings_keep_invariant:
  assumes "go_runtime w"
    and "schedule is (new_pool (new_with_client w st has_metrics) (map (goroutine w) qs)) = Some q"
  shows "same_identity (new_with_client w st has_metrics) (po_shared q) \<and> client_inv (po_shared q) \<and>
    tracked (po_shared q)"
proof -
  let ?c = "new_with_client w st has_metrics"
  have good: "good ?c"
    by (simp add: good_def new_with_client_inv new_with_client_tracked)
  have "tracks ?c (po_shared q)"
    using tr.schedule_sat [OF assms(2), of "\<lambda>_ _. True"] sat_goroutine [OF assms(1) good]
    by (simp add: new_pool_def)
  with good show ?thesis
    by (simp add: tracks_def good_def)
qed

theorem interleavings_keep_invariant_witness:
  "\<exists>is q. schedule is (new_pool (new_with_client demo_env demo_settings False)
        [goroutine demo_env (Register demo_request), goroutine demo_env LeaseTick, goroutine demo_env Shutdown]) = Some q \<and>
     list_all returned (po_threads q) \<and> client_inv (po_shared q) \<and> tracked (po_shared q)"
proof -
  let ?c = "new_with_client demo_env demo_settings False" and ?qs = "[Register demo_request, LeaseTick, Shutdown]"
  obtain "is" where run: "schedule is (new_pool ?c (map (goroutine demo_env) ?qs)) =
      Some \<lparr>po_shared = snd (serially demo_env ?qs ?c), po_holder = None,
        po_threads = map Return (fst (serially demo_env ?qs ?c))\<rparr>" (is "_ = Some ?q")
    using serial_schedule [of ?c "[]" demo_env ?qs] by (auto simp: new_pool_def simp del: serially.simps)
  have "list_all returned (po_threads ?q)"
    by (simp add: list_all_iff del: serially.simps)
  moreover have "client_inv (po_shared ?q) \<and> tracked (po_shared ?q)"
    using interleavings_keep_invariant [OF demo_env_runtime run] by blast
  ultimately show ?thesis
    using run by (intro exI [of _ "is"] exI [of _ ?q]) simp
qed

text \<open>
  C11. Concurrent calls terminate under every schedule and never deadlock: there is no infinite
  schedule, and from every state that a schedule reaches there is one on which all calls return.
\<close>

theorem calls_terminate:
  "(\<nexists>ps is. ps 0 = new_pool c (map (goroutine w) qs) \<and> (\<forall>n. step_thread (is n) (ps n) = Some (ps (Suc n)))) \<and>
   (case schedule is (new_pool c (map (goroutine w) qs)) of
      None \<Rightarrow> True
    | Some q \<Rightarrow> \<exists>js q'. schedule js q = Some q' \<and> list_all returned (po_threads q'))"
proof
  show "\<nexists>ps is. ps 0 = new_pool c (map (goroutine w) qs) \<and> (\<forall>n. step_thread (is n) (ps n) = Some (ps (Suc n)))"
    using no_infinite_schedule by blast
next
  have "well_locked (new_pool c (map (goroutine w) qs))"
    by (rule new_pool_well_locked) (auto simp: goroutine_disciplined)
  then show "case schedule is (new_pool c (map (goroutine w) qs)) of None \<Rightarrow> True
    | Some q \<Rightarrow> \<exists>js q'. schedule js q = Some q' \<and> list_all returned (po_threads q')"
    by (auto split: option.split intro: some_schedule_returns well_locked_schedule)
qed

section \<open>What the mutex owns\<close>

interpretation mu: guarded "\<lambda>c c'. True" "\<lambda>c c'. cl_local_services c' = cl_local_services c"
  by unfold_locales simp_all

lemma call_services [simp]: "cl_local_services (snd (call w c a)) = cl_local_services c"
  using call_quiet [of c w a] by (simp add: quiet_frame)

lemma call_result_services: "call w c a = (r, c') \<Longrightarrow> cl_local_services c' = cl_local_services c"
  using call_services [of w c a] by simp

text \<open>\<open>owned t h\<close>: \<open>t\<close> changes the services under the mutex only, which it returns as it found it.\<close>

abbreviation owned :: "(client, 'r) thread \<Rightarrow> bool \<Rightarrow> bool" where
  "owned \<equiv> keeps_lock (\<lambda>c c'. True) (\<lambda>c c'. cl_local_services c' = cl_local_services c)"

lemma step_owned [simp]:
  "owned (consul_step w a) h" "owned (now_step w) h" "owned (count_step k) h"
  "owned (local_service_step n p) False" "owned (store_step s) False"
  "owned (active_step w) False" "owned (pass_lease_step w s) h" "owned (query_step w a f) h"
  unfolding step_defs
  by (rule mu.keeps_lock_perform mu.keeps_lock_access;
      auto simp: now_def count_frame dest: call_result_services split: prod.splits sum.splits)+

lemma fresh_owned: "owned (register_fresh_thread w r) False"
proof -
  have "owned (ensure_route_document_thread w key doc) False" for key doc
    unfolding ensure_route_document_thread_def Let_def
    by (intro mu.keeps_lock_attempt step_owned) (auto simp: step_owned split: option.splits sum.splits)
  moreover have "owned (new_instance_id_thread w) False"
    unfolding new_instance_id_thread_def
    by (intro mu.keeps_lock_attempt mu.keeps_lock_bind mu.keeps_lock_perform step_owned keeps_lock_return) simp
  moreover have "owned (register_instance_thread w r iid) False" for iid
    unfolding register_instance_thread_def Let_def
    by (intro mu.keeps_lock_attempt mu.keeps_lock_bind mu.keeps_lock_perform step_owned keeps_lock_return)
      (simp_all add: now_def split: prod.splits)
  ultimately show ?thesis
    unfolding register_fresh_thread_def
    by (intro mu.keeps_lock_bind mu.keeps_lock_perform)
      (auto simp: now_def intro!: mu.keeps_lock_attempt split: prod.splits)
qed

lemma register_owned: "owned (register_thread w r) False"
proof -
  have "owned (register_replay_thread w e) False" "owned (register_retire_thread w e) False" for e
    unfolding register_replay_thread_def register_retire_thread_def Let_def
    by (intro mu.keeps_lock_attempt mu.keeps_lock_bind step_owned keeps_lock_return)+
  then have "owned (register_found_thread w r found) False" for found
    unfolding register_found_thread_def
    by (auto intro!: mu.keeps_lock_attempt fresh_owned split: option.splits)
  then show ?thesis
    unfolding register_thread_def
    by (intro mu.keeps_lock_bind mu.keeps_lock_perform) (auto intro!: mu.keeps_lock_bind step_owned split: option.splits)
qed

lemma drain_owned: "owned (drain_thread w r) False"
  unfolding drain_thread_def Let_def
  by (auto intro!: mu.keeps_lock_locked mu.keeps_lock_bind mu.keeps_lock_attempt mu.keeps_lock_perform step_owned
      split: option.splits sum.splits)

lemma deregister_owned: "owned (deregister_thread w r) False"
  unfolding deregister_thread_def Let_def
  by (auto intro!: mu.keeps_lock_locked mu.keeps_lock_bind mu.keeps_lock_attempt mu.keeps_lock_perform step_owned
      split: option.splits)

lemma renew_leases_owned: "owned (renew_leases_thread w ss) False"
  by (induction ss) (auto intro!: mu.keeps_lock_bind step_owned)

lemma deregister_all_owned: "owned (deregister_all_thread w ss) False"
  by (induction ss) (auto intro!: mu.keeps_lock_bind mu.keeps_lock_attempt step_owned)

lemma discover_names_owned: "owned (discover_names_thread w is ns) False"
  by (induction ns arbitrary: "is") (auto intro!: mu.keeps_lock_attempt step_owned)

lemma goroutine_owned: "owned (goroutine w q) False"
proof -
  have reply: "owned (reply f t) False" if "owned t False" for f and t :: "(client, 'a) thread"
    unfolding reply_def using that by (intro mu.keeps_lock_bind keeps_lock_return)
  have "owned (lease_tick_thread w) False" "owned (local_services_thread w) False"
    "owned (shutdown_thread w) False" "owned (discover_thread w) False"
    unfolding lease_tick_thread_def local_services_thread_def shutdown_thread_def discover_thread_def
    by (intro mu.keeps_lock_bind mu.keeps_lock_attempt mu.keeps_lock_perform mu.keeps_lock_access step_owned keeps_lock_return
        renew_leases_owned deregister_all_owned discover_names_owned; simp)+
  then show ?thesis
    by (cases q) (simp_all add: reply register_owned drain_owned deregister_owned)
qed

text \<open>
  C12. The goroutines obey the discipline of the mutex, whatever the schedule: it is never taken twice
  nor released by another, and a step that changes the map of local services is the holder's or a
  critical section of its own while the mutex is free. So between the lookup of \<open>Drain\<close> or
  \<open>Deregister\<close> and its update the services do not change.
\<close>

theorem services_change_under_mutex:
  assumes "schedule is (new_pool c (map (goroutine w) qs)) = Some q" "step_thread j q = Some q'"
  shows "well_locked q \<and> (cl_local_services (po_shared q') = cl_local_services (po_shared q) \<or>
    po_holder q = Some j \<or> (po_holder q = None \<and> (\<exists>f k. po_threads q ! j = Access f k)))"
proof
  have "well_locked (new_pool c (map (goroutine w) qs))"
    by (rule new_pool_well_locked) (auto simp: goroutine_disciplined)
  then show "well_locked q"
    by (rule well_locked_schedule) (rule assms(1))
  have "po_holder (new_pool c (map (goroutine w) qs)) = None" "po_threads (new_pool c (map (goroutine w) qs)) = map (goroutine w) qs"
    by (simp_all add: new_pool_def)
  then have "\<forall>i < length (po_threads (new_pool c (map (goroutine w) qs))).
      gsat (\<lambda>c c'. True) (\<lambda>c c'. cl_local_services c' = cl_local_services c) (\<lambda>_ h _. h = False)
        (po_threads (new_pool c (map (goroutine w) qs)) ! i) (po_holder (new_pool c (map (goroutine w) qs)) = Some i)
        (po_shared (new_pool c (map (goroutine w) qs)))"
    using goroutine_owned by (simp add: keeps_lock_def del: goroutine.simps)
  from mu.step_protected [OF assms this]
  show "cl_local_services (po_shared q') = cl_local_services (po_shared q) \<or>
    po_holder q = Some j \<or> (po_holder q = None \<and> (\<exists>f k. po_threads q ! j = Access f k))" .
qed

theorem services_change_under_mutex_witness:
  "\<exists>q q'. schedule [0, 1] (new_pool demo_client
        [goroutine demo_env (Deregister \<lparr>de_name = ''auth'', de_port = 9090\<rparr>), goroutine demo_env Shutdown]) = Some q \<and>
     po_holder q = Some 0 \<and> well_locked q \<and> step_thread 0 q = Some q'"
proof -
  let ?d = "\<lparr>de_name = ''auth'', de_port = 9090\<rparr>"
  let ?p = "new_pool demo_client (map (goroutine demo_env) [Deregister ?d, Shutdown])"
  have valid: "validate_deregister ?d = None"
    by (simp add: validate_deregister_def port_invalid_def trim_space_trimmed trimmed_def graphic_def)
  obtain q where q: "schedule [0, 1] ?p = Some q" "po_holder q = Some 0" "0 < length (po_threads q)"
    by (simp add: new_pool_def deregister_thread_def valid reply_def locked_def shutdown_thread_def perform_def step_thread_def)
  have "\<exists>q'. step_thread 0 q = Some q'"
    using q(1) by (auto simp: new_pool_def deregister_thread_def valid reply_def locked_def shutdown_thread_def perform_def step_thread_def)
  then obtain q' where q': "step_thread 0 q = Some q'" ..
  with services_change_under_mutex [OF q(1) q'] q show ?thesis
    by (intro exI [of _ q] exI [of _ q']) simp
qed

section \<open>Races\<close>

lemma find_first:
  assumes "validate_register (range_fields w (history c)) r = None"
  shows "schedule [i, i] \<lparr>po_shared = c, po_holder = None, po_threads = ts[i := goroutine w (Register r)]\<rparr> =
    (if i < length ts
     then Some \<lparr>po_shared = c, po_holder = None, po_threads = ts[i := reply Service
       (register_found_thread w r (find_local_service c (rr_name r) (rr_port r)))]\<rparr>
     else None)"
  using assms
  by (simp add: step_thread_def register_thread_def reply_def perform_def local_service_step_def access_def)

lemma run_reply:
  assumes "alone t c = (r, c')" "disciplined t False" "i < length ts"
  shows "\<exists>is. schedule is \<lparr>po_shared = c, po_holder = None, po_threads = ts[i := reply f t]\<rparr> =
    Some \<lparr>po_shared = c', po_holder = None, po_threads = ts[i := Return (f r)]\<rparr>"
proof -
  have "disciplined (reply f t) False"
    unfolding reply_def by (rule disciplined_bind [OF assms(2)]) simp
  moreover have "alone (reply f t) c = (f r, c')"
    by (simp add: reply_def alone_bind assms(1))
  ultimately show ?thesis
    using run_thread [of "reply f t" False i ts c] assms(3) by (auto simp: lock_state_def)
qed

lemma update_values: "snd ` set (AList.update k x al) \<subseteq> insert x (snd ` set al)"
  by (induction al) auto

text \<open>
  C22. Two registrations of the same service that run at the same time can both succeed: each looks for
  the service before the other has stored it. Consul then has two instances, the client knows the
  second only: no stored service has the instance id of the first, nothing has deregistered it, and
  neither the lease loop nor \<open>Shutdown\<close> will ever name it.
\<close>

theorem concurrent_registers_orphan:
  assumes "validate_register (range_fields w (history c)) r = None"
    and "find_local_service c (rr_name r) (rr_port r) = None"
    and "register_fresh w c r = (Inr s1, c1)" "register_fresh w c1 r = (Inr s2, c2)"
    and "ls_instance_id s1 \<notin> insert (ls_instance_id s2) (ls_instance_id ` snd ` set (cl_local_services c))"
  shows "\<exists>is. schedule is (new_pool c [goroutine w (Register r), goroutine w (Register r)]) =
      Some \<lparr>po_shared = c2, po_holder = None, po_threads = [Return (Service (Inr s1)), Return (Service (Inr s2))]\<rparr> \<and>
    (ServiceRegister (registration_for c s1), None) \<in> set (calls_of (history c2)) \<and>
    ls_instance_id s1 \<notin> ls_instance_id ` snd ` set (cl_local_services c2) \<and>
    (\<forall>i. (ServiceDeregister i, None) \<in> set (calls_of (history c2)) \<longrightarrow> (ServiceDeregister i, None) \<in> set (calls_of (history c)))"
proof -
  let ?g = "goroutine w (Register r)" and ?f = "register_fresh_thread w r"
  have found: "register_found_thread w r None = ?f"
    by (simp add: register_found_thread_def)
  have first: "schedule [0, 0, 1, 1] (new_pool c [?g, ?g]) =
      Some \<lparr>po_shared = c, po_holder = None, po_threads = [reply Service ?f, reply Service ?f]\<rparr>"
    using find_first [OF assms(1), of 0 "[?g, ?g]"] find_first [OF assms(1), of 1 "[reply Service ?f, ?g]"]
      schedule_append [of "[0, 0]" "[1, 1]" "new_pool c [?g, ?g]"]
    by (simp add: new_pool_def assms(2) found del: goroutine.simps schedule.simps)
  obtain is1 where is1: "schedule is1 \<lparr>po_shared = c, po_holder = None,
      po_threads = [reply Service ?f, reply Service ?f]\<rparr> =
      Some \<lparr>po_shared = c1, po_holder = None, po_threads = [Return (Service (Inr s1)), reply Service ?f]\<rparr>"
    using run_reply [of ?f c "Inr s1" c1 0 "[reply Service ?f, reply Service ?f]" Service] assms(3)
    by (auto simp: alone_register_fresh fresh_disciplined)
  obtain is2 where is2: "schedule is2 \<lparr>po_shared = c1, po_holder = None,
      po_threads = [Return (Service (Inr s1)), reply Service ?f]\<rparr> =
      Some \<lparr>po_shared = c2, po_holder = None, po_threads = [Return (Service (Inr s1)), Return (Service (Inr s2))]\<rparr>"
    using run_reply [of ?f c1 "Inr s2" c2 1 "[Return (Service (Inr s1)), reply Service ?f]" Service] assms(4)
    by (auto simp: alone_register_fresh fresh_disciplined)
  have run: "schedule ([0, 0, 1, 1] @ is1 @ is2) (new_pool c [?g, ?g]) =
      Some \<lparr>po_shared = c2, po_holder = None, po_threads = [Return (Service (Inr s1)), Return (Service (Inr s2))]\<rparr>"
    by (simp only: schedule_append first is1 is2 option.case)
  obtain p1 p2 where p1: "calls_of (history c1) = calls_of (history c) @
      [(KVGet (route_key c r), None), (KVPut (route_key c r) p1, None),
       (ServiceRegister (registration_for c s1), None),
       (UpdateTTL (ls_lease_check_id s1) ''agent ownership is healthy'' ''passing'', None)]"
    and p2: "calls_of (history c2) = calls_of (history c1) @
      [(KVGet (route_key c1 r), None), (KVPut (route_key c1 r) p2, None),
       (ServiceRegister (registration_for c1 s2), None),
       (UpdateTTL (ls_lease_check_id s2) ''agent ownership is healthy'' ''passing'', None)]"
    using register_fresh_stored(6) [OF assms(3)] register_fresh_stored(6) [OF assms(4)] by blast
  have "snd ` set (cl_local_services c2) \<subseteq> insert s2 (snd ` set (cl_local_services c))"
    using update_values [of _ s2] by (simp add: register_fresh_stored(4) [OF assms(3)] register_fresh_stored(4) [OF assms(4)])
  then have "ls_instance_id s1 \<notin> ls_instance_id ` snd ` set (cl_local_services c2)"
    using assms(5) by blast
  with run show ?thesis
    by (intro exI [of _ "[0, 0, 1, 1] @ is1 @ is2"]) (simp add: p1 p2)
qed

text \<open>Random bytes that differ from call to call.\<close>

definition random_env :: env where
  "random_env = demo_env\<lparr>random_bytes := (\<lambda>h. Some (\<lambda>i. of_nat (length h)))\<rparr>"

lemma random_env_simps [simp]:
  "call_error random_env h a = None" "kv_value random_env h k = last_put h k"
  "clock random_env h = 1700000000000000000" "random_bytes random_env h = Some (\<lambda>i. of_nat (length h))"
  "marshal_doc random_env d = Inr ''{}''"
  "unmarshal_doc random_env p = Inr (route_document_for demo_request 1700000000000000000)"
  "range_fields random_env h = (\<lambda>fs. fs)"
  by (simp_all add: random_env_def)

lemma random_register:
  assumes "\<not> cl_has_metrics c"
  obtains s c' where "register_fresh random_env c demo_request = (Inr s, c')" "\<not> cl_has_metrics c'"
    "ls_instance_id s = instance_id (\<lambda>i. of_nat (3 + length (history c))) (unix_milli 1700000000000000000)"
    "length (history c') = length (history c) + 9"
proof -
  define m where "m = register_fresh random_env c demo_request"
  have "is_ok (fst m) \<and> \<not> cl_has_metrics (snd m) \<and> length (history (snd m)) = length (history c) + 9 \<and>
      (\<forall>s. fst m = Inr s \<longrightarrow>
         ls_instance_id s = instance_id (\<lambda>i. of_nat (3 + length (history c))) (unix_milli 1700000000000000000))"
    using assms
    by (simp add: m_def demo_route_equal register_fresh_def register_instance_def ensure_route_document_def
        new_instance_id_def call_def now_eq Let_def pass_lease_def count_def store_local_service_def split: option.split)
  then show thesis
    using that by (cases m; cases "fst m") (auto simp: m_def)
qed

theorem concurrent_registers_orphan_witness:
  "\<exists>is s1 s2 c2. schedule is (new_pool demo_client
        [goroutine random_env (Register demo_request), goroutine random_env (Register demo_request)]) =
      Some \<lparr>po_shared = c2, po_holder = None, po_threads = [Return (Service (Inr s1)), Return (Service (Inr s2))]\<rparr> \<and>
    ls_instance_id s1 \<notin> ls_instance_id ` snd ` set (cl_local_services c2)"
proof -
  have c: "\<not> cl_has_metrics demo_client" "cl_local_services demo_client = []" "history demo_client = []"
    by (simp_all add: demo_client_def)
  obtain s1 c1 where s1: "register_fresh random_env demo_client demo_request = (Inr s1, c1)" "\<not> cl_has_metrics c1"
    "ls_instance_id s1 = instance_id (\<lambda>i. of_nat 3) (unix_milli 1700000000000000000)" "length (history c1) = 9"
    using random_register [OF c(1)] by (simp add: c) blast
  obtain s2 c2 where s2: "register_fresh random_env c1 demo_request = (Inr s2, c2)"
    "ls_instance_id s2 = instance_id (\<lambda>i. of_nat 12) (unix_milli 1700000000000000000)"
    using random_register [OF s1(2)] by (simp add: s1(4)) blast
  have "instance_id (\<lambda>i. of_nat 3) (unix_milli 1700000000000000000) \<noteq>
      instance_id (\<lambda>i. of_nat 12) (unix_milli 1700000000000000000)"
    by code_simp
  then have ids: "ls_instance_id s1 \<notin> insert (ls_instance_id s2) (ls_instance_id ` snd ` set (cl_local_services demo_client))"
    by (simp add: s1(3) s2(2) c)
  have valid: "validate_register (range_fields random_env (history demo_client)) demo_request = None"
    using demo_request_valid validate_register_iff [of "\<lambda>fs. fs" demo_request] by (simp add: permutes_id)
  have none: "find_local_service demo_client (rr_name demo_request) (rr_port demo_request) = None"
    by (simp add: find_local_service_def c)
  show ?thesis
    using concurrent_registers_orphan [OF valid none s1(1) s2(1) ids] by blast
qed

text \<open>A repeated registration whose lease has been renewed, and what is left of it.\<close>

definition replay_rest :: "env \<Rightarrow> local_service \<Rightarrow> (client, go_error + local_service) thread" where
  "replay_rest w e =
     bind (now_step w) (\<lambda>t. bind (store_step (e\<lparr>ls_updated_at := t\<rparr>)) (\<lambda>_. Return (Inr (e\<lparr>ls_updated_at := t\<rparr>))))"

lemma replay_begun:
  assumes "validate_register (range_fields w (history c)) r = None"
    and "find_local_service c (rr_name r) (rr_port r) = Some e" "ls_state e = StateServing"
    and "same_register_request (ls_request e) r" "\<And>h a. call_error w h a = None"
  shows "schedule [0, 0, 0] (new_pool c [goroutine w (Register r), t]) =
    Some \<lparr>po_shared = c\<lparr>history := history c @
        [Called (UpdateTTL (ls_lease_check_id e) ''agent ownership is healthy'' ''passing'') None]\<rparr>,
      po_holder = None, po_threads = [reply Service (replay_rest w e), t]\<rparr>"
proof -
  let ?p = "\<lparr>po_shared = c, po_holder = None, po_threads = [reply Service (register_replay_thread w e), t]\<rparr>"
  have "schedule [0, 0] (new_pool c [goroutine w (Register r), t]) = Some ?p"
    using find_first [OF assms(1), of 0 "[goroutine w (Register r), t]"] assms(2-4)
    by (simp add: new_pool_def register_found_thread_def del: goroutine.simps schedule.simps)
  moreover have "schedule [0] ?p = Some \<lparr>po_shared = c\<lparr>history := history c @
        [Called (UpdateTTL (ls_lease_check_id e) ''agent ownership is healthy'' ''passing'') None]\<rparr>,
      po_holder = None, po_threads = [reply Service (replay_rest w e), t]\<rparr>"
    using assms(5)
    by (simp add: step_thread_def register_replay_thread_def replay_rest_def reply_def attempt_def pass_lease_step_def
        consul_step_def perform_def call_def Let_def)
  ultimately show ?thesis
    using schedule_append [of "[0, 0]" "[0]" "new_pool c [goroutine w (Register r), t]"]
    by (simp del: goroutine.simps schedule.simps)
qed

lemma replay_rest_disciplined: "disciplined (replay_rest w e) False"
  by (auto simp: replay_rest_def step_defs intro!: disciplined_bind)

lemma replay_rest_alone:
  "alone (replay_rest w e) c = (Inr (e\<lparr>ls_updated_at := clock w (history c)\<rparr>),
     store_local_service (e\<lparr>ls_updated_at := clock w (history c)\<rparr>) (c\<lparr>history := history c @ [ClockRead]\<rparr>))"
  by (simp add: replay_rest_def alone_bind step_defs now_eq)

text \<open>
  C23. A registration that is repeated while the service is being deregistered can undo it: \<open>Register\<close>
  has read the stored service, \<open>Deregister\<close> removes it from Consul and marks it, and \<open>Register\<close> then
  stores its copy again. Both calls succeed, the last call to Consul is the successful deregistration,
  and the client believes that the instance is serving.
\<close>

theorem stale_register_undoes_deregister:
  assumes "client_inv c" "validate_register (range_fields w (history c)) r = None"
    and "find_local_service c (rr_name r) (rr_port r) = Some e" "ls_state e = StateServing"
    and "same_register_request (ls_request e) r" "\<And>h a. call_error w h a = None"
    and "validate_deregister d = None" "de_name d = rr_name r" "de_port d = rr_port r"
  shows "\<exists>is s s' c'. schedule is (new_pool c [goroutine w (Register r), goroutine w (Deregister d)]) =
      Some \<lparr>po_shared = c', po_holder = None, po_threads = [Return (Service (Inr s)), Return (Service (Inr s'))]\<rparr> \<and>
    ls_state s' = StateDeregistered \<and> ls_instance_id s = ls_instance_id e \<and> ls_instance_id s' = ls_instance_id e \<and>
    find_local_service c' (rr_name r) (rr_port r) = Some s \<and> ls_state s = StateServing \<and>
    last (calls_of (history c')) = (ServiceDeregister (ls_instance_id e), None)"
proof -
  let ?g = "goroutine w (Register r)" and ?d = "goroutine w (Deregister d)" and ?rest = "reply Service (replay_rest w e)"
  let ?a = "UpdateTTL (ls_lease_check_id e) ''agent ownership is healthy'' ''passing''"
  let ?c1 = "c\<lparr>history := history c @ [Called ?a None]\<rparr>"
  note first = replay_begun [OF assms(2-6), of ?d]
  let ?s' = "e\<lparr>ls_state := StateDeregistered,
    ls_updated_at := clock w (history ?c1 @ [Called (ServiceDeregister (ls_instance_id e)) None]), ls_drain_deadline := None\<rparr>"
  define c2 where "c2 = snd (deregister w ?c1 d)"
  have "find_local_service ?c1 (de_name d) (de_port d) = Some e"
    using assms(3,8,9) by (simp add: find_local_service_def)
  then have dereg: "deregister w ?c1 d = (Inr ?s', c2)" and c2: "calls_of (history c2) =
      calls_of (history c) @ [(?a, None), (ServiceDeregister (ls_instance_id e), None)]"
    using assms(6-9) by (simp_all add: c2_def deregister_def call_def now_eq Let_def)
  obtain is1 where is1: "schedule is1 \<lparr>po_shared = ?c1, po_holder = None, po_threads = [?rest, ?d]\<rparr> =
      Some \<lparr>po_shared = c2, po_holder = None, po_threads = [?rest, Return (Service (Inr ?s'))]\<rparr>"
    using run_reply [of "deregister_thread w d" ?c1 "Inr ?s'" c2 1 "[?rest, ?d]" Service] dereg
    by (auto simp: alone_deregister deregister_disciplined)
  let ?s = "e\<lparr>ls_updated_at := clock w (history c2)\<rparr>"
  define c3 where "c3 = store_local_service ?s (c2\<lparr>history := history c2 @ [ClockRead]\<rparr>)"
  obtain is2 where is2: "schedule is2 \<lparr>po_shared = c2, po_holder = None, po_threads = [?rest, Return (Service (Inr ?s'))]\<rparr> =
      Some \<lparr>po_shared = c3, po_holder = None, po_threads = [Return (Service (Inr ?s)), Return (Service (Inr ?s'))]\<rparr>"
    using run_reply [OF replay_rest_alone [of w e c2] replay_rest_disciplined, of 0 "[?rest, Return (Service (Inr ?s'))]" Service]
    by (auto simp: c3_def)
  have run: "schedule ([0, 0, 0] @ is1 @ is2) (new_pool c [?g, ?d]) =
      Some \<lparr>po_shared = c3, po_holder = None, po_threads = [Return (Service (Inr ?s)), Return (Service (Inr ?s'))]\<rparr>"
    unfolding schedule_append [of "[0, 0, 0]"] first option.case schedule_append [of is1] is1 is2 ..
  have "find_local_service c3 (rr_name r) (rr_port r) = Some ?s"
    using local_service_ok [OF assms(1,3)]
    by (simp add: c3_def find_local_service_def store_local_service_def map_of_update service_ok_def Let_def)
  moreover have "last (calls_of (history c3)) = (ServiceDeregister (ls_instance_id e), None)"
    by (simp add: c3_def store_local_service_def c2)
  ultimately show ?thesis
    using run assms(4) by (intro exI conjI) (assumption | simp)+
qed

text \<open>The demonstration service, stored as serving.\<close>

definition serving_client :: client where
  "serving_client = snd (register demo_env demo_client demo_request)"

theorem stale_register_undoes_deregister_witness:
  "\<exists>is s s' c'. schedule is (new_pool serving_client
        [goroutine demo_env (Register demo_request), goroutine demo_env (Deregister \<lparr>de_name = ''auth'', de_port = 9090\<rparr>)]) =
      Some \<lparr>po_shared = c', po_holder = None, po_threads = [Return (Service (Inr s)), Return (Service (Inr s'))]\<rparr> \<and>
    ls_state s' = StateDeregistered \<and> find_local_service c' ''auth'' 9090 = Some s \<and> ls_state s = StateServing"
proof -
  obtain s c' where reg: "register demo_env demo_client demo_request = (Inr s, c')"
    by (rule demo_register)
  then have fresh: "register_fresh demo_env demo_client demo_request = (Inr s, c')"
    by (simp add: register_cases demo_env_runtime demo_request_valid find_local_service_def demo_client_def)
  have c': "serving_client = c'"
    by (simp add: serving_client_def reg)
  have "client_inv demo_client"
    by (simp add: client_inv_def demo_client_def)
  then have inv: "client_inv c'"
    using register_evolves [OF demo_env_runtime, of demo_client demo_request] by (simp add: reg evolves_def)
  have valid: "validate_register (range_fields demo_env (history c')) demo_request = None"
    using demo_request_valid validate_register_iff [of "range_fields demo_env (history c')" demo_request]
    by (simp add: permutes_id)
  have "validate_deregister \<lparr>de_name = ''auth'', de_port = 9090\<rparr> = None"
    by (simp add: validate_deregister_def port_invalid_def trim_space_trimmed trimmed_def graphic_def)
  then show ?thesis
    using stale_register_undoes_deregister [OF inv valid register_fresh_stored(5,2) [OF fresh],
        of "\<lparr>de_name = ''auth'', de_port = 9090\<rparr>"] register_fresh_stored(1) [OF fresh]
    unfolding c' by (simp add: demo_request_def) blast
qed

end
