(* ===== verification/Discovery_Concurrency.thy ===== *)
theory Discovery_Concurrency
  imports Threads Discovery_Properties
begin

text \<open>
  Concurrent refreshes of the watcher: the background loop and the \<open>RefreshNow\<close> of every request to
  the management API each discover on their own and then compare, publish and record under the mutex.
  The publications stay spaced under every interleaving, because the mutex protects the record of the
  last publication from the comparison to the update.
\<close>

section \<open>The goroutine of a refresh\<close>

text \<open>\<open>sw_log\<close> is not in the code: the time and fingerprint of every publication so far.\<close>

record 's shared_watcher =
  sw_watcher :: watcher
  sw_world :: 's
  sw_log :: "(instant \<times> string) list"

definition in_world :: "('s \<Rightarrow> 'a \<times> 's) \<Rightarrow> 's shared_watcher \<Rightarrow> 'a \<times> 's shared_watcher" where
  "in_world f s = (case f (sw_world s) of (x, w) \<Rightarrow> (x, s\<lparr>sw_world := w\<rparr>))"

definition publish_thread ::
    "'s watch_env \<Rightarrow> service_instance list \<Rightarrow> string \<Rightarrow> ('s shared_watcher, go_error option) thread" where
  "publish_thread e instances fingerprint =
     bind (perform (\<lambda>s. (fingerprint = wt_last_fingerprint (sw_watcher s), s))) (\<lambda>same.
     if same then Return None
     else bind (perform (\<lambda>s. in_world (too_early e (sw_watcher s)) s)) (\<lambda>early.
     if early then Return None
     else bind (perform (in_world (we_on_update e instances))) (\<lambda>err. case err of
       Some x \<Rightarrow> Return (Some x)
     | None \<Rightarrow> bind (perform (\<lambda>s. case we_now e (sw_world s) of (t, w) \<Rightarrow>
         (None, s\<lparr>sw_watcher := (sw_watcher s)\<lparr>wt_last_fingerprint := fingerprint, wt_last_publish_at := Some t\<rparr>,
            sw_world := w, sw_log := sw_log s @ [(t, fingerprint)]\<rparr>))) Return)))"

definition refresh_thread :: "'s watch_env \<Rightarrow> ('s shared_watcher, go_error option) thread" where
  "refresh_thread e =
     bind (perform (in_world (we_discover e))) (\<lambda>found. case found of
       Inl err \<Rightarrow> Return (Some err)
     | Inr instances \<Rightarrow> bind (perform (in_world (\<lambda>w. ((), we_count e w)))) (\<lambda>_.
         case hash_instances e instances of
           Inl err \<Rightarrow> Return (Some err)
         | Inr fingerprint \<Rightarrow> locked (publish_thread e instances fingerprint)))"

text \<open>Run alone it is \<open>refresh_once\<close>, and the mutex is used properly.\<close>

lemma alone_publish:
  "alone (publish_thread e xs fp) s = (r, s') \<Longrightarrow>
     publish_changed e (sw_watcher s) xs fp (sw_world s) = (r, sw_watcher s', sw_world s')"
  by (auto simp: publish_thread_def publish_changed_def alone_bind in_world_def
      split: prod.splits if_splits option.splits bool.splits)

lemma alone_refresh:
  assumes "alone (refresh_thread e) s = (r, s')"
  shows "refresh_once e (sw_watcher s) (sw_world s) = (r, sw_watcher s', sw_world s')"
  using assms
  by (auto simp: refresh_thread_def refresh_once_def alone_bind in_world_def Let_def
      split: prod.splits sum.splits dest!: alone_publish)

lemma refresh_disciplined: "disciplined (refresh_thread e) False"
proof -
  have "lock_free_code (publish_thread e xs fp)" for xs fp
    unfolding publish_thread_def by (auto intro!: lock_free_bind split: option.split)
  then show ?thesis
    unfolding refresh_thread_def by (auto intro!: disciplined_bind disciplined_locked split: sum.split)
qed

section \<open>What the mutex protects\<close>

definition recorded :: "'s shared_watcher \<Rightarrow> bool" where
  "recorded s \<longleftrightarrow> spaced (wt_debounce_interval (sw_watcher s)) (sw_log s) \<and>
     (case wt_last_publish_at (sw_watcher s) of
        None \<Rightarrow> sw_log s = []
      | Some t \<Rightarrow> sw_log s \<noteq> [] \<and> last (sw_log s) = (t, wt_last_fingerprint (sw_watcher s)))"

definition advances :: "('s \<Rightarrow> instant) \<Rightarrow> 's shared_watcher \<Rightarrow> 's shared_watcher \<Rightarrow> bool" where
  "advances time s s' \<longleftrightarrow>
     wt_debounce_interval (sw_watcher s') = wt_debounce_interval (sw_watcher s) \<and>
     time (sw_world s) \<le> time (sw_world s') \<and> (recorded s \<longrightarrow> recorded s')"

definition leaves_record :: "('s \<Rightarrow> instant) \<Rightarrow> 's shared_watcher \<Rightarrow> 's shared_watcher \<Rightarrow> bool" where
  "leaves_record time s s' \<longleftrightarrow>
     sw_watcher s' = sw_watcher s \<and> sw_log s' = sw_log s \<and> time (sw_world s) \<le> time (sw_world s')"

interpretation wr: guarded "advances time" "leaves_record time" for time
  by unfold_locales (auto simp: advances_def leaves_record_def recorded_def split: option.splits)

lemma spaced_snoc:
  "spaced d (ps @ [(t', fp')]) \<longleftrightarrow>
     spaced d ps \<and> (ps = [] \<or> (snd (last ps) \<noteq> fp' \<and> d \<le> t' - fst (last ps)))"
  by (induction d ps rule: spaced.induct) auto

section \<open>Every refresh keeps the record spaced\<close>

text \<open>The two facts a refresh establishes under the mutex before it publishes.\<close>

definition due :: "('s \<Rightarrow> instant) \<Rightarrow> string \<Rightarrow> 's shared_watcher \<Rightarrow> bool" where
  "due time fp s \<longleftrightarrow> fp \<noteq> wt_last_fingerprint (sw_watcher s) \<and>
     (\<forall>prev. wt_last_publish_at (sw_watcher s) = Some prev \<longrightarrow>
        wt_debounce_interval (sw_watcher s) \<le> time (sw_world s) - prev)"

lemma due_stable: "due time fp s \<Longrightarrow> leaves_record time s s' \<Longrightarrow> due time fp s'"
  by (fastforce simp: due_def leaves_record_def)

lemma record_due:
  assumes "due time fp s" "time (sw_world s) \<le> t" "recorded s"
  shows "recorded (s\<lparr>sw_watcher := (sw_watcher s)\<lparr>wt_last_fingerprint := fp, wt_last_publish_at := Some t\<rparr>,
    sw_world := w, sw_log := sw_log s @ [(t, fp)]\<rparr>)"
  using assms by (auto simp: recorded_def due_def spaced_snoc split: option.splits)

lemma in_world_leaves:
  assumes "time (sw_world s) \<le> time (snd (f (sw_world s)))"
  shows "leaves_record time s (snd (in_world f s))"
  using assms by (cases "f (sw_world s)") (simp add: in_world_def leaves_record_def)

lemma publish_gsat:
  assumes "monotone_clock e time"
  shows "gsat (advances time) (leaves_record time) (\<lambda>_ h _. h) (publish_thread e xs fp) True s"
proof -
  have clock: "fst (we_now e w) = time w" "time w \<le> time (snd (we_now e w))"
    "time w \<le> time (snd (we_on_update e xs w))" for w
    using assms unfolding monotone_clock_def by blast+
  let ?sat = "\<lambda>Q t. gsat (advances time) (leaves_record time) Q t True"
  let ?any = "\<lambda>_ h _. h"
  let ?remember = "perform (\<lambda>s. case we_now e (sw_world s) of (t, w) \<Rightarrow>
         (None :: go_error option, s\<lparr>sw_watcher := (sw_watcher s)\<lparr>wt_last_fingerprint := fp, wt_last_publish_at := Some t\<rparr>,
            sw_world := w, sw_log := sw_log s @ [(t, fp)]\<rparr>))"
  have stored: "?sat ?any (bind ?remember Return) s1" if due: "due time fp s1" for s1
  proof (rule wr.gsat_bind, rule wr.gsat_perform)
    fix s2
    assume "(if True then leaves_record time else advances time) s1 s2"
    then have "due time fp s2"
      using due_stable [OF due] by simp
    then show "(if True then advances time else leaves_record time) s2 (snd (case we_now e (sw_world s2) of (t, w) \<Rightarrow>
         (None, s2\<lparr>sw_watcher := (sw_watcher s2)\<lparr>wt_last_fingerprint := fp, wt_last_publish_at := Some t\<rparr>,
            sw_world := w, sw_log := sw_log s2 @ [(t, fp)]\<rparr>)))"
      using clock [of "sw_world s2"] record_due [of time fp s2]
      by (auto simp: advances_def split: prod.split)
  qed auto
  have update: "?sat ?any (bind (perform (in_world (we_on_update e xs))) (\<lambda>err. case err of
       Some x \<Rightarrow> Return (Some x) | None \<Rightarrow> bind ?remember Return)) s1" if due: "due time fp s1" for s1
  proof (rule wr.gsat_bind [where Q = "\<lambda>_ h s. h \<and> due time fp s"], rule wr.gsat_perform)
    fix s2
    assume "(if True then leaves_record time else advances time) s1 s2"
    then have s2: "due time fp s2"
      using due_stable [OF due] by simp
    have step: "leaves_record time s2 (snd (in_world (we_on_update e xs) s2))"
      by (rule in_world_leaves) (rule clock(3))
    then show "(if True then advances time else leaves_record time) s2 (snd (in_world (we_on_update e xs) s2))"
      by (simp add: wr.L_R)
    fix s3
    assume "(if True then leaves_record time else advances time) (snd (in_world (we_on_update e xs) s2)) s3"
    then show "True \<and> due time fp s3"
      using due_stable [OF due_stable [OF s2 step]] by simp
  next
    fix err :: "go_error option" and h s2
    assume "\<And>s''. (if h then leaves_record time else advances time) s2 s'' \<Longrightarrow> h \<and> due time fp s''"
    then have "h \<and> due time fp s2"
      using wr.refl [of time s2] wr.L_refl [of time s2] by (cases h) auto
    then show "gsat (advances time) (leaves_record time) ?any
        (case err of Some x \<Rightarrow> Return (Some x) | None \<Rightarrow> bind ?remember Return) h s2"
      using stored by (simp split: option.split)
  qed
  let ?update = "bind (perform (in_world (we_on_update e xs))) (\<lambda>err. case err of
       Some x \<Rightarrow> Return (Some x) | None \<Rightarrow> bind ?remember Return)"
  have early: "?sat ?any (bind (perform (\<lambda>s. in_world (too_early e (sw_watcher s)) s)) (\<lambda>early.
       if early then Return None else ?update)) s1" if new: "fp \<noteq> wt_last_fingerprint (sw_watcher s1)" for s1
  proof (rule wr.gsat_bind [where Q = "\<lambda>b h s. h \<and> (\<not> b \<longrightarrow> due time fp s)"], rule wr.gsat_perform)
    fix s2
    assume "(if True then leaves_record time else advances time) s1 s2"
    then have s2: "fp \<noteq> wt_last_fingerprint (sw_watcher s2)"
      using new by (simp add: leaves_record_def)
    obtain b w where b: "too_early e (sw_watcher s2) (sw_world s2) = (b, w)"
      by fastforce
    note facts = too_early_clock [OF assms b]
    have step: "leaves_record time s2 (snd (in_world (too_early e (sw_watcher s2)) s2))"
      using facts by (intro in_world_leaves) (simp add: b)
    then show "(if True then advances time else leaves_record time) s2 (snd (in_world (too_early e (sw_watcher s2)) s2))"
      by (simp add: wr.L_R)
    fix s3
    assume s3: "(if True then leaves_record time else advances time) (snd (in_world (too_early e (sw_watcher s2)) s2)) s3"
    have "due time fp s3" if "\<not> b"
      using s2 s3 that facts by (auto simp: due_def leaves_record_def in_world_def b split: option.splits)
    then show "True \<and> (\<not> fst (in_world (too_early e (sw_watcher s2)) s2) \<longrightarrow> due time fp s3)"
      by (simp add: in_world_def b)
  next
    fix b h s2
    assume "\<And>s''. (if h then leaves_record time else advances time) s2 s'' \<Longrightarrow> h \<and> (\<not> b \<longrightarrow> due time fp s'')"
    then have "h \<and> (\<not> b \<longrightarrow> due time fp s2)"
      using wr.refl [of time s2] wr.L_refl [of time s2] by (cases h) auto
    then show "gsat (advances time) (leaves_record time) ?any (if b then Return None else ?update) h s2"
      using update by simp
  qed
  show ?thesis
    unfolding publish_thread_def
  proof (rule wr.gsat_bind [where Q = "\<lambda>same h s. h \<and> (\<not> same \<longrightarrow> fp \<noteq> wt_last_fingerprint (sw_watcher s))"],
      rule wr.gsat_perform)
    fix same h s2
    assume "\<And>s''. (if h then leaves_record time else advances time) s2 s'' \<Longrightarrow>
        h \<and> (\<not> same \<longrightarrow> fp \<noteq> wt_last_fingerprint (sw_watcher s''))"
    then have "h \<and> (\<not> same \<longrightarrow> fp \<noteq> wt_last_fingerprint (sw_watcher s2))"
      using wr.refl [of time s2] wr.L_refl [of time s2] by (cases h) auto
    then show "gsat (advances time) (leaves_record time) ?any (if same then Return None
        else bind (perform (\<lambda>s. in_world (too_early e (sw_watcher s)) s)) (\<lambda>early.
          if early then Return None else ?update)) h s2"
      using early by simp
  qed (auto simp: wr.refl leaves_record_def)
qed

lemma refresh_gsat:
  assumes "monotone_clock e time"
  shows "gsat (advances time) (leaves_record time) (\<lambda>_ _ _. True) (refresh_thread e) False s"
proof -
  have clock: "time w \<le> time (snd (we_discover e w))" "time w \<le> time (we_count e w)" for w
    using assms unfolding monotone_clock_def by blast+
  have publish: "gsat (advances time) (leaves_record time) (\<lambda>_ _ _. True) (locked (publish_thread e xs fp)) False s" for xs fp s
    by (rule wr.gsat_locked) (rule publish_gsat [OF assms])
  have outside: "gsat (advances time) (leaves_record time) (\<lambda>_ h _. \<not> h) (perform (in_world f)) False s"
    if "\<And>w. time w \<le> time (snd (f w))" for f :: "'a \<Rightarrow> 'c \<times> 'a" and s
    by (rule wr.gsat_perform) (simp_all add: in_world_leaves that)
  have known: "\<not> h" if "\<And>s''. (if h then leaves_record time else advances time) s s'' \<Longrightarrow> \<not> h" for h s
    using that wr.L_refl [of time s] by (cases h) auto
  show ?thesis
    unfolding refresh_thread_def
  proof (rule wr.gsat_bind [OF outside], rule clock(1))
    fix found :: "go_error + service_instance list" and h s1
    assume "\<And>s''. (if h then leaves_record time else advances time) s1 s'' \<Longrightarrow> \<not> h"
    then have h: "\<not> h" by (rule known)
    have "gsat (advances time) (leaves_record time) (\<lambda>_ _ _. True)
       (bind (perform (in_world (\<lambda>w. ((), we_count e w)))) (\<lambda>_. case hash_instances e xs of
           Inl err \<Rightarrow> Return (Some err) | Inr fp \<Rightarrow> locked (publish_thread e xs fp))) False s1" for xs
    proof (rule wr.gsat_bind [OF outside], simp add: clock(2))
      fix u :: unit and h' s2
      assume "\<And>s''. (if h' then leaves_record time else advances time) s2 s'' \<Longrightarrow> \<not> h'"
      then have "\<not> h'" by (rule known)
      then show "gsat (advances time) (leaves_record time) (\<lambda>_ _ _. True) (case hash_instances e xs of
           Inl err \<Rightarrow> Return (Some err) | Inr fp \<Rightarrow> locked (publish_thread e xs fp)) h' s2"
        using publish by (simp split: sum.split)
    qed
    with h show "gsat (advances time) (leaves_record time) (\<lambda>_ _ _. True) (case found of
       Inl err \<Rightarrow> Return (Some err)
     | Inr instances \<Rightarrow> bind (perform (in_world (\<lambda>w. ((), we_count e w)))) (\<lambda>_.
         case hash_instances e instances of
           Inl err \<Rightarrow> Return (Some err)
         | Inr fingerprint \<Rightarrow> locked (publish_thread e instances fingerprint))) h s1"
      by (simp split: sum.split)
  qed
qed

section \<open>The property\<close>

definition fresh_watcher :: "duration \<Rightarrow> duration \<Rightarrow> 's \<Rightarrow> 's shared_watcher" where
  "fresh_watcher refresh debounce w = \<lparr>sw_watcher = new_watcher refresh debounce, sw_world = w, sw_log = []\<rparr>"

text \<open>
  C10. Debouncing holds under concurrency: however the refreshes of the background loop and of any
  number of requests interleave, consecutive publications have different fingerprints and lie at least
  the debounce interval apart, the last one is the one on record, and no refresh waits for the mutex
  forever.
\<close>

theorem concurrent_publications_spaced:
  assumes "monotone_clock e time"
    and "schedule is (new_pool (fresh_watcher refresh debounce w) (replicate n (refresh_thread e))) = Some q"
  shows "spaced debounce (sw_log (po_shared q)) \<and>
    (sw_log (po_shared q) \<noteq> [] \<longrightarrow> wt_last_publish_at (sw_watcher (po_shared q)) = Some (fst (last (sw_log (po_shared q)))) \<and>
       wt_last_fingerprint (sw_watcher (po_shared q)) = snd (last (sw_log (po_shared q)))) \<and>
    (\<exists>js q'. schedule js q = Some q' \<and> list_all returned (po_threads q'))"
proof -
  let ?s = "fresh_watcher refresh debounce w"
  have "advances time ?s (po_shared q)"
    using wr.schedule_gsat [OF assms(2), of time "\<lambda>_ _ _. True"] refresh_gsat [OF assms(1)]
    by (simp add: new_pool_def)
  moreover have "recorded ?s" "wt_debounce_interval (sw_watcher ?s) = debounce"
    by (simp_all add: recorded_def fresh_watcher_def new_watcher_def)
  ultimately have q: "recorded (po_shared q)" "wt_debounce_interval (sw_watcher (po_shared q)) = debounce"
    by (simp_all add: advances_def)
  have "well_locked q"
    by (rule well_locked_schedule [OF new_pool_well_locked assms(2)]) (simp add: refresh_disciplined)
  then have "\<exists>js q'. schedule js q = Some q' \<and> list_all returned (po_threads q')"
    by (rule some_schedule_returns)
  with q show ?thesis
    by (auto simp: recorded_def split: option.splits)
qed

theorem concurrent_publications_spaced_witness:
  "\<exists>is q. schedule is (new_pool (fresh_watcher 5000000000 1000000000 0)
        (replicate 2 (refresh_thread (clock_env 5000000000 [])))) = Some q \<and>
     length (sw_log (po_shared q)) = 1 \<and> spaced 1000000000 (sw_log (po_shared q))"
proof -
  let ?e = "clock_env 5000000000 []"
  let ?p = "new_pool (fresh_watcher 5000000000 1000000000 0) (replicate 2 (refresh_thread ?e))"
  have "encode_hex (map of_char (fmt_d 0)) \<noteq> []"
    by code_simp
  then obtain q where q: "schedule [0, 1, 0, 1, 0, 0, 0, 0, 0, 0] ?p = Some q" "length (sw_log (po_shared q)) = 1"
    by (simp add: new_pool_def fresh_watcher_def new_watcher_def clock_env_def refresh_thread_def publish_thread_def
        perform_def in_world_def locked_def step_thread_def hash_instances_def too_early_def numeral_2_eq_2)
  with concurrent_publications_spaced [OF clock_env_monotone q(1)] show ?thesis
    by (intro exI [of _ "[0, 1, 0, 1, 0, 0, 0, 0, 0, 0]"] exI [of _ q]) simp
qed

end
