(* ===== verification/Command.thy ===== *)
theory Command
  imports Admin
begin

text \<open>
  The process of \<open>src/cmd/sidecar-agent/main.go\<close>: loading and \<open>New\<close>, and then a step relation over what
  happens to the running agent: the signals and the goroutine that reads them, \<open>Start\<close>, the requests,
  the two background loops and the panics of their tickers, \<open>WaitForShutdown\<close> and the exit. The methods
  of the runner and the handlers are the functions of \<open>App\<close> and \<open>Admin\<close>, one step each; any order of
  them is a run.
\<close>

section \<open>Before the agent runs\<close>

text \<open>
  \<open>BootFails\<close> is \<open>log.Fatal\<close>, exit status 1. The arguments are those of \<open>load\<close> (validation, reading the
  file, YAML), the environment of the runner, the value of the flag \<open>-config\<close> and the world.
\<close>

datatype 'w boot_result = BootPanics | BootFails go_error 'w | BootReady "'w runner" 'w

definition boot ::
    "(config \<Rightarrow> checked) \<Rightarrow> (string \<Rightarrow> go_error + string) \<Rightarrow> (string \<Rightarrow> config \<Rightarrow> go_error + config) \<Rightarrow>
     'w app_env \<Rightarrow> string \<Rightarrow> 'w \<Rightarrow> 'w boot_result" where
  "boot check read_file decode a path w =
     (case load check read_file decode path of
        None \<Rightarrow> BootPanics
      | Some (Inl err) \<Rightarrow> BootFails err w
      | Some (Inr cfg) \<Rightarrow>
          (case new_runner a cfg w of
             None \<Rightarrow> BootPanics
           | Some (Inl err, w') \<Rightarrow> BootFails err w'
           | Some (Inr r, w') \<Rightarrow> BootReady r w'))"

section \<open>The state of the process\<close>

text \<open>\<open>Gone n\<close>: exit status \<open>n\<close>; a panic of any goroutine ends the process with status 2.\<close>

datatype phase = Starting | Serving | Stopping | Gone int

text \<open>The goroutine that reads the signals, and the one that runs the watcher.\<close>

datatype reader = ReaderUnstarted | ReadsFirst | ReadsSecond

datatype watching = WatchUnstarted | FirstRefresh | Ticking | WatchEnded

record 'w agent_process =
  ps_phase :: phase
  ps_runner :: "'w runner"
  ps_signals :: nat
  ps_reader :: reader
  ps_cancelled :: bool
  ps_watching :: watching

definition booted :: "'w runner \<Rightarrow> 'w agent_process" where
  "booted r =
     \<lparr>ps_phase = Starting, ps_runner = r, ps_signals = 0, ps_reader = ReaderUnstarted, ps_cancelled = False,
      ps_watching = WatchUnstarted\<rparr>"

definition alive :: "'w agent_process \<Rightarrow> bool" where
  "alive p \<longleftrightarrow> ps_phase p \<in> {Starting, Serving, Stopping}"

definition running :: "'w agent_process \<Rightarrow> bool" where
  "running p \<longleftrightarrow> ps_phase p \<in> {Serving, Stopping}"

section \<open>Steps\<close>

text \<open>The channel of signals holds two; what arrives while it is full is dropped.\<close>

definition signal_arrives :: "'w agent_process \<Rightarrow> 'w agent_process" where
  "signal_arrives p = p\<lparr>ps_signals := min 2 (Suc (ps_signals p))\<rparr>"

definition start_returns :: "'w app_env \<Rightarrow> 'w agent_process \<Rightarrow> go_error option \<times> 'w agent_process" where
  "start_returns a p =
     (case runner_start a (ps_runner p) of
        (Some err, r) \<Rightarrow> (Some err, p\<lparr>ps_runner := r, ps_phase := Gone 1\<rparr>)
      | (None, r) \<Rightarrow> (None, p\<lparr>ps_runner := r, ps_phase := Serving, ps_reader := ReadsFirst, ps_watching := FirstRefresh\<rparr>))"

definition signal_read :: "'w agent_process \<Rightarrow> 'w agent_process" where
  "signal_read p =
     (case ps_reader p of
        ReaderUnstarted \<Rightarrow> p
      | ReadsFirst \<Rightarrow> p\<lparr>ps_signals := ps_signals p - 1, ps_cancelled := True, ps_reader := ReadsSecond\<rparr>
      | ReadsSecond \<Rightarrow> p\<lparr>ps_signals := ps_signals p - 1, ps_phase := Gone 1\<rparr>)"

lemma signal_read_simps [simp]:
  "ps_reader p = ReadsFirst \<Longrightarrow>
     signal_read p = p\<lparr>ps_signals := ps_signals p - 1, ps_cancelled := True, ps_reader := ReadsSecond\<rparr>"
  "ps_reader p = ReadsSecond \<Longrightarrow> signal_read p = p\<lparr>ps_signals := ps_signals p - 1, ps_phase := Gone 1\<rparr>"
  "ps_reader p = ReaderUnstarted \<Longrightarrow> signal_read p = p"
  by (simp_all add: signal_read_def)

text \<open>One turn of the watcher's goroutine: the first refresh, or one after the ticker fired.\<close>

definition watcher_turn :: "'w app_env \<Rightarrow> 'w agent_process \<Rightarrow> go_error option \<times> 'w agent_process" where
  "watcher_turn a p =
     (let r = ps_runner p;
          r0 = (if ps_watching p = Ticking then r\<lparr>rn_plane := we_wait (watch_env_of a) (rn_plane r)\<rparr> else r)
      in case refresh_once (watch_env_of a) (rn_watcher r0) (rn_plane r0) of
           (res, wt, s) \<Rightarrow>
             (res, p\<lparr>ps_runner := r0\<lparr>rn_watcher := wt, rn_plane := s\<rparr>,
                ps_watching := (if res = None then Ticking else WatchEnded)\<rparr>))"

definition lease_turn :: "'w app_env \<Rightarrow> 'w agent_process \<Rightarrow> 'w agent_process" where
  "lease_turn a p =
     (let r = ps_runner p; s = rn_plane r
      in p\<lparr>ps_runner := r\<lparr>rn_plane := s\<lparr>pl_client := lease_tick (ap_consul a) (pl_client s)\<rparr>\<rparr>\<rparr>)"

text \<open>
  \<open>WaitForShutdown\<close>: blocked (\<open>None\<close>) until its context is cancelled, then \<open>Shutdown\<close>, whose context ends
  after 10 s; that deadline is part of what the environment of \<open>runner_shutdown\<close> answers.
\<close>

definition wait_for_shutdown :: "'w app_env \<Rightarrow> bool \<Rightarrow> 'w runner \<Rightarrow> (shutdown_result \<times> 'w runner) option" where
  "wait_for_shutdown a cancelled r = (if cancelled then Some (runner_shutdown a r) else None)"

lemma wait_for_shutdown_Some [simp]:
  "wait_for_shutdown a cancelled r = Some (st, r') \<longleftrightarrow> cancelled \<and> runner_shutdown a r = (st, r')"
  by (simp add: wait_for_shutdown_def)

abbreviation lease_interval :: "'w agent_process \<Rightarrow> duration" where
  "lease_interval p \<equiv> st_agent_lease_refresh_interval (cl_settings (pl_client (rn_plane (ps_runner p))))"

abbreviation lease_runs :: "'w agent_process \<Rightarrow> bool" where
  "lease_runs p \<equiv> cl_lease_running (pl_client (rn_plane (ps_runner p)))"

datatype process_event =
    SignalArrives
  | SignalRead
  | StartReturns "go_error option"
  | Requested request response
  | LeaseRenewed
  | WatcherTurned "go_error option"
  | WatcherCancelled
  | TickerPanicked
  | ShutdownBegins
  | ShutdownReturns "go_error option"
  | ShutdownPanicked

inductive process_step :: "'w app_env \<Rightarrow> 'w agent_process \<Rightarrow> process_event \<Rightarrow> 'w agent_process \<Rightarrow> bool" for a where
  Arrive: "alive p \<Longrightarrow> process_step a p SignalArrives (signal_arrives p)"
| Read: "alive p \<Longrightarrow> 0 < ps_signals p \<Longrightarrow> ps_reader p \<noteq> ReaderUnstarted \<Longrightarrow>
    process_step a p SignalRead (signal_read p)"
| Start: "ps_phase p = Starting \<Longrightarrow> start_returns a p = (res, p') \<Longrightarrow> process_step a p (StartReturns res) p'"
| Request: "running p \<Longrightarrow> serve (admin_deps_of a) q (ps_runner p) = (resp, r) \<Longrightarrow>
    process_step a p (Requested q resp) (p\<lparr>ps_runner := r\<rparr>)"
| Lease: "running p \<Longrightarrow> lease_runs p \<Longrightarrow> 0 < lease_interval p \<Longrightarrow> process_step a p LeaseRenewed (lease_turn a p)"
| LeasePanic: "running p \<Longrightarrow> lease_runs p \<Longrightarrow> lease_interval p \<le> 0 \<Longrightarrow>
    process_step a p TickerPanicked (p\<lparr>ps_phase := Gone 2\<rparr>)"
| Watch: "running p \<Longrightarrow> ps_watching p = FirstRefresh \<or>
      (ps_watching p = Ticking \<and> 0 < wt_refresh_interval (rn_watcher (ps_runner p))) \<Longrightarrow>
    watcher_turn a p = (res, p') \<Longrightarrow> process_step a p (WatcherTurned res) p'"
| WatchPanic: "running p \<Longrightarrow> ps_watching p = Ticking \<Longrightarrow> wt_refresh_interval (rn_watcher (ps_runner p)) \<le> 0 \<Longrightarrow>
    process_step a p TickerPanicked (p\<lparr>ps_phase := Gone 2\<rparr>)"
| WatchCancel: "running p \<Longrightarrow> ps_cancelled p \<Longrightarrow> ps_watching p = Ticking \<Longrightarrow>
    process_step a p WatcherCancelled (p\<lparr>ps_watching := WatchEnded\<rparr>)"
| BeginShutdown: "ps_phase p = Serving \<Longrightarrow> ps_cancelled p \<Longrightarrow>
    process_step a p ShutdownBegins (p\<lparr>ps_phase := Stopping\<rparr>)"
| EndShutdown: "ps_phase p = Stopping \<Longrightarrow> wait_for_shutdown a (ps_cancelled p) (ps_runner p) = Some (Finished res, r) \<Longrightarrow>
    process_step a p (ShutdownReturns res)
      (p\<lparr>ps_runner := r, ps_phase := Gone (if res = None then 0 else 1)\<rparr>)"
| PanicShutdown: "ps_phase p = Stopping \<Longrightarrow> wait_for_shutdown a (ps_cancelled p) (ps_runner p) = Some (ShutdownPanics, r) \<Longrightarrow>
    process_step a p ShutdownPanicked (p\<lparr>ps_runner := r, ps_phase := Gone 2\<rparr>)"

inductive process_run :: "'w app_env \<Rightarrow> 'w agent_process \<Rightarrow> process_event list \<Rightarrow> 'w agent_process \<Rightarrow> bool" for a where
  Nil: "process_run a p [] p"
| Step: "process_run a p es p' \<Longrightarrow> process_step a p' e p'' \<Longrightarrow> process_run a p (es @ [e]) p''"

inductive_cases step_ShutdownReturns: "process_step a p (ShutdownReturns res) p'"
inductive_cases step_StartReturns: "process_step a p (StartReturns res) p'"

lemma process_run_invariant:
  assumes "process_run a p es p'" "P p" "\<And>p e p'. P p \<Longrightarrow> process_step a p e p' \<Longrightarrow> P p'"
  shows "P p'"
  using assms(1,2) by (induction rule: process_run.induct) (auto intro: assms(3))

end
