(* ===== verification/Command_Runs.thy ===== *)
theory Command_Runs
  imports Command Admin_Properties
begin

text \<open>
  Lemmas on the runs of the process: what it does to the registry client is a run of the client's
  operations, how it exits, what the events say about the signals; and a demonstration run for the
  witnesses.
\<close>

section \<open>The registry client of the process\<close>

definition reached :: "env \<Rightarrow> client \<Rightarrow> client \<Rightarrow> bool" where
  "reached w c c' \<longleftrightarrow> (\<exists>cmds. c' = run_commands w cmds c)"

lemma reached_refl [simp]: "reached w c c"
  unfolding reached_def by (intro exI [of _ "[]"]) (simp add: run_commands_def)

lemma reached_command: "reached w c d \<Longrightarrow> reached w c (run_command w cmd d)"
  unfolding reached_def by (elim exE, rule_tac x = "cmds @ [cmd]" in exI) (simp add: run_commands_def)

lemma reached_result:
  assumes "reached w c d"
  shows "start w d = (r1, c1) \<Longrightarrow> reached w c c1" "register w d q2 = (r2, c2) \<Longrightarrow> reached w c c2"
    "drain w d q3 = (r3, c3) \<Longrightarrow> reached w c c3" "deregister w d q4 = (r4, c4) \<Longrightarrow> reached w c c4"
    "discover w d = (r5, c5) \<Longrightarrow> reached w c c5" "shutdown w d = (r6, c6) \<Longrightarrow> reached w c c6"
    "reached w c (lease_tick w d)"
  using reached_command [OF assms, of CmdStart] reached_command [OF assms, of "CmdRegister q2"]
    reached_command [OF assms, of "CmdDrain q3"] reached_command [OF assms, of "CmdDeregister q4"]
    reached_command [OF assms, of CmdDiscover] reached_command [OF assms, of CmdShutdown]
    reached_command [OF assms, of CmdLeaseTick]
  by simp_all

interpretation process_watch: watched "watch_env_of a" "\<lambda>s. reached (ap_consul a) c (pl_client s)" "\<lambda>s. ()" for a c
proof unfold_locales
  fix s r s'
  assume "reached (ap_consul a) c (pl_client s)" "we_discover (watch_env_of a) s = (r, s')"
  then show "reached (ap_consul a) c (pl_client s')"
    by (auto simp: watch_env_of_def discover_instances_def split: prod.splits dest: reached_result(5))
next
  fix s xs r s'
  assume "reached (ap_consul a) c (pl_client s)" "we_on_update (watch_env_of a) xs s = (r, s')"
  then show "reached (ap_consul a) c (pl_client s')"
    using publish_instances_keeps [of a xs s r s'] by (simp add: watch_env_of_def)
qed (auto simp: watch_env_of_def split: prod.splits)

definition process_client :: "'w agent_process \<Rightarrow> client" where
  "process_client p = pl_client (rn_plane (ps_runner p))"

lemma runner_refresh_reached:
  assumes "reached (ap_consul a) c (pl_client (rn_plane r))" "runner_refresh a r = (res, r')"
  shows "reached (ap_consul a) c (pl_client (rn_plane r'))"
  using assms process_watch.refresh_keeps [of a c "rn_plane r" "rn_watcher r"]
  by (auto simp: runner_refresh_def refresh_now_def split: prod.splits)

lemma respond_reached:
  assumes "reached (ap_consul a) c (pl_client (rn_plane r))"
    and "\<And>d res d'. reached (ap_consul a) c d \<Longrightarrow> op q d = (res, d') \<Longrightarrow> reached (ap_consul a) c d'"
    and "respond (runner_refresh a) (\<lambda>q. on_client (op q)) q r = (resp, r')"
  shows "reached (ap_consul a) c (pl_client (rn_plane r'))"
proof -
  obtain res d where op: "op q (pl_client (rn_plane r)) = (res, d)"
    by fastforce
  let ?r = "r\<lparr>rn_plane := (rn_plane r)\<lparr>pl_client := d\<rparr>\<rparr>"
  have "reached (ap_consul a) c (pl_client (rn_plane ?r))"
    using assms(2) [OF assms(1) op] by simp
  with assms(3) op runner_refresh_reached [of a c ?r] show ?thesis
    by (auto simp: respond_def on_client_def split: prod.splits sum.splits option.splits)
qed

lemma serve_reached:
  assumes "reached (ap_consul a) c (pl_client (rn_plane r))" "serve (admin_deps_of a) q r = (resp, r')"
  shows "reached (ap_consul a) c (pl_client (rn_plane r'))"
proof -
  have register: "reached (ap_consul a) c d'" if "reached (ap_consul a) c d" "register (ap_consul a) d q = (res, d')" for d q res d'
    by (rule reached_result(2) [OF that])
  have drain: "reached (ap_consul a) c d'" if "reached (ap_consul a) c d" "drain (ap_consul a) d q = (res, d')" for d q res d'
    by (rule reached_result(3) [OF that])
  have deregister: "reached (ap_consul a) c d'" if "reached (ap_consul a) c d" "deregister (ap_consul a) d q = (res, d')" for d q res d'
    by (rule reached_result(4) [OF that])
  have deps: "ad_register (admin_deps_of a) = (\<lambda>q. on_client (\<lambda>c. register (ap_consul a) c q))"
    "ad_drain (admin_deps_of a) = (\<lambda>q. on_client (\<lambda>c. drain (ap_consul a) c q))"
    "ad_deregister (admin_deps_of a) = (\<lambda>q. on_client (\<lambda>c. deregister (ap_consul a) c q))"
    by (simp_all add: admin_deps_of_def)
  show ?thesis
  proof (cases q)
    case (PostRegister payload)
    show ?thesis
    proof (cases payload)
      case (Inr x)
      with assms(2) PostRegister have "respond (runner_refresh a) (\<lambda>q. on_client (\<lambda>c. register (ap_consul a) c q)) x r = (resp, r')"
        by (simp add: handle_respond admin_refresh_of deps)
      from respond_reached [where op = "\<lambda>x d. register (ap_consul a) d x", OF assms(1) register this] show ?thesis
        by simp
    qed (use assms PostRegister in \<open>auto simp: handle_register_def\<close>)
  next
    case (PostDrain payload)
    show ?thesis
    proof (cases payload)
      case (Inr x)
      with assms(2) PostDrain have "respond (runner_refresh a) (\<lambda>q. on_client (\<lambda>c. drain (ap_consul a) c q)) x r = (resp, r')"
        by (simp add: handle_respond admin_refresh_of deps)
      from respond_reached [where op = "\<lambda>x d. drain (ap_consul a) d x", OF assms(1) drain this] show ?thesis
        by simp
    qed (use assms PostDrain in \<open>auto simp: handle_drain_def\<close>)
  next
    case (PostDeregister payload)
    show ?thesis
    proof (cases payload)
      case (Inr x)
      with assms(2) PostDeregister have "respond (runner_refresh a) (\<lambda>q. on_client (\<lambda>c. deregister (ap_consul a) c q)) x r = (resp, r')"
        by (simp add: handle_respond admin_refresh_of deps)
      from respond_reached [where op = "\<lambda>x d. deregister (ap_consul a) d x", OF assms(1) deregister this] show ?thesis
        by simp
    qed (use assms PostDeregister in \<open>auto simp: handle_deregister_def\<close>)
  qed (use assms in auto)
qed

lemma runner_start_client: "pl_client (rn_plane (snd (runner_start a r))) = snd (start (ap_consul a) (pl_client (rn_plane r)))"
proof -
  have world: "pl_client (rn_plane (snd (on_world f q))) = pl_client (rn_plane q)" for f and q :: "'a runner"
    by (simp add: on_world_def split: prod.splits)
  have parts: "pl_client (rn_plane (snd (start_xds a q))) = pl_client (rn_plane q)"
    "pl_client (rn_plane (snd (publish_first a q))) = pl_client (rn_plane q)"
    "pl_client (rn_plane (snd (start_envoy a q))) = pl_client (rn_plane q)" for q
    by (simp_all add: start_xds_def publish_first_def start_envoy_def world Let_def split: prod.splits option.splits)
  have before: "pl_client (rn_plane (snd (before m k))) = pl_client (rn_plane (snd m))"
    if "\<And>q. pl_client (rn_plane (snd (k q))) = pl_client (rn_plane q)" for m and k :: "'a runner \<Rightarrow> go_error option \<times> 'a runner"
    using that by (auto simp: before_def split: prod.splits option.splits)
  have "pl_client (rn_plane (snd (runner_start a r))) = pl_client (rn_plane (snd (start_registry a r)))"
    unfolding runner_start_def by (rule before) (simp add: before parts world)
  then show ?thesis
    by (simp add: start_registry_def split: prod.splits)
qed

lemma runner_shutdown_client:
  "pl_client (rn_plane (snd (runner_shutdown a r))) \<in>
     {pl_client (rn_plane r), snd (shutdown (ap_consul a) (pl_client (rn_plane r)))}"
proof -
  have world: "pl_client (rn_plane (snd (on_world f q))) = pl_client (rn_plane q)" for f and q :: "'a runner"
    by (simp add: on_world_def split: prod.splits)
  have rest: "pl_client (rn_plane (snd (shutdown_rest a q))) = pl_client (rn_plane q)" for q
    by (auto simp: shutdown_rest_def before_def on_world_def Let_def split: prod.splits option.splits)
  show ?thesis
    by (auto simp: runner_shutdown_def before_def shutdown_registry_def on_world_def rest
        split: prod.splits option.splits sum.splits)
qed

lemma process_step_reached:
  assumes "process_step a p e p'" "reached (ap_consul a) c (process_client p)"
  shows "reached (ap_consul a) c (process_client p')"
  using assms(1)
proof cases
  case (Start res)
  have "process_client p' = pl_client (rn_plane (snd (runner_start a (ps_runner p))))"
    using Start by (auto simp: start_returns_def process_client_def split: prod.splits option.splits)
  with assms(2) reached_command [OF assms(2), of CmdStart] show ?thesis
    by (simp add: runner_start_client process_client_def)
next
  case (Request q resp r)
  with assms(2) serve_reached [of a c "ps_runner p" q resp r] show ?thesis
    by (simp add: process_client_def)
next
  case Lease
  with assms(2) reached_result(7) [OF assms(2)] show ?thesis
    by (simp add: process_client_def lease_turn_def Let_def)
next
  case (Watch res)
  let ?s = "if ps_watching p = Ticking then we_wait (watch_env_of a) (rn_plane (ps_runner p)) else rn_plane (ps_runner p)"
  have "reached (ap_consul a) c (pl_client ?s)"
    using assms(2) by (simp add: process_client_def watch_env_of_def)
  with Watch process_watch.refresh_keeps [of a c ?s "rn_watcher (ps_runner p)"] show ?thesis
    by (auto simp: watcher_turn_def process_client_def Let_def split: prod.splits if_splits)
next
  case (EndShutdown res r)
  with assms(2) reached_result(6) [OF assms(2)] runner_shutdown_client [of a "ps_runner p"] show ?thesis
    by (cases "shutdown (ap_consul a) (pl_client (rn_plane (ps_runner p)))") (auto simp: process_client_def)
next
  case (PanicShutdown r)
  with assms(2) reached_result(6) [OF assms(2)] runner_shutdown_client [of a "ps_runner p"] show ?thesis
    by (cases "shutdown (ap_consul a) (pl_client (rn_plane (ps_runner p)))") (auto simp: process_client_def)
qed (use assms(2) in \<open>auto simp: process_client_def signal_arrives_def signal_read_def split: reader.splits\<close>)

lemma process_run_reached:
  assumes "process_run a p es p'"
  shows "reached (ap_consul a) (process_client p) (process_client p')"
  by (rule process_run_invariant [OF assms, of "\<lambda>q. reached (ap_consul a) (process_client p) (process_client q)"])
    (auto intro: process_step_reached)

lemma process_run_append: "process_run a q es' r \<Longrightarrow> process_run a p es q \<Longrightarrow> process_run a p (es @ es') r"
  by (induction rule: process_run.induct) (auto intro: process_run.Step simp flip: append_assoc)

lemma process_run_Cons: "process_step a p e q \<Longrightarrow> process_run a q es r \<Longrightarrow> process_run a p (e # es) r"
  using process_run_append [OF _ process_run.Step [OF process_run.Nil]] by fastforce

lemma boot_ready:
  assumes "boot check read_file decode a path w = BootReady r w'"
  obtains c where "load check read_file decode path = Some (Inr c)" "new_runner a c w = Some (Inr r, w')"
  using assms by (auto simp: boot_def split: option.splits sum.splits prod.splits)

lemma load_valid:
  assumes "permutes_lists ord1" "permutes_lists ord2" "permutes_lists ord3"
  shows "load (validate ord1 ord2 ord3) read_file decode path \<noteq> None \<and>
    (\<forall>c. load (validate ord1 ord2 ord3) read_file decode path = Some (Inr c) \<longrightarrow> valid_config c)"
  using validate_decides [OF assms] by (auto simp: load_def Let_def split: checked.splits option.splits sum.splits)

lemma booted_client:
  assumes "new_runner a c w = Some (Inr r, w')"
  shows "client_inv (process_client (booted r)) \<and> tracked (process_client (booted r)) \<and> view (process_client (booted r)) = Map.empty"
proof -
  obtain st where "pl_client (rn_plane r) = new_with_client (ap_consul a) st True"
    using assms by (auto simp: new_runner_def new_registry_def manager_settings_of_def Let_def new_server_def split: prod.splits option.splits sum.splits if_splits bind_splits)
  with new_with_client_inv new_with_client_tracked show ?thesis
    by (simp add: process_client_def booted_def)
qed

section \<open>A demonstration run\<close>

lemma demo_xds_listener:
  assumes "xds_settings c = Some bs"
  shows "bs_listener_address (bd_settings (new_builder bs)) = xc_listener_address (cf_xds c)"
  using assms by (auto simp: xds_settings_def new_builder_def Let_def split: bind_splits)

lemma accepting_build:
  assumes "build_listener (bd_settings b) = Inr ln"
  obtains snap sm b' where "build accepting_xds t b xs = (Inr (snap, sm), b')"
  using that resources_closed [OF assms] assms by (auto simp: build_def accepting_xds_def Let_def)

lemma runner_parts:
  assumes "new_runner a c w = Some (Inr r, w')"
  obtains st bs where "registry_settings c = Some st" "xds_settings c = Some bs"
    "pl_client (rn_plane r) = new_with_client (ap_consul a) st True" "sv_builder (pl_server (rn_plane r)) = new_builder bs"
    "rn_config r = c" "\<not> sv_started (pl_server (rn_plane r))"
  using assms by (auto simp: new_runner_def new_registry_def manager_settings_of_def Let_def new_server_def split: prod.splits option.splits sum.splits if_splits bind_splits)

lemma demo_runner_start:
  assumes "new_runner (demo_app demo_env) c (\<lambda>n. None) = Some (Inr r, w')" "xc_listener_address (cf_xds c) = ''127.0.0.1:15001''"
  obtains r1 where "runner_start (demo_app demo_env) r = (None, r1)" "rn_config r1 = c" "cl_local_services (pl_client (rn_plane r1)) = []"
proof -
  obtain st bs where "registry_settings c = Some st" and parts: "xds_settings c = Some bs"
    "pl_client (rn_plane r) = new_with_client demo_env st True" "sv_builder (pl_server (rn_plane r)) = new_builder bs"
    "rn_config r = c" "\<not> sv_started (pl_server (rn_plane r))"
    by (rule runner_parts [OF assms(1), unfolded demo_app_simps(1)])
  have "\<exists>ln. build_listener (bd_settings (new_builder bs)) = Inr ln"
    by (simp add: build_listener_def demo_xds_listener [OF parts(1)] assms(2) split_host_port_def last_index_byte_def Let_def)
  then obtain ln where ln: "build_listener (bd_settings (new_builder bs)) = Inr ln" ..
  obtain snap sm b' where b: "build accepting_xds 7 (new_builder bs) [] = (Inr (snap, sm), b')"
    by (rule accepting_build [OF ln])
  have "is_ok (fst (start demo_env (new_with_client demo_env st True)))" "cl_local_services (snd (start demo_env (new_with_client demo_env st True))) = []"
    by (simp_all add: start_def new_with_client_def new_instance_id_def now_eq ensure_usable_def cleanup_previous_runs_def call_def Let_def
        demo_env_def fake_env_def)
  then obtain c1 where c1: "start demo_env (new_with_client demo_env st True) = (Inr (), c1)" "cl_local_services c1 = []"
    by (cases "start demo_env (new_with_client demo_env st True)") (auto simp: is_ok_iff)
  show thesis
    using that c1 b parts(2-)
    by (cases "rn_envoy r") (auto simp: runner_start_def before_def start_registry_def start_xds_def server_start_def
        publish_def publish_first_def start_envoy_def on_world_def Let_def)
qed

abbreviation demo_boot :: "cache_world boot_result" where
  "demo_boot \<equiv> boot (validate rev rev (\<lambda>fs. fs)) (\<lambda>p. Inr []) (\<lambda>d c. Inr c) (demo_app demo_env) '''' (\<lambda>n. None)"

lemma demo_boot:
  obtains r w' where "demo_boot = BootReady r w'" "new_runner (demo_app demo_env) default_config (\<lambda>n. None) = Some (Inr r, w')"
proof -
  have "validate rev rev (\<lambda>fs. fs) default_config = Returns None"
    using validate_decides [OF permutes_rev permutes_rev permutes_id] default_valid by blast
  then have "load (validate rev rev (\<lambda>fs. fs)) (\<lambda>p. Inr []) (\<lambda>d c. Inr c) '''' = Some (Inr default_config)"
    by (simp add: load_def trim_space_trimmed trimmed_def)
  moreover obtain r w' where "new_runner (demo_app demo_env) default_config (\<lambda>n. None) = Some (Inr r, w')"
    using demo_new [OF default_valid] by blast
  ultimately show thesis
    by (intro that [of r w']) (simp_all add: boot_def)
qed

lemma demo_shutdown:
  assumes "rn_config r = default_config"
  obtains r' where "runner_shutdown (demo_app demo_env) r = (Finished None, r')"
proof -
  obtain c where "shutdown demo_env (pl_client (rn_plane r)) = (Inr (), c)"
    by (rule demo_shutdown_ok)
  moreover have "must_duration (ec_drain_timeout (cf_envoy default_config)) \<noteq> None"
    using default_valid by (auto simp: valid_config_def duration_fields_def duration_ok_def)
  moreover have "ap_envoy_stop (demo_app demo_env) t w = (None, w)" "ap_telemetry_shutdown (demo_app demo_env) w = (None, w)" for t w
    by (simp_all add: demo_app_def)
  ultimately have "fst (runner_shutdown (demo_app demo_env) r) = Finished None"
    using assms
    by (cases "sv_started (pl_server (rn_plane r))"; cases "rn_has_envoy r")
      (auto simp: runner_shutdown_def before_def shutdown_registry_def shutdown_rest_def on_world_def server_stop_def Let_def)
  with that show thesis
    by (cases "runner_shutdown (demo_app demo_env) r") simp
qed

lemma demo_served:
  assumes "rn_config r = default_config" "client_inv (pl_client (rn_plane r))" "cl_local_services (pl_client (rn_plane r)) = []"
  obtains resp r' where "serve (admin_deps_of (demo_app demo_env)) (PostRegister (Inr demo_request)) r = (resp, r')"
    "rn_config r' = default_config" "view (pl_client (rn_plane r')) \<noteq> Map.empty"
proof -
  obtain s c where reg: "register demo_env (pl_client (rn_plane r)) demo_request = (Inr s, c)"
    by (rule demo_register_empty [OF assms(3)])
  let ?r = "r\<lparr>rn_plane := (rn_plane r)\<lparr>pl_client := c\<rparr>\<rparr>"
  obtain e r' where refresh: "runner_refresh (demo_app demo_env) ?r = (e, r')"
    by fastforce
  have inv: "runner_inv ?r"
    using register_op.keeps_inv [OF demo_env_runtime assms(2), of demo_request] reg by (simp add: runner_inv_def)
  have "find_local_service c (rr_name demo_request) (rr_port demo_request) = Some s"
    by (rule register_stores [OF demo_env_runtime assms(2) reg])
  then have "stored_service r' (rr_name demo_request) (rr_port demo_request) = Some s"
    using runner_refresh_keeps [OF inv refresh] by (simp add: stored_service_def)
  then have "view (pl_client (rn_plane r')) (local_key (rr_name demo_request) (rr_port demo_request)) \<noteq> None"
    using view_local unfolding stored_service_def by fastforce
  moreover have "rn_config r' = default_config"
    using refresh assms(1) by (auto simp: runner_refresh_def split: prod.splits)
  moreover obtain resp where "serve (admin_deps_of (demo_app demo_env)) (PostRegister (Inr demo_request)) r = (resp, r')"
  proof -
    have "ad_register (admin_deps_of (demo_app demo_env)) demo_request r = (Inr s, ?r)"
      using reg by (simp add: admin_deps_of_def on_client_def)
    with refresh that show thesis
      by (cases e) (auto simp: handle_respond respond_def admin_refresh_of)
  qed
  ultimately show thesis
    by (intro that [of resp r']) auto
qed

text \<open>A run of the demonstration agent: started, one service registered, a signal, a clean shutdown.\<close>

lemma demo_process:
  obtains r w' es p where "demo_boot = BootReady r w'" "process_run (demo_app demo_env) (booted r) es p"
    "ps_phase p = Gone 0" "view (process_client p) \<noteq> Map.empty"
proof -
  let ?a = "demo_app demo_env"
  obtain r w' where r: "demo_boot = BootReady r w'" "new_runner ?a default_config (\<lambda>n. None) = Some (Inr r, w')"
    by (rule demo_boot)
  obtain r1 where r1: "runner_start ?a r = (None, r1)" "rn_config r1 = default_config" "cl_local_services (pl_client (rn_plane r1)) = []"
    by (rule demo_runner_start [OF r(2)]) (simp_all add: default_config_def)
  let ?p1 = "(booted r)\<lparr>ps_runner := r1, ps_phase := Serving, ps_reader := ReadsFirst, ps_watching := FirstRefresh\<rparr>"
  have s1: "process_step ?a (booted r) (StartReturns None) ?p1"
    by (rule process_step.Start) (simp_all add: booted_def start_returns_def r1)
  have "reached demo_env (process_client (booted r)) (process_client ?p1)"
    using process_step_reached [OF s1, of "process_client (booted r)"] by simp
  then have "client_inv (pl_client (rn_plane r1))"
    using run_op.keeps_inv [OF demo_env_runtime] booted_client [OF r(2)] by (auto simp: reached_def process_client_def)
  then obtain resp r2 where r2: "serve (admin_deps_of ?a) (PostRegister (Inr demo_request)) r1 = (resp, r2)"
    "rn_config r2 = default_config" "view (pl_client (rn_plane r2)) \<noteq> Map.empty"
    using demo_served [OF r1(2)] r1(3) by blast
  let ?p2 = "?p1\<lparr>ps_runner := r2\<rparr>"
  have s2: "process_step ?a ?p1 (Requested (PostRegister (Inr demo_request)) resp) ?p2"
    using r2(1) by (intro process_step.Request) (simp_all add: running_def)
  let ?p3 = "signal_arrives ?p2" and ?p4 = "signal_read (signal_arrives ?p2)"
  have s3: "process_step ?a ?p2 SignalArrives ?p3" "process_step ?a ?p3 SignalRead ?p4"
    by (rule process_step.Arrive process_step.Read; simp add: alive_def signal_arrives_def)+
  let ?p5 = "?p4\<lparr>ps_phase := Stopping\<rparr>"
  have s4: "process_step ?a ?p4 ShutdownBegins ?p5"
    by (rule process_step.BeginShutdown) (simp_all add: signal_arrives_def)
  obtain r3 where r3: "runner_shutdown ?a r2 = (Finished None, r3)"
    by (rule demo_shutdown [OF r2(2)])
  let ?p6 = "?p5\<lparr>ps_runner := r3, ps_phase := Gone 0\<rparr>"
  have s5: "process_step ?a ?p5 (ShutdownReturns None) ?p6"
    using process_step.EndShutdown [of ?p5 ?a None r3] r3 by (simp add: signal_arrives_def)
  have rest: "process_run ?a ?p2 [SignalArrives, SignalRead, ShutdownBegins, ShutdownReturns None] ?p6"
    using s3 s4 s5 by (blast intro: process_run_Cons process_run.Nil)
  then have run: "process_run ?a (booted r) (StartReturns None # Requested (PostRegister (Inr demo_request)) resp #
      [SignalArrives, SignalRead, ShutdownBegins, ShutdownReturns None]) ?p6"
    using s1 s2 by (blast intro: process_run_Cons)
  have "reached demo_env (process_client (booted r)) (process_client ?p2)"
    using process_run_reached [OF process_run_Cons [OF s1 process_run_Cons [OF s2 process_run.Nil]]] by simp
  then have p2: "client_inv (process_client ?p2)" "tracked (process_client ?p2)"
    using run_op.keeps_inv [OF demo_env_runtime] run_tracked.keeps_tracked [OF demo_env_runtime] booted_client [OF r(2)]
    by (auto simp: reached_def)
  obtain cmds where "process_client ?p6 = run_commands demo_env cmds (process_client ?p2)"
    using process_run_reached [OF rest] by (auto simp: reached_def)
  with run_tracked.keeps_keys [OF demo_env_runtime p2, of cmds] r2(3) have "view (process_client ?p6) \<noteq> Map.empty"
    by (auto simp: process_client_def)
  then show thesis
    by (intro that [OF r(1) run]) simp_all
qed

section \<open>The exit and the signals\<close>

lemma step_alive: "process_step a p e p' \<Longrightarrow> alive p"
  by (cases rule: process_step.cases) (auto simp: alive_def running_def)

lemma start_returns_fields:
  assumes "start_returns a p = (res, p')"
  shows "ps_cancelled p' = ps_cancelled p" "res = None \<Longrightarrow> ps_phase p' = Serving \<and> ps_reader p' = ReadsFirst"
    "res \<noteq> None \<Longrightarrow> ps_phase p' = Gone 1 \<and> ps_reader p' = ps_reader p"
  using assms by (auto simp: start_returns_def split: prod.splits option.splits)

lemma turn_fields:
  "watcher_turn a p = (res, p') \<Longrightarrow>
     ps_cancelled p' = ps_cancelled p \<and> ps_phase p' = ps_phase p \<and> ps_reader p' = ps_reader p"
  "ps_cancelled (lease_turn a p) = ps_cancelled p" "ps_phase (lease_turn a p) = ps_phase p"
  "ps_reader (lease_turn a p) = ps_reader p"
  by (auto simp: watcher_turn_def lease_turn_def Let_def split: prod.splits)

lemma step_zero:
  assumes "process_step a p e p'" "ps_phase p' = Gone 0"
  shows "e = ShutdownReturns None \<and> ps_phase p = Stopping \<and> runner_shutdown a (ps_runner p) = (Finished None, ps_runner p')"
  using assms(1)
proof cases
  case (Start res)
  with assms(2) start_returns_fields [OF Start(3)] show ?thesis
    by (cases res) auto
next
  case (Watch res)
  with assms(2) turn_fields(1) [OF Watch(4)] show ?thesis
    by (auto simp: running_def)
next
  case Read
  with assms(2) show ?thesis
    by (cases "ps_reader p") (auto simp: alive_def)
next
  case (EndShutdown res r)
  with assms(2) show ?thesis
    by (cases res) auto
qed (use assms(2) in \<open>auto simp: alive_def running_def signal_arrives_def turn_fields\<close>)

lemma exit_zero:
  assumes "process_run a p es p'" "ps_phase p' = Gone 0" "alive p"
  obtains es' q where "es = es' @ [ShutdownReturns None]" "process_run a p es' q" "ps_phase q = Stopping"
    "runner_shutdown a (ps_runner q) = (Finished None, ps_runner p')"
  using assms(1)
proof cases
  case Nil
  with assms(2,3) show thesis by (simp add: alive_def)
next
  case (Step es' q e)
  with step_zero [OF Step(3) assms(2)] that show thesis by blast
qed

text \<open>What the events so far say about the signals.\<close>

definition signals_ok :: "process_event list \<Rightarrow> 'w agent_process \<Rightarrow> bool" where
  "signals_ok es p \<longleftrightarrow>
     (let n = count_list es SignalRead in
      (ps_reader p = ReaderUnstarted \<longrightarrow> n = 0 \<and> \<not> running p) \<and>
      (ps_reader p = ReadsFirst \<longrightarrow> n = 0 \<and> ps_phase p \<noteq> Starting) \<and>
      (ps_reader p = ReadsSecond \<longrightarrow> ps_phase p \<noteq> Starting \<and> (n = 1 \<or> (n = 2 \<and> ps_phase p = Gone 1))) \<and>
      (ps_cancelled p \<longrightarrow> 1 \<le> n) \<and> (ps_phase p = Stopping \<longrightarrow> ShutdownBegins \<in> set es) \<and>
      (ShutdownBegins \<in> set es \<longrightarrow> 1 \<le> n) \<and> (ps_phase p = Starting \<longrightarrow> set es \<subseteq> {SignalArrives}))"

lemma signals_ok_same:
  "signals_ok es p \<Longrightarrow> e \<notin> {SignalRead, ShutdownBegins} \<Longrightarrow> ps_phase p \<noteq> Starting \<or> e = SignalArrives \<Longrightarrow>
     ps_reader p' = ps_reader p \<Longrightarrow> ps_cancelled p' = ps_cancelled p \<Longrightarrow> ps_phase p' = ps_phase p \<Longrightarrow> signals_ok (es @ [e]) p'"
  by (auto simp: signals_ok_def running_def Let_def count_list_append)

lemma signals_ok_gone:
  assumes "signals_ok es p" "e \<notin> {SignalRead, ShutdownBegins}" "running p"
    "ps_reader p' = ps_reader p" "ps_cancelled p' = ps_cancelled p" "\<exists>n. ps_phase p' = Gone n"
  shows "signals_ok (es @ [e]) p'"
proof -
  obtain n where "ps_phase p' = Gone n" using assms(6) ..
  with assms(1-5) show ?thesis
    by (auto simp: signals_ok_def running_def Let_def count_list_append)
qed

lemma signals_step:
  assumes "process_step a p e p'" "signals_ok es p"
  shows "signals_ok (es @ [e]) p'"
  using assms(1)
proof cases
  case Arrive
  with assms(2) show ?thesis
    by (intro signals_ok_same [of es p]) (simp_all add: signal_arrives_def)
next
  case Read
  then show ?thesis
    using assms(2) by (cases "ps_reader p") (auto simp: signals_ok_def alive_def running_def Let_def count_list_append)
next
  case (Start res)
  with assms(2) start_returns_fields [OF Start(3)] show ?thesis
    by (cases res; cases "ps_reader p") (auto simp: signals_ok_def running_def Let_def count_list_append)
next
  case (BeginShutdown)
  with assms(2) show ?thesis
    by (cases "ps_reader p") (auto simp: signals_ok_def running_def Let_def count_list_append)
next
  case (Watch res)
  with turn_fields(1) [OF Watch(4)] show ?thesis
    using assms(2) by (intro signals_ok_same [of es p]) (auto simp: running_def)
next
  case Lease
  with assms(2) show ?thesis
    by (intro signals_ok_same [of es p]) (auto simp: running_def turn_fields)
next
  case Request
  with assms(2) show ?thesis
    by (intro signals_ok_same [of es p]) (auto simp: running_def)
next
  case WatchCancel
  with assms(2) show ?thesis
    by (intro signals_ok_same [of es p]) (auto simp: running_def)
qed (rule signals_ok_gone [OF assms(2)]; simp add: running_def)+

lemma signals_run: "process_run a (booted r) es p \<Longrightarrow> signals_ok es p"
proof (induction "booted r" es p rule: process_run.induct)
  case Nil
  show ?case by (simp add: signals_ok_def booted_def running_def)
qed (rule signals_step)

end
