(* ===== verification/Command_Properties.thy ===== *)
theory Command_Properties
  imports Command_Runs Envoy_Properties
begin

text \<open>
  The properties of the whole process: booting never panics, everything it does to the registry client
  is a run of the client's operations, what an exit with status 0 guarantees, what the signals do,
  and three ways in which the exit goes wrong: the stop of the Envoy manager, an open \<open>/watch\<close>, and a
  ticker without a positive interval.
\<close>

section \<open>Booting\<close>

text \<open>
  C17. From the command line to a runner without a panic: whatever the file, its decoding, the order in
  which the maps of fields are visited, Consul, the file system and telemetry answer, \<open>main\<close> either
  stops with an error or has a runner, which is initial: its configuration is valid, the client has
  no services and its invariant, nothing is started or published, and Envoy is managed exactly when
  it is enabled.
\<close>

theorem boot_never_panics:
  assumes "permutes_lists ord1" "permutes_lists ord2" "permutes_lists ord3"
  shows "case boot (validate ord1 ord2 ord3) read_file decode a path w of
      BootPanics \<Rightarrow> False
    | BootFails err w' \<Rightarrow> True
    | BootReady r w' \<Rightarrow> valid_config (rn_config r) \<and> client_inv (process_client (booted r)) \<and>
        tracked (process_client (booted r)) \<and> cl_local_services (process_client (booted r)) = [] \<and>
        \<not> sv_started (pl_server (rn_plane r)) \<and> wt_last_publish_at (rn_watcher r) = None \<and>
        rn_has_envoy r = ec_enabled (cf_envoy (rn_config r))"
proof (cases "load (validate ord1 ord2 ord3) read_file decode path")
  case None
  with load_valid [OF assms] show ?thesis by blast
next
  case (Some res)
  show ?thesis
  proof (cases res)
    case (Inl err)
    with Some show ?thesis by (simp add: boot_def)
  next
    case (Inr c)
    with Some load_valid [OF assms, of read_file decode path] have "valid_config c" by blast
    from new_runner_result [OF this, of a w] this Some Inr show ?thesis
      by (auto simp: boot_def process_client_def booted_def tracked_def split: sum.splits)
  qed
qed

theorem boot_never_panics_witness:
  "\<exists>r w'. demo_boot = BootReady r w' \<and> valid_config (rn_config r) \<and> \<not> sv_started (pl_server (rn_plane r))"
proof -
  obtain r w' where r: "demo_boot = BootReady r w'"
    by (rule demo_boot)
  with boot_never_panics [OF permutes_rev permutes_rev permutes_id, of "\<lambda>p. Inr []" "\<lambda>d c. Inr c"
      "demo_app demo_env" "[]" "\<lambda>n. None"] show ?thesis
    by simp
qed

section \<open>What the process does to the registry\<close>



section \<open>The exit\<close>

text \<open>
  C4. What exit status 0 means: a signal was received and the shutdown finished without an error, so
  that every service the agent still knows is deregistered, Consul confirmed each, and the xDS server
  has stopped.
\<close>

theorem clean_exit_deregisters:
  assumes "go_runtime (ap_consul a)" "boot check read_file decode a path w = BootReady r w'"
    and "process_run a (booted r) es p" "ps_phase p = Gone 0"
  shows "{SignalRead, ShutdownBegins, ShutdownReturns None} \<subseteq> set es \<and>
    list_all (\<lambda>(k, s). ls_state s = StateDeregistered \<and>
      (ServiceDeregister (ls_instance_id s), None) \<in> set (calls_of (history (process_client p))))
      (cl_local_services (process_client p)) \<and> \<not> sv_started (pl_server (rn_plane (ps_runner p)))"
proof -
  obtain c where new: "new_runner a c w = Some (Inr r, w')"
    by (rule boot_ready [OF assms(2)])
  have inv: "client_inv (process_client q) \<and> tracked (process_client q)" if q: "process_run a (booted r) es q" for es q
  proof -
    obtain cmds where "process_client q = run_commands (ap_consul a) cmds (process_client (booted r))"
      using process_run_reached [OF q] by (auto simp: reached_def)
    with booted_client [OF new] show ?thesis
      by (simp add: run_tracked.keeps_tracked [OF assms(1)] run_op.keeps_inv [OF assms(1)])
  qed
  obtain es' q where q: "es = es' @ [ShutdownReturns None]" "process_run a (booted r) es' q" "ps_phase q = Stopping"
    "runner_shutdown a (ps_runner q) = (Finished None, ps_runner p)"
    using exit_zero [OF assms(3,4)] by (auto simp: booted_def alive_def)
  have clean: "ran (state_at (process_client p)) \<subseteq> {StateDeregistered}" "\<not> sv_started (pl_server (rn_plane (ps_runner p)))"
    using runner_shutdown_clean [OF assms(1) _ q(4)] inv [OF q(2)] by (simp_all add: process_client_def)
  have begun: "ShutdownBegins \<in> set es'" "1 \<le> count_list es' SignalRead"
    using signals_run [OF q(2)] q(3) by (auto simp: signals_ok_def Let_def)
  then have "SignalRead \<in> set es'"
    by (metis count_notin not_one_le_zero)
  have each: "ls_state s = StateDeregistered \<and>
      (ServiceDeregister (ls_instance_id s), None) \<in> set (calls_of (history (process_client p)))"
    if s: "(k, s) \<in> set (cl_local_services (process_client p))" for k s
  proof -
    have "map_of (cl_local_services (process_client p)) k = Some s"
      using inv [OF assms(3)] s by (simp add: client_inv_def)
    then have "ls_state s \<in> ran (state_at (process_client p))"
      by (auto simp: state_at_def ran_def)
    then have state: "ls_state s = StateDeregistered"
      using clean(1) by blast
    have "told (calls_of (history (process_client p))) s"
      using inv [OF assms(3)] s by (auto simp: tracked_def)
    with state show ?thesis
      by (simp add: told_def)
  qed
  show ?thesis
    using begun(1) \<open>SignalRead \<in> set es'\<close> clean(2) each q(1) by (auto simp: list_all_iff)
qed

theorem clean_exit_deregisters_witness:
  "\<exists>r w' es p. demo_boot = BootReady r w' \<and> process_run (demo_app demo_env) (booted r) es p \<and>
     ps_phase p = Gone 0 \<and> view (process_client p) \<noteq> Map.empty \<and> \<not> sv_started (pl_server (rn_plane (ps_runner p))) \<and>
     list_all (\<lambda>(k, s). ls_state s = StateDeregistered) (cl_local_services (process_client p))"
proof -
  obtain r w' es p where run: "demo_boot = BootReady r w'" "process_run (demo_app demo_env) (booted r) es p"
    "ps_phase p = Gone 0" "view (process_client p) \<noteq> Map.empty"
    by (rule demo_process)
  have "go_runtime (ap_consul (demo_app demo_env))"
    by (simp add: demo_env_runtime)
  note clean = clean_exit_deregisters [OF this run(1-3)]
  then have "list_all (\<lambda>(k, s). ls_state s = StateDeregistered) (cl_local_services (process_client p))"
    by (auto simp: list_all_iff)
  with run clean show ?thesis by blast
qed





section \<open>Shutdowns that fail\<close>

lemma shutdown_step:
  assumes "process_step a p (ShutdownReturns res) p'"
  shows "runner_shutdown a (ps_runner p) = (Finished res, ps_runner p') \<and> ps_phase p' = Gone (if res = None then 0 else 1)"
  using assms by (auto elim!: step_ShutdownReturns)

text \<open>
  C21. If the exit of Envoy has not been recorded when the shutdown comes to its \<open>Stop\<close>, the process
  does not exit cleanly. \<open>m\<close> is the state of the Envoy manager at that moment, and what \<open>Stop\<close> returns
  is an outcome of the manager's state machine from there. Although every service has been deregistered
  by then, the shutdown ends with an error and the exit status is 1; the world is as \<open>Stop\<close> leaves it,
  so telemetry is not shut down.
\<close>

theorem envoy_fails_exit:
  assumes "process_step a p (ShutdownReturns res) p'" "rn_has_envoy (ps_runner p)"
    and "ap_admin_shutdown a (pl_world (rn_plane (ps_runner p))) = (None, w1)"
    and "shutdown (ap_consul a) (process_client p) = (Inr (), c)" "ap_dns_shutdown a w1 = (None, w2)"
    and "server_stop (ap_io a) (pl_server (rn_plane (ps_runner p))) w2 = Some (sv, w3)"
    and "must_duration (ec_drain_timeout (cf_envoy (rn_config (ps_runner p)))) = Some timeout"
    and "envoy_running m" "stop_outcome m (fst (ap_envoy_stop a timeout w3))"
  shows "res \<noteq> None \<and> res = fst (ap_envoy_stop a timeout w3) \<and> ps_phase p' = Gone 1 \<and> process_client p' = c \<and>
    pl_world (rn_plane (ps_runner p')) = snd (ap_envoy_stop a timeout w3)"
proof -
  obtain err w4 where stop: "ap_envoy_stop a timeout w3 = (Some err, w4)"
    using stop_never_succeeds [OF assms(8,9)] by (cases "ap_envoy_stop a timeout w3") auto
  have "runner_shutdown a (ps_runner p) = (Finished (Some err), (ps_runner p)
      \<lparr>rn_plane := (rn_plane (ps_runner p))\<lparr>pl_client := c, pl_server := sv, pl_world := w4\<rparr>\<rparr>)"
    using assms(2-7) stop
    by (auto simp: runner_shutdown_def shutdown_registry_def shutdown_rest_def on_world_def before_def
        process_client_def Let_def)
  with shutdown_step [OF assms(1)] have "res = Some err" "ps_phase p' = Gone 1" "ps_runner p' = (ps_runner p)
      \<lparr>rn_plane := (rn_plane (ps_runner p))\<lparr>pl_client := c, pl_server := sv, pl_world := w4\<rparr>\<rparr>"
    by auto
  with stop show ?thesis
    by (simp add: process_client_def)
qed

theorem envoy_fails_exit_witness:
  "\<exists>p p'. process_step ((demo_app demo_env)\<lparr>ap_envoy_stop := (\<lambda>d c. (Some ContextDone, c))\<rparr>) p
       (ShutdownReturns (Some ContextDone)) p' \<and>
     ps_phase p' = Gone 1 \<and> ran (state_at (process_client p')) \<subseteq> {StateDeregistered}"
proof -
  let ?a = "(demo_app demo_env)\<lparr>ap_envoy_stop := (\<lambda>d c. (Some ContextDone, c))\<rparr>"
  let ?p = "(booted (demo_runner served_client))\<lparr>ps_phase := Stopping, ps_cancelled := True\<rparr>"
  obtain c where c: "shutdown demo_env served_client = (Inr (), c)"
    by (rule demo_shutdown_ok)
  have "client_inv served_client"
    by (rule served)
  then have gone: "ran (state_at c) \<subseteq> {StateDeregistered}"
    using shutdown_result [OF demo_env_runtime _ c] by auto
  have "must_duration (ec_drain_timeout (cf_envoy default_config)) \<noteq> None"
    using default_valid by (auto simp: valid_config_def duration_fields_def duration_ok_def)
  then obtain t where t: "must_duration (ec_drain_timeout (cf_envoy default_config)) = Some t"
    by auto
  obtain m where m: "manager_settings_of default_config = Some m"
    by (rule demo_manager)
  obtain res r' where r': "runner_shutdown ?a (demo_runner served_client) = (Finished res, r')"
    using c t m by (simp add: runner_shutdown_def shutdown_registry_def shutdown_rest_def on_world_def before_def
        server_stop_def demo_runner_def demo_server_def Let_def)
  obtain p' where step: "process_step ?a ?p (ShutdownReturns res) p'"
    using process_step.EndShutdown [of ?p ?a res r'] r' by (auto simp: booted_def)
  have "stop_begin None started_manager = (Inr (Some 0), cancel_ctx started_manager)"
    by (simp add: stop_begin_def cancel_ctx_def started_simps)
  then have "manager_step started_manager (StopBlocks (Some 0)) ((cancel_ctx started_manager)\<lparr>mg_caller := InStop (Some 0)\<rparr>)"
    by (intro manager_step.StopBlock [where signal = None]) (simp_all add: lock_free_def started_simps)
  moreover have "\<exists>m3. manager_step ((cancel_ctx started_manager)\<lparr>mg_caller := InStop (Some 0)\<rparr>) (StopReturns (Some ContextDone)) m3"
    by (intro exI) (rule manager_step.StopDeadline, simp)
  ultimately have stop: "stop_outcome started_manager (Some ContextDone)"
    unfolding stop_outcome_def using manager_run.Nil by fastforce
  have running: "envoy_running started_manager"
    by (simp add: envoy_running_def lock_free_def started_simps unrecorded_def)
  have "res = Some ContextDone \<and> ps_phase p' = Gone 1 \<and> process_client p' = c"
    using envoy_fails_exit [OF step, of "\<lambda>n. None" c "\<lambda>n. None" demo_server "\<lambda>n. None" t started_manager] c t m stop running
    by (simp add: booted_def demo_runner_def process_client_def demo_server_def server_stop_def)
  with step gone show ?thesis by auto
qed

text \<open>
  The handler of \<open>/watch\<close> returns when the context of its request is done, which \<open>http.Server.Shutdown\<close>
  does not cause: it waits for the requests in progress until its own context ends, and then returns
  that context's error.
\<close>

definition watch_returned :: "signal list \<Rightarrow> bool" where
  "watch_returned signals \<longleftrightarrow> Cancelled \<in> set signals"

lemma watch_returned_events: "watch_returned signals \<Longrightarrow> watch_events (signals @ later) = watch_events signals"
  unfolding watch_returned_def by (induction signals rule: watch_events.induct) auto

lemma watch_open_events:
  "\<not> watch_returned signals \<Longrightarrow> watch_events (signals @ later) = watch_events signals @ watch_events later"
  unfolding watch_returned_def by (induction signals rule: watch_events.induct) auto



section \<open>Tickers without a positive interval\<close>

lemma start_running: "start w c = (Inr u, c') \<Longrightarrow> cl_lease_running c'"
  by (auto simp: start_def and_then_Inr split: option.splits)

lemma runner_start_running:
  assumes "runner_start a r = (None, r')"
  shows "cl_lease_running (pl_client (rn_plane r'))"
proof -
  obtain r1 where "start_registry a r = (None, r1)"
    using assms by (auto simp: runner_start_def before_None)
  then obtain u c where c: "start (ap_consul a) (pl_client (rn_plane r)) = (Inr u, c)"
    by (auto simp: start_registry_def split: prod.splits sum.splits)
  then have "pl_client (rn_plane r') = c"
    using runner_start_client [of a r] assms by simp
  with start_running [OF c] show ?thesis by simp
qed

text \<open>
  C40. Validation accepts intervals that are not positive, on which \<open>time.NewTicker\<close> panics: with such a
  lease interval the process can crash with status 2 as soon as \<open>Start\<close> has returned, no shutdown
  having run, and in no continuation is a lease ever renewed.
\<close>

theorem lease_interval_crashes:
  assumes "go_runtime (ap_consul a)" "boot check read_file decode a path w = BootReady r w'"
    and "lease_interval (booted r) \<le> 0" "process_run a (booted r) (es @ [StartReturns None]) p"
  shows "process_step a p TickerPanicked (p\<lparr>ps_phase := Gone 2\<rparr>) \<and>
    (\<nexists>es' q. process_run a p (es' @ [LeaseRenewed]) q)"
proof -
  obtain c where new: "new_runner a c w = Some (Inr r, w')"
    by (rule boot_ready [OF assms(2)])
  have interval: "lease_interval q \<le> 0" if q: "process_run a (booted r) es q" for es q
  proof -
    obtain cmds where "process_client q = run_commands (ap_consul a) cmds (process_client (booted r))"
      using process_run_reached [OF q] by (auto simp: reached_def)
    with run_op.keeps_identity [OF assms(1), of "process_client (booted r)" cmds] booted_client [OF new] assms(3)
    show ?thesis
      by (simp add: process_client_def same_identity_def)
  qed
  obtain p0 where p0: "process_run a (booted r) es p0" "process_step a p0 (StartReturns None) p"
    using assms(4) by (auto elim: process_run.cases)
  have "ps_phase p0 = Starting" "start_returns a p0 = (None, p)"
    using p0(2) by (auto elim: step_StartReturns)
  then have "running p" "lease_runs p"
    using runner_start_running by (auto simp: start_returns_def running_def split: prod.splits option.splits)
  moreover have "lease_interval p \<le> 0"
    by (rule interval [OF assms(4)])
  moreover have "\<not> process_run a p (es' @ [LeaseRenewed]) q" for es' q
  proof
    assume "process_run a p (es' @ [LeaseRenewed]) q"
    then obtain q0 where q0: "process_run a p es' q0" "process_step a q0 LeaseRenewed q"
      by (auto elim: process_run.cases)
    then have "0 < lease_interval q0"
      by (auto elim: process_step.cases)
    with interval [OF process_run_append [OF q0(1) assms(4)]] show False by simp
  qed
  ultimately show ?thesis
    by (blast intro: process_step.LeasePanic)
qed

theorem lease_interval_crashes_witness:
  "\<exists>r w' p. boot (validate rev rev rev) (\<lambda>p. Inr []) (\<lambda>d c. Inr zero_interval_config) (demo_app demo_env)
       ''/etc/agent.yaml'' (\<lambda>n. None) = BootReady r w' \<and>
     process_run (demo_app demo_env) (booted r) [StartReturns None] p \<and>
     process_step (demo_app demo_env) p TickerPanicked (p\<lparr>ps_phase := Gone 2\<rparr>)"
proof -
  let ?a = "demo_app demo_env" and ?path = "''/etc/agent.yaml''"
  let ?c = "rebase_bootstrap ?path zero_interval_config"
  have same: "cf_xds ?c = cf_xds zero_interval_config" "cf_consul ?c = cf_consul zero_interval_config"
    by (simp_all add: rebase_bootstrap_def)
  have "ec_enabled (cf_envoy zero_interval_config) = False"
    by (simp add: zero_interval_config_def default_config_def)
  then have valid: "valid_config ?c"
    using conjunct1 [OF config_accepts_zero_interval]
    by (simp add: valid_config_def rebase_bootstrap_def address_fields_def required_fields_def
        duration_fields_def Let_def)
  then have "validate rev rev rev ?c = Returns None"
    using validate_decides [OF permutes_rev permutes_rev permutes_rev] by blast
  moreover have "trim_space ?path \<noteq> []"
    by (simp add: trim_space_trimmed trimmed_def graphic_def)
  ultimately have load: "load (validate rev rev rev) (\<lambda>p. Inr []) (\<lambda>d c. Inr zero_interval_config) ?path = Some (Inr ?c)"
    by (simp add: load_def Let_def)
  obtain r w' where new: "new_runner ?a ?c (\<lambda>n. None) = Some (Inr r, w')"
    using demo_new [OF valid] by blast
  with load have boot: "boot (validate rev rev rev) (\<lambda>p. Inr []) (\<lambda>d c. Inr zero_interval_config) ?a ?path (\<lambda>n. None) = BootReady r w'"
    by (simp add: boot_def)
  obtain st bs where st: "registry_settings ?c = Some st" "pl_client (rn_plane r) = new_with_client (ap_consul ?a) st True"
    by (rule runner_parts [OF new])
  have "must_duration (ccc_agent_lease_refresh_interval (cf_consul ?c)) = Some 0"
    using config_accepts_zero_interval by (simp add: same)
  then have "st_agent_lease_refresh_interval st = 0"
    using st(1) by (auto simp: registry_settings_def split: bind_splits)
  moreover have "cl_settings (new_with_client w st m) = st" for w m
    by (simp add: new_with_client_def new_instance_id_def now_def Let_def split: option.split prod.split sum.split)
  ultimately have interval: "lease_interval (booted r) \<le> 0"
    by (simp add: booted_def st(2))
  obtain r1 where r1: "runner_start ?a r = (None, r1)"
    by (rule demo_runner_start [OF new]) (simp_all add: same, simp add: zero_interval_config_def default_config_def)
  obtain p where "start_returns ?a (booted r) = (None, p)"
    using r1 by (simp add: start_returns_def booted_def)
  then have "process_step ?a (booted r) (StartReturns None) p"
    by (intro process_step.Start) (simp_all add: booted_def)
  then have run: "process_run ?a (booted r) [StartReturns None] p"
    using process_run_Cons process_run.Nil by blast
  have env: "go_runtime (ap_consul ?a)"
    by (simp add: demo_env_runtime)
  show ?thesis
    using lease_interval_crashes [OF env boot interval, of "[]" p] run boot by auto
qed

end
