(* ===== verification/Spec2Isabelle.thy ===== *)
theory Spec2Isabelle
  imports Model_Properties Admin_Properties Envoy_Properties Telemetry_Properties Dns_Properties
    Registry_Concurrency Discovery_Concurrency Command_Properties
begin

text \<open>
  The sidecar agent of this repository, modelled component by component.

  \<^bold>\<open>The program.\<close> An agent runs on every host. Services of the host register with it through a local
  HTTP API (\<open>src/admin/server.go\<close>); the registry client (\<open>src/registry/consul.go\<close>) enters them into
  Consul, renews their leases, drains and removes them, and discovers the healthy instances of the
  environment. The watcher (\<open>src/discovery/watcher.go\<close>) polls that discovery and hands every change, at
  most one per debounce interval, to the runner (\<open>src/app/app.go\<close>), which has the xDS server
  (\<open>src/xds/server.go\<close>) build a snapshot (\<open>src/xds/snapshot.go\<close>) and put it into the cache from which
  the host's Envoy gets its configuration. The agent writes Envoy's bootstrap file, starts Envoy and
  restarts it (\<open>src/envoy\<close>), answers DNS queries for mesh names (\<open>src/dns/server.go\<close>) and sets up
  OpenTelemetry (\<open>src/telemetry\<close>). The configuration (\<open>src/config/config.go\<close>) is read once. The command
  (\<open>src/cmd/sidecar-agent/main.go\<close>) builds the runner, starts it, and shuts it down on a signal.

  \<^bold>\<open>The theories.\<close>
  \<^item> \<open>Prelude\<close>, \<open>Go_Strings\<close>, \<open>Go_Errors\<close>, \<open>Go_Time\<close>, \<open>Go_Net\<close>, \<open>Go_Path\<close>: results and their sequencing,
    orders the runtime chooses, association lists; the parts of the Go library the code computes with
    (\<open>strings\<close>, \<open>time.ParseDuration\<close> and \<open>Duration.String\<close>, \<open>net.SplitHostPort\<close>, \<open>Sscanf("%d")\<close>,
    \<open>filepath\<close>); one constructor per error of the source. \<open>Duration_Format\<close> proves that the text of a
    duration of whole seconds parses to it.
  \<^item> \<open>Service_Model\<close>, \<open>Instance_Id\<close>, \<open>Model_Properties\<close>: the types and validations of \<open>src/model/types.go\<close>
    and the version 7 UUIDs of \<open>newInstanceID\<close>.
  \<^item> \<open>Consul_Api\<close>, \<open>Registry\<close>: the interfaces to Consul as a parameter and every operation of the registry
    client as one function of the client's state (the record \<open>client\<close>: settings, local services, the
    history of effects). \<open>Registry_Invariant\<close>: what every operation keeps. \<open>Registry_Effects\<close>: what each
    operation does, on every branch. \<open>Registry_Lifecycle\<close>: the abstract lifecycle of an instance and the
    simulation. \<open>Registry_Properties\<close>, \<open>Registry_Discovery\<close>: the properties.
  \<^item> \<open>Threads\<close>: goroutines that share a state and a mutex, their schedules, and a rely-guarantee rule.
    \<open>Registry_Threads\<close>: the methods of the registry client step by step, as goroutines, and that run
    alone each is the operation of \<open>Registry\<close>. \<open>Registry_Interleaving\<close>: what every step keeps,
    termination, the lock discipline. \<open>Registry_Concurrency\<close>: the properties of the concurrent client.
  \<^item> \<open>Xds_Snapshot\<close>, \<open>Xds_Grouping\<close>, \<open>Xds_Server\<close>, \<open>Xds_Properties\<close>: grouping of instances, the resources
    of a snapshot, versions, the server's life cycle and \<open>Publish\<close>. \<open>Xds_Grouping\<close> proves the two
    map-filling loops equal to references without maps, once, for an interface both provide.
  \<^item> \<open>Discovery\<close>, \<open>Discovery_Properties\<close>: the watcher, its debounce and its loop.
    \<open>Discovery_Concurrency\<close>: its refreshes when the loop and the requests overlap.
  \<^item> \<open>Config\<close>, \<open>Config_Properties\<close>: defaults, loading, validation.
  \<^item> \<open>Envoy_Bootstrap\<close>, \<open>Envoy_Manager\<close>, \<open>Envoy_Properties\<close>: the bootstrap document, and the process manager
    with its mutex and goroutines as a step relation.
  \<^item> \<open>App\<close>, \<open>App_Properties\<close>: the runner, composed of the models above; the client of the interfaces of the
    watcher, interpreted on the registry and the xDS server.
  \<^item> \<open>Admin\<close>, \<open>Admin_Properties\<close>: the handlers of the management API, generic in the operations they call,
    and then over the runner.
  \<^item> \<open>Dns\<close>, \<open>Dns_Properties\<close>, \<open>Telemetry\<close>, \<open>Telemetry_Properties\<close>: the local DNS server and the set-up of
    OpenTelemetry.
  \<^item> \<open>Command\<close>: \<open>main\<close> up to the runner, and the running process as a step relation: signals, requests,
    background loops, \<open>WaitForShutdown\<close>, exit. \<open>Command_Runs\<close>: lemmas on its runs and a complete example
    run. \<open>Command_Properties\<close>: the properties of the process.

  \<^bold>\<open>What is shown.\<close> The registry client refines an abstract lifecycle per key, keeps its invariant, and
  never claims more than Consul confirmed; every operation is characterised on success and failure.
  Discovery returns exactly the healthy instances of the environment, and a registration reads back as
  the instance registered. A snapshot publishes exactly the instances it was built from, references
  only resources it contains, and versions do not repeat. The watcher publishes a stable source in
  time, keeps the debounce distance, and ends at its first error. From Consul to Envoy: after a
  refresh that publishes, the cache holds for the node exactly the healthy instances. Validation
  decides an explicit predicate, and no configuration file makes the command panic before \<open>Start\<close>. The
  status codes of the API say what became of the registry.

  Under concurrency: the serial operations are schedules of the goroutines; every schedule of any
  number of calls keeps the invariant of the client and its agreement with Consul; no schedule is
  infinite and none deadlocks; the map of services changes only under the mutex; publications of
  concurrent refreshes keep the debounce distance. The whole process: any run of it moves the services
  by abstract lifecycle steps, an exit with status 0 means that every known service was deregistered
  with confirmation, and the second signal ends it whatever hangs.

  \<^bold>\<open>Where the code falls short of its purpose\<close>, theorems say so: registering a changed version loses the
  running service; a failing first lease leaves an instance nobody tracks; draining revives a removed
  instance; two concurrent registrations leave an instance nobody tracks; a repeated registration can undo a
  concurrent deregistration; an open \<open>/watch\<close> ends the shutdown before it deregisters anything; a lease
  interval that is not positive crashes the started agent; signals are not looked at during \<open>Start\<close>;
  \<open>Stop\<close> of the Envoy manager waits for an exit that its own mutex keeps from being recorded;
  one failed restart ends supervision; one failed refresh ends discovery; a service on two ports gives
  a route table that Envoy refuses; a UDP listener that fails goes unnoticed; tracing alone is not set
  up.

  \<^bold>\<open>Numbers.\<close> Ports, weights and counts are Go \<open>int\<close>s read from bounded input and are \<open>int\<close>; where the
  code narrows or may wrap, the width is kept: 32-bit ports and weights of xDS, 64-bit snapshot
  versions (they repeat after \<open>2 ^ 64\<close> builds), 64-bit durations with the overflow checks of
  \<open>ParseDuration\<close>, the bytes of UUIDs. No definition uses fuel except the watcher's \<open>run_loop\<close>, whose
  argument is the number of ticks to follow: the loop itself has no end, and the theorems say how many
  ticks are enough.

  \<^bold>\<open>Abstractions.\<close> An operation under a mutex is one step, and so is a method of the registry client
  or a refresh, except in \<open>Registry_Threads\<close> and \<open>Discovery_Concurrency\<close>, where it is one step per
  access and call; a run of the process is a sequence of whole methods. The outside is a parameter whose answers may
  depend on everything done before: Consul, go-control-plane's cache and consistency check, the JSON
  and YAML codecs, SHA-256, the clock, random bytes, the operating system, the OpenTelemetry SDK,
  \<open>miekg/dns\<close>, and the order in which \<open>range\<close> visits a map. What a theorem needs of it is a named
  hypothesis of the theorem, which its witness meets with a concrete instance.

  \<^bold>\<open>Not modelled.\<close> Goroutines inside \<open>Start\<close> of the runner (the step relation of the process begins them when
  \<open>Start\<close> has returned) and the wait of \<open>Shutdown\<close> for the lease loop; log lines and spans; the parsing
  of the command line; the wiring of library objects (the gRPC and HTTP servers, the Consul client,
  transports), which computes nothing.
\<close>

end
